(* ===== verification/Prelude.thy ===== *)
theory Prelude
  imports Main "HOL-Library.AList" "HOL-Library.Sublist" "HOL-Library.Monad_Syntax"
begin

text \<open>
  Shared ground of the development: the machine integers of the C++ sources, C strings, decimal
  text (\<open>std::to_string\<close>, \<open>atoi\<close>), splitting and joining of text, and the generic list lemmas the
  component theories use. Nothing here models a file of \<open>src/\<close>; the definitions are the parts of
  the language and of its standard library that the sources rely on.
\<close>

named_theorems fs_simps \<open>rewrite rules of the file-system model\<close>
named_theorems handler_defs \<open>definitions of the RPC handlers\<close>
named_theorems broker_defs \<open>definitions of the message-broker operations\<close>
named_theorems hmi_defs \<open>definitions of the HMI adapter operations\<close>

section \<open>Machine integers\<close>

text \<open>
  C++ integers are HOL integers; a conversion to a narrower type is written out. \<open>int\<close> and
  \<open>long int\<close> are two's complement of 32 and 64 bits, \<open>size_t\<close> and \<open>unsigned long\<close> have 64 bits,
  \<open>unsigned short\<close> and \<open>uint16_t\<close> have 16.
\<close>

definition to_int :: "int \<Rightarrow> int" where
  "to_int k = signed_take_bit 31 k"

definition to_long :: "int \<Rightarrow> int" where
  "to_long k = signed_take_bit 63 k"

definition to_ulong :: "int \<Rightarrow> int" where
  "to_ulong k = take_bit 64 k"

definition to_ushort :: "int \<Rightarrow> int" where
  "to_ushort k = take_bit 16 k"

definition is_int :: "int \<Rightarrow> bool" where
  "is_int k \<longleftrightarrow> - (2 ^ 31) \<le> k \<and> k < 2 ^ 31"

definition is_long :: "int \<Rightarrow> bool" where
  "is_long k \<longleftrightarrow> - (2 ^ 63) \<le> k \<and> k < 2 ^ 63"

lemma to_int_id: "is_int k \<Longrightarrow> to_int k = k"
  by (simp add: to_int_def is_int_def signed_take_bit_int_eq_self)

lemma is_int_to_int: "is_int (to_int k)"
  using signed_take_bit_int_greater_eq_minus_exp [of 31 k] signed_take_bit_int_less_exp [of 31 k]
  by (simp add: to_int_def is_int_def)

lemma to_int_wrap: "2 ^ 31 \<le> k \<Longrightarrow> k < 2 ^ 32 \<Longrightarrow> to_int k = k - 2 ^ 32"
proof -
  assume k: "2 ^ 31 \<le> k" "k < 2 ^ 32"
  have "to_int k = to_int (k - 2 ^ 32)"
    by (simp add: to_int_def signed_take_bit_eq_iff_take_bit_eq take_bit_eq_mod)
  also have "\<dots> = k - 2 ^ 32"
    using k by (intro to_int_id) (simp add: is_int_def)
  finally show ?thesis .
qed

lemma to_long_id: "is_long k \<Longrightarrow> to_long k = k"
  by (simp add: to_long_def is_long_def signed_take_bit_int_eq_self)

lemma to_ulong_id: "0 \<le> k \<Longrightarrow> k < 2 ^ 64 \<Longrightarrow> to_ulong k = k"
  by (simp add: to_ulong_def take_bit_int_eq_self)

lemma to_ushort_id: "0 \<le> k \<Longrightarrow> k < 2 ^ 16 \<Longrightarrow> to_ushort k = k"
  by (simp add: to_ushort_def take_bit_int_eq_self)

lemma to_ushort_range: "0 \<le> to_ushort k \<and> to_ushort k < 2 ^ 16"
  using take_bit_int_less_exp [of 16 k] by (simp add: to_ushort_def)

section \<open>C strings\<close>

abbreviation NUL :: char where
  "NUL \<equiv> CHR 0x00"

text \<open>The text a C function sees behind \<open>s.c_str()\<close>: everything before the first NUL byte.\<close>

definition c_str :: "string \<Rightarrow> string" where
  "c_str s = takeWhile (\<lambda>c. c \<noteq> NUL) s"

text \<open>The C string in a character buffer; \<open>None\<close> when the buffer holds no terminator and reading
  it as a string leaves its bounds.\<close>

definition buf_str :: "string \<Rightarrow> string option" where
  "buf_str b = (if NUL \<in> set b then Some (c_str b) else None)"

lemma c_str_id: "NUL \<notin> set s \<Longrightarrow> c_str s = s"
  by (auto simp: c_str_def takeWhile_eq_all_conv)

lemma c_str_append_NUL: "NUL \<notin> set s \<Longrightarrow> c_str (s @ NUL # t) = s"
  by (simp add: c_str_def takeWhile_append)

lemma NUL_notin_c_str: "NUL \<notin> set (c_str s)"
  by (auto simp: c_str_def dest: set_takeWhileD)

lemma length_c_str: "length (c_str s) \<le> length s"
  by (simp add: c_str_def length_takeWhile_le)

lemma buf_str_append_NUL: "NUL \<notin> set s \<Longrightarrow> buf_str (s @ NUL # t) = Some s"
  by (simp add: buf_str_def c_str_append_NUL)

section \<open>Decimal text\<close>

definition isdigit :: "char \<Rightarrow> bool" where
  "isdigit c \<longleftrightarrow> 48 \<le> (of_char c :: nat) \<and> (of_char c :: nat) \<le> 57"

definition digit_char :: "nat \<Rightarrow> char" where
  "digit_char d = char_of (48 + d)"

definition digit_val :: "char \<Rightarrow> nat" where
  "digit_val c = of_char c - 48"

fun show_nat :: "nat \<Rightarrow> string" where
  "show_nat n = (if n < 10 then [digit_char n] else show_nat (n div 10) @ [digit_char (n mod 10)])"

declare show_nat.simps [simp del]

definition read_nat :: "string \<Rightarrow> nat" where
  "read_nat s = foldl (\<lambda>a c. 10 * a + digit_val c) 0 s"

text \<open>\<open>std::to_string\<close> of an integer.\<close>

definition to_string :: "int \<Rightarrow> string" where
  "to_string i = (if i < 0 then CHR ''-'' # show_nat (nat (- i)) else show_nat (nat i))"

lemma of_char_digit_char: "d < 10 \<Longrightarrow> (of_char (digit_char d) :: nat) = 48 + d"
  by (simp add: digit_char_def)

lemma digit_val_digit_char: "d < 10 \<Longrightarrow> digit_val (digit_char d) = d"
  by (simp add: digit_val_def of_char_digit_char)

lemma isdigit_digit_char: "d < 10 \<Longrightarrow> isdigit (digit_char d)"
  by (simp add: isdigit_def of_char_digit_char)

lemma show_nat_nonempty: "show_nat n \<noteq> []"
  by (subst show_nat.simps) simp

lemma show_nat_digits: "list_all isdigit (show_nat n)"
proof (induction n rule: show_nat.induct)
  case (1 n)
  show ?case
  proof (cases "n < 10")
    case True
    then show ?thesis by (subst show_nat.simps) (simp add: isdigit_digit_char)
  next
    case False
    with "1.IH" show ?thesis by (subst show_nat.simps) (simp add: isdigit_digit_char)
  qed
qed

lemma read_show_nat: "read_nat (show_nat n) = n"
proof (induction n rule: show_nat.induct)
  case (1 n)
  show ?case
  proof (cases "n < 10")
    case True
    then show ?thesis by (subst show_nat.simps) (simp add: read_nat_def digit_val_digit_char)
  next
    case False
    with "1.IH" have "read_nat (show_nat (n div 10)) = n div 10" by simp
    with False show ?thesis
      by (subst show_nat.simps) (simp add: read_nat_def digit_val_digit_char)
  qed
qed

lemma isdigit_not_minus: "\<not> isdigit (CHR ''-'')"
  by (simp add: isdigit_def)

lemma hd_show_nat: "isdigit (hd (show_nat n))"
  using show_nat_digits [of n] show_nat_nonempty [of n] by (cases "show_nat n") auto

lemma to_string_nonneg: "0 \<le> i \<Longrightarrow> to_string i = show_nat (nat i)"
  by (simp add: to_string_def)

text \<open>\<open>atoi\<close> on text that starts with a digit or is empty, the only calls the sources make: the C
  library reads the digits, saturates at \<open>LONG_MAX\<close>, and converts to \<open>int\<close>.\<close>

definition atoi :: "string \<Rightarrow> int" where
  "atoi s = to_int (min (int (read_nat (takeWhile isdigit s))) (2 ^ 63 - 1))"

lemma atoi_show_nat: "atoi (show_nat n) = to_int (min (int n) (2 ^ 63 - 1))"
proof -
  have e: "takeWhile isdigit (show_nat n) = show_nat n"
    using show_nat_digits [of n] by (simp add: takeWhile_eq_all_conv list_all_iff)
  show ?thesis unfolding atoi_def e read_show_nat ..
qed

section \<open>Splitting and joining text\<close>

fun split_on :: "char \<Rightarrow> string \<Rightarrow> string list" where
  "split_on d [] = [[]]"
| "split_on d (c # cs) =
     (if c = d then [] # split_on d cs
      else (case split_on d cs of [] \<Rightarrow> [[c]] | w # ws \<Rightarrow> (c # w) # ws))"

lemma split_on_nonempty: "split_on d s \<noteq> []"
  by (induction s) (auto split: list.splits)

lemma split_on_append: "split_on d (s @ d # t) = split_on d s @ split_on d t"
  by (induction s) (auto simp: split_on_nonempty split: list.splits)

lemma split_on_simple: "d \<notin> set s \<Longrightarrow> split_on d s = [s]"
  by (induction s) auto

lemma split_on_snoc: "split_on d (s @ [d]) = split_on d s @ [[]]"
  using split_on_append [of d s "[]"] by simp

fun join_with :: "char \<Rightarrow> string list \<Rightarrow> string" where
  "join_with d [] = []"
| "join_with d [w] = w"
| "join_with d (w # ws) = w @ d # join_with d ws"

section \<open>Association lists with distinct keys\<close>

lemma map_of_AList_update: "map_of (AList.update k v es) k' = (if k' = k then Some v else map_of es k')"
  by (simp add: update_conv')

lemma map_of_AList_delete: "map_of (AList.delete k es) k' = (if k' = k then None else map_of es k')"
  by (simp add: delete_conv')

lemma map_fst_AList_delete: "map fst (AList.delete k es) = filter (\<lambda>x. x \<noteq> k) (map fst es)"
  by (induction es) auto

lemma update_absent: "k \<notin> fst ` set es \<Longrightarrow> AList.update k v es = es @ [(k, v)]"
  by (induction es) auto

lemma update_new: "map_of es k = None \<Longrightarrow> AList.update k v es = es @ [(k, v)]"
  by (simp add: update_absent map_of_eq_None_iff)

section \<open>First in, first out\<close>

text \<open>A run of a queue: \<open>Some a\<close> puts \<open>a\<close> in, \<open>None\<close> takes one out. The run returns what came out.\<close>

fun queue_run ::
  "('a \<Rightarrow> 's \<Rightarrow> 's) \<Rightarrow> ('s \<Rightarrow> 'a option \<times> 's) \<Rightarrow> 'a option list \<Rightarrow> 's \<Rightarrow> 'a list \<times> 's" where
  "queue_run push pop [] s = ([], s)"
| "queue_run push pop (Some a # evs) s = queue_run push pop evs (push a s)"
| "queue_run push pop (None # evs) s =
     (case pop s of (out, s1) \<Rightarrow>
        case queue_run push pop evs s1 of (outs, s2) \<Rightarrow>
          ((case out of None \<Rightarrow> outs | Some a \<Rightarrow> a # outs), s2))"

definition puts :: "'a option list \<Rightarrow> 'a list" where
  "puts evs = List.map_filter (\<lambda>e. e) evs"

text \<open>The contract of a queue over a state with an invariant; \<open>ok\<close> are the items it takes.\<close>

locale fifo =
  fixes items :: "'s \<Rightarrow> 'a list"
    and push :: "'a \<Rightarrow> 's \<Rightarrow> 's"
    and pop :: "'s \<Rightarrow> 'a option \<times> 's"
    and ok :: "'a \<Rightarrow> bool"
    and inv :: "'s \<Rightarrow> bool"
  assumes push_items: "inv s \<Longrightarrow> ok a \<Longrightarrow> items (push a s) = items s @ [a]"
    and push_inv: "inv s \<Longrightarrow> ok a \<Longrightarrow> inv (push a s)"
    and pop_inv: "inv s \<Longrightarrow> inv (snd (pop s))"
    and pop_empty: "inv s \<Longrightarrow> items s = [] \<Longrightarrow> fst (pop s) = None \<and> items (snd (pop s)) = []"
    and pop_front: "inv s \<Longrightarrow> items s = a # as \<Longrightarrow> fst (pop s) = Some a \<and> items (snd (pop s)) = as"
begin

lemma pop_split: "inv s \<Longrightarrow> (case fst (pop s) of None \<Rightarrow> [] | Some a \<Rightarrow> [a]) @ items (snd (pop s)) = items s"
  by (cases "items s") (auto simp: pop_empty pop_front)

lemma run_inv:
  "inv s \<Longrightarrow> (\<And>a. Some a \<in> set evs \<Longrightarrow> ok a) \<Longrightarrow> inv (snd (queue_run push pop evs s))"
proof (induction evs arbitrary: s)
  case (Cons e evs)
  show ?case
  proof (cases e)
    case None
    obtain out s1 where p: "pop s = (out, s1)" by fastforce
    then have "inv s1" using pop_inv [OF Cons.prems(1)] by simp
    with Cons have "inv (snd (queue_run push pop evs s1))" by simp
    with p None show ?thesis by (auto split: prod.splits option.splits)
  next
    case (Some a)
    with Cons show ?thesis by (simp add: push_inv)
  qed
qed simp

text \<open>Nothing is lost, nothing is made up, and the order is kept.\<close>

lemma run_order:
  "inv s \<Longrightarrow> (\<And>a. Some a \<in> set evs \<Longrightarrow> ok a) \<Longrightarrow>
   fst (queue_run push pop evs s) @ items (snd (queue_run push pop evs s)) =
     items s @ puts evs"
proof (induction evs arbitrary: s)
  case Nil
  then show ?case by (simp add: puts_def map_filter_simps)
next
  case (Cons e evs)
  show ?case
  proof (cases e)
    case (Some a)
    with Cons show ?thesis by (simp add: push_items push_inv puts_def map_filter_simps)
  next
    case None
    obtain out s1 where p: "pop s = (out, s1)" by fastforce
    have "inv s1" using pop_inv [OF Cons.prems(1)] p by simp
    with Cons have IH: "fst (queue_run push pop evs s1) @ items (snd (queue_run push pop evs s1)) =
        items s1 @ puts evs" by simp
    have "(case out of None \<Rightarrow> [] | Some a \<Rightarrow> [a]) @ items s1 = items s"
      using pop_split [OF Cons.prems(1)] p by simp
    with IH None p show ?thesis
      by (auto simp: puts_def map_filter_simps split: prod.splits option.splits)
  qed
qed

end

section \<open>Refinement\<close>

text \<open>Runs of a labelled step relation, and the contract under which the runs of a system are runs of its
  specification: an invariant that every step keeps, and an abstraction under which every step is a step of
  the specification with the same label.\<close>

inductive trace_run :: "('s \<Rightarrow> 'l \<Rightarrow> 's \<Rightarrow> bool) \<Rightarrow> 's \<Rightarrow> 'l list \<Rightarrow> 's \<Rightarrow> bool" for step where
  run_nil: "trace_run step s [] s"
| run_cons: "step s l s1 \<Longrightarrow> trace_run step s1 ls s2 \<Longrightarrow> trace_run step s (l # ls) s2"

locale refinement =
  fixes cstep :: "'c \<Rightarrow> 'l \<Rightarrow> 'c \<Rightarrow> bool" and astep :: "'a \<Rightarrow> 'l \<Rightarrow> 'a \<Rightarrow> bool"
    and inv :: "'c \<Rightarrow> bool" and absn :: "'c \<Rightarrow> 'a"
  assumes step_inv: "cstep s l s' \<Longrightarrow> inv s \<Longrightarrow> inv s'"
    and step_simulated: "cstep s l s' \<Longrightarrow> inv s \<Longrightarrow> astep (absn s) l (absn s')"
begin

lemma run_simulated: "trace_run cstep s ls s' \<Longrightarrow> inv s \<Longrightarrow> trace_run astep (absn s) ls (absn s') \<and> inv s'"
proof (induction rule: trace_run.induct)
  case (run_cons s l s1 ls s2)
  then show ?case using step_inv [of s l s1] step_simulated [of s l s1] by (auto intro: trace_run.run_cons)
qed (simp add: trace_run.run_nil)

end

end
