(* ===== verification/Marshal.thy ===== *)
theory Marshal
  imports Prelude
begin

text \<open>
  The conversion between Lua values and the arguments of Qt signals (\<open>marshal.cc\<close>): the five
  marshallers, the table of them, and the parser that turns a signature into its list of marshallers. The
  Lua C API and Qt's UTF-8 decoder are parameters over a type \<open>'v\<close> of Lua values. A null pointer is
  \<open>None\<close>; in \<open>get_marshalling_list\<close> the outer \<open>None\<close> is a write past the buffer.
\<close>

section \<open>Values\<close>

record 'v lua_api =
  tointegerx :: "'v \<Rightarrow> int option"
  tolstring :: "'v \<Rightarrow> string option"
  toboolean :: "'v \<Rightarrow> bool"
  pushinteger :: "int \<Rightarrow> 'v"
  pushlstring :: "string \<Rightarrow> 'v"
  pushboolean :: "bool \<Rightarrow> 'v"
  from_utf8 :: "string \<Rightarrow> string"

text \<open>The objects behind the argument pointers; a \<open>QString\<close> is kept as its UTF-8 text.\<close>

datatype argument = Int_arg int | Int64_arg int | QString_arg string | QByteArray_arg string | Bool_arg bool

datatype Marshaller = intMarshaller | qint64Marshaller | QStringMarshaller | QByteArrayMarshaller | boolMarshaller

fun Marshal :: "'v lua_api \<Rightarrow> Marshaller \<Rightarrow> 'v \<Rightarrow> argument option" where
  "Marshal api intMarshaller v =
     (case tointegerx api v of None \<Rightarrow> None | Some val \<Rightarrow> Some (Int_arg (to_int val)))"
| "Marshal api qint64Marshaller v =
     (case tointegerx api v of None \<Rightarrow> None | Some val \<Rightarrow> Some (Int64_arg val))"
| "Marshal api QStringMarshaller v =
     (case tolstring api v of None \<Rightarrow> None | Some val \<Rightarrow> Some (QString_arg (from_utf8 api (c_str val))))"
| "Marshal api QByteArrayMarshaller v =
     (case tolstring api v of None \<Rightarrow> None | Some val \<Rightarrow> Some (QByteArray_arg val))"
| "Marshal api boolMarshaller v = Some (Bool_arg (toboolean api v))"

text \<open>\<open>None\<close> is an object of another type than the cast claims.\<close>

fun Unmarshal :: "'v lua_api \<Rightarrow> Marshaller \<Rightarrow> argument \<Rightarrow> 'v option" where
  "Unmarshal api intMarshaller (Int_arg i) = Some (pushinteger api i)"
| "Unmarshal api qint64Marshaller (Int64_arg i) = Some (pushinteger api i)"
| "Unmarshal api QStringMarshaller (QString_arg s) = Some (pushlstring api (c_str s))"
| "Unmarshal api QByteArrayMarshaller (QByteArray_arg s) = Some (pushlstring api s)"
| "Unmarshal api boolMarshaller (Bool_arg b) = Some (pushboolean api b)"
| "Unmarshal api m arg = None"

section \<open>The table and the parser\<close>

definition marshallers :: "(string \<times> Marshaller) list" where
  "marshallers = [(''int'', intMarshaller), (''qint64'', qint64Marshaller), (''bool'', boolMarshaller),
     (''QString'', QStringMarshaller), (''QByteArray'', QByteArrayMarshaller)]"

text \<open>\<open>QMap::operator[]\<close> gives a null pointer for an unknown type.\<close>

definition Marshaller_get :: "string \<Rightarrow> Marshaller option" where
  "Marshaller_get type = map_of marshallers type"

fun after_paren :: "string \<Rightarrow> string" where
  "after_paren [] = []"
| "after_paren (c # p) = (if c = CHR ''('' then p else after_paren p)"

abbreviation in_type :: "char \<Rightarrow> bool" where
  "in_type c \<equiv> c \<noteq> CHR '','' \<and> c \<noteq> CHR '')''"

text \<open>The outer loop of \<open>get_marshalling_list\<close> from the position \<open>p\<close> on.\<close>

function marshalling_loop :: "string \<Rightarrow> Marshaller option list \<Rightarrow> Marshaller option list option" where
  "marshalling_loop p retval =
     (if p = [] \<or> hd p = CHR '')'' then Some retval
      else
        let buffer = takeWhile in_type p;
            p = dropWhile in_type p;
            p = (if p \<noteq> [] \<and> hd p = CHR '','' then tl p else p)
        in if length buffer \<ge> 80 then None
           else marshalling_loop p (retval @ [Marshaller_get buffer]))"
  by pat_completeness auto
termination
proof (relation "measure (\<lambda>(p, r). length p)", goal_cases)
  case (2 p r buffer p1 p2)
  then obtain c q where p: "p = c # q" "c \<noteq> CHR '')''" by (cases p) auto
  show ?case
  proof (cases "c = CHR '',''")
    case True
    with 2 p show ?thesis by simp
  next
    case False
    with 2 p have "length p1 \<le> length q" by (simp add: length_dropWhile_le)
    moreover have "length p2 \<le> length p1" using 2 by auto
    ultimately show ?thesis using p by simp
  qed
qed simp

declare marshalling_loop.simps [simp del]

definition get_marshalling_list :: "string \<Rightarrow> Marshaller option list option" where
  "get_marshalling_list signature = marshalling_loop (after_paren (c_str signature)) []"

section \<open>Round trips\<close>

text \<open>The contract of a conversion with an inverse, on the values \<open>ok\<close>; what holds for one value holds
  for the arguments of a call.\<close>

fun convert_all :: "('m \<Rightarrow> 'a \<Rightarrow> 'b option) \<Rightarrow> 'm list \<Rightarrow> 'a list \<Rightarrow> 'b list option" where
  "convert_all f [] xs = Some []"
| "convert_all f (m # ms) [] = None"
| "convert_all f (m # ms) (x # xs) =
     (case f m x of None \<Rightarrow> None | Some y \<Rightarrow> map_option (\<lambda>ys. y # ys) (convert_all f ms xs))"

locale codec =
  fixes encode :: "'m \<Rightarrow> 'a \<Rightarrow> 'b option"
    and decode :: "'m \<Rightarrow> 'b \<Rightarrow> 'a option"
    and ok :: "'m \<Rightarrow> 'a \<Rightarrow> bool"
  assumes decode_encode: "ok m x \<Longrightarrow> Option.bind (encode m x) (decode m) = Some x"
begin

lemma encode_defined: "ok m x \<Longrightarrow> \<exists>y. encode m x = Some y \<and> decode m y = Some x"
  using decode_encode [of m x] by (cases "encode m x") auto

lemma encode_all: "list_all2 ok ms xs \<Longrightarrow> \<exists>ys. convert_all encode ms xs = Some ys \<and> length ys = length ms"
  by (induction rule: list_all2_induct) (use encode_defined in fastforce)+

lemma decode_all:
  "list_all2 ok ms xs \<Longrightarrow> Option.bind (convert_all encode ms xs) (convert_all decode ms) = Some xs"
proof (induction rule: list_all2_induct)
  case (Cons m ms x xs)
  obtain y where y: "encode m x = Some y" "decode m y = Some x" using encode_defined [OF Cons(1)] by blast
  with Cons show ?case by (cases "convert_all encode ms xs") auto
qed simp

end

text \<open>What the code relies on of Lua and Qt: pushing and reading back gives the same number (up to the
  53 bits of a Lua number), text and truth value; well-formed UTF-8 is decoded and encoded unchanged.\<close>

definition lua_ok :: "'v lua_api \<Rightarrow> (string \<Rightarrow> bool) \<Rightarrow> bool" where
  "lua_ok api utf8 \<longleftrightarrow>
     (\<forall>i. - (2 ^ 53) \<le> i \<longrightarrow> i \<le> 2 ^ 53 \<longrightarrow> tointegerx api (pushinteger api i) = Some i) \<and>
     (\<forall>s. tolstring api (pushlstring api s) = Some s) \<and>
     (\<forall>b. toboolean api (pushboolean api b) = b) \<and> (\<forall>s. utf8 s \<longrightarrow> from_utf8 api s = s)"

text \<open>The Lua values a marshaller is meant for.\<close>

fun suits :: "'v lua_api \<Rightarrow> (string \<Rightarrow> bool) \<Rightarrow> Marshaller \<Rightarrow> 'v \<Rightarrow> bool" where
  "suits api utf8 intMarshaller v \<longleftrightarrow> lua_ok api utf8 \<and> (\<exists>i. is_int i \<and> v = pushinteger api i)"
| "suits api utf8 qint64Marshaller v \<longleftrightarrow>
     lua_ok api utf8 \<and> (\<exists>i. - (2 ^ 53) \<le> i \<and> i \<le> 2 ^ 53 \<and> v = pushinteger api i)"
| "suits api utf8 QStringMarshaller v \<longleftrightarrow>
     lua_ok api utf8 \<and> (\<exists>s. utf8 s \<and> NUL \<notin> set s \<and> v = pushlstring api s)"
| "suits api utf8 QByteArrayMarshaller v \<longleftrightarrow> lua_ok api utf8 \<and> (\<exists>s. v = pushlstring api s)"
| "suits api utf8 boolMarshaller v \<longleftrightarrow> lua_ok api utf8 \<and> (\<exists>b. v = pushboolean api b)"

interpretation marshal_codec: codec "Marshal api" "Unmarshal api" "suits api utf8" for api utf8
proof
  fix m and v :: 'a
  assume "suits api utf8 m v"
  then show "Option.bind (Marshal api m v) (Unmarshal api m) = Some v"
    by (cases m) (auto simp: lua_ok_def is_int_def to_int_id c_str_id)
qed

section \<open>Signatures\<close>

definition type_name :: "string \<Rightarrow> bool" where
  "type_name t \<longleftrightarrow> t \<noteq> [] \<and> CHR '','' \<notin> set t \<and> CHR ''('' \<notin> set t \<and> CHR '')'' \<notin> set t \<and> NUL \<notin> set t"

definition signature_of :: "string \<Rightarrow> string list \<Rightarrow> string" where
  "signature_of name ts = name @ ''('' @ join_with (CHR '','') ts @ '')''"

definition plain_name :: "string \<Rightarrow> bool" where
  "plain_name name \<longleftrightarrow> CHR ''('' \<notin> set name \<and> CHR '')'' \<notin> set name \<and> NUL \<notin> set name"

lemma after_paren_name: "CHR ''('' \<notin> set name \<Longrightarrow> after_paren (name @ CHR ''('' # rest) = rest"
  by (induction name) auto

lemma takeWhile_type:
  assumes "type_name t" "\<not> in_type d"
  shows "takeWhile in_type (t @ d # rest) = t" "dropWhile in_type (t @ d # rest) = d # rest"
proof -
  have "\<forall>c \<in> set t. in_type c" using assms(1) by (auto simp: type_name_def)
  with assms(2) show "takeWhile in_type (t @ d # rest) = t" "dropWhile in_type (t @ d # rest) = d # rest"
    by (auto simp: takeWhile_append2 dropWhile_append2)
qed

lemma type_name_head: "type_name t \<Longrightarrow> t @ u \<noteq> [] \<and> hd (t @ u) \<noteq> CHR '')''"
  by (cases t) (auto simp: type_name_def)

lemma marshalling_loop_step:
  assumes "type_name t" "\<not> in_type d" "length t < 80"
  shows "marshalling_loop (t @ d # rest) acc =
     marshalling_loop (if d = CHR '','' then rest else d # rest) (acc @ [Marshaller_get t])"
  using assms type_name_head [OF assms(1), of "d # rest"] takeWhile_type [OF assms(1,2)]
  by (subst marshalling_loop.simps) simp

lemma marshalling_loop_types:
  "(\<forall>t \<in> set ts. type_name t \<and> length t < 80) \<Longrightarrow>
     marshalling_loop (join_with (CHR '','') ts @ '')'') acc = Some (acc @ map Marshaller_get ts)"
proof (induction "CHR '',''" ts arbitrary: acc rule: join_with.induct)
  case 1
  then show ?case by (subst marshalling_loop.simps) simp
next
  case (2 t)
  then have "marshalling_loop (t @ CHR '')'' # []) acc = marshalling_loop '')'' (acc @ [Marshaller_get t])"
    by (subst marshalling_loop_step) simp_all
  then show ?case by (simp add: marshalling_loop.simps [of "'')''"])
next
  case (3 t u ts)
  have "marshalling_loop (t @ CHR '','' # (join_with (CHR '','') (u # ts) @ '')'')) acc =
      marshalling_loop (join_with (CHR '','') (u # ts) @ '')'') (acc @ [Marshaller_get t])"
    using 3 by (subst marshalling_loop_step) simp_all
  with 3 show ?case by simp
qed

lemma NUL_notin_join: "(\<forall>t \<in> set ts. NUL \<notin> set t) \<Longrightarrow> NUL \<notin> set (join_with (CHR '','') ts)"
  by (induction "CHR '',''" ts rule: join_with.induct) auto

lemma c_str_signature:
  "plain_name name \<Longrightarrow> (\<forall>t \<in> set ts. type_name t) \<Longrightarrow> c_str (signature_of name ts) = signature_of name ts"
  using NUL_notin_join [of ts] by (intro c_str_id) (auto simp: signature_of_def plain_name_def type_name_def)

lemma get_marshalling_list_types:
  assumes "plain_name name" "\<forall>t \<in> set ts. type_name t \<and> length t < 80"
  shows "get_marshalling_list (signature_of name ts) = Some (map Marshaller_get ts)"
proof -
  have "c_str (signature_of name ts) = signature_of name ts" using assms by (simp add: c_str_signature)
  moreover have "after_paren (signature_of name ts) = join_with (CHR '','') ts @ '')''"
    using assms(1) by (simp add: signature_of_def plain_name_def after_paren_name)
  ultimately show ?thesis
    using marshalling_loop_types [OF assms(2), of "[]"] by (simp add: get_marshalling_list_def)
qed

section \<open>Properties\<close>

text \<open>A signature gives the marshallers of its parameters in order: for every name and every list of
  type names of less than 80 characters, \<open>get_marshalling_list\<close> returns the marshaller of each type, with a
  null pointer for a type that has none.\<close>

theorem marshalling_list_of_signature:
  assumes "plain_name name" "\<forall>t \<in> set ts. type_name t \<and> length t < 80"
  shows "get_marshalling_list (signature_of name ts) = Some (map Marshaller_get ts)"
  using assms by (rule get_marshalling_list_types)

theorem marshalling_list_of_signature_witness:
  "get_marshalling_list (signature_of ''received'' [''int'', ''Widget'', ''QString'']) =
     Some [Some intMarshaller, None, Some QStringMarshaller]"
  using marshalling_list_of_signature [of "''received''" "[''int'', ''Widget'', ''QString'']"]
  by (simp add: plain_name_def type_name_def Marshaller_get_def marshallers_def)

text \<open>C34: arguments survive the way through a signal: values that suit their marshallers, marshalled by
  the emitter and unmarshalled for the slot, come out as they went in.\<close>

theorem signal_arguments_roundtrip:
  assumes "list_all2 (suits api utf8) ms vs"
  shows "Option.bind (convert_all (Marshal api) ms vs) (convert_all (Unmarshal api) ms) = Some vs"
  using assms by (rule marshal_codec.decode_all)

text \<open>Lua values for closed examples.\<close>

datatype example_value = ENum int | EStr string | EBool bool

definition example_api :: "example_value lua_api" where
  "example_api = \<lparr>
     tointegerx = (\<lambda>v. case v of ENum i \<Rightarrow> Some i | _ \<Rightarrow> None),
     tolstring = (\<lambda>v. case v of EStr s \<Rightarrow> Some s | _ \<Rightarrow> None),
     toboolean = (\<lambda>v. v \<noteq> EBool False),
     pushinteger = ENum, pushlstring = EStr, pushboolean = EBool, from_utf8 = (\<lambda>s. s) \<rparr>"

lemma example_api_ok: "lua_ok example_api (\<lambda>s. True)"
  by (simp add: lua_ok_def example_api_def)

theorem signal_arguments_roundtrip_witness:
  "Option.bind (convert_all (Marshal example_api) [intMarshaller, QStringMarshaller, boolMarshaller]
       [ENum 7, EStr ''hi'', EBool True])
     (convert_all (Unmarshal example_api) [intMarshaller, QStringMarshaller, boolMarshaller]) =
   Some [ENum 7, EStr ''hi'', EBool True]"
proof -
  have "suits example_api (\<lambda>s. True) intMarshaller (ENum 7)"
    using example_api_ok by (auto simp: example_api_def is_int_def intro!: exI [of _ 7])
  moreover have "suits example_api (\<lambda>s. True) QStringMarshaller (EStr ''hi'')"
    using example_api_ok by (auto simp: example_api_def intro!: exI [of _ "''hi''"])
  moreover have "suits example_api (\<lambda>s. True) boolMarshaller (EBool True)"
    using example_api_ok by (auto simp: example_api_def)
  ultimately show ?thesis
    by (intro signal_arguments_roundtrip [of example_api "\<lambda>s. True"]) simp
qed

text \<open>A type name of 80 characters or more is written past the end of the parser's buffer.\<close>

lemma long_type_overflows:
  assumes "plain_name name" "type_name t" "length t \<ge> 80"
  shows "get_marshalling_list (signature_of name [t]) = None"
proof -
  have "c_str (signature_of name [t]) = signature_of name [t]" using assms by (simp add: c_str_signature)
  moreover have "after_paren (signature_of name [t]) = t @ CHR '')'' # []"
    using assms(1) by (simp add: signature_of_def plain_name_def after_paren_name)
  moreover have "marshalling_loop (t @ CHR '')'' # []) [] = None"
    using assms(3) type_name_head [OF assms(2), of "'')''"] takeWhile_type [OF assms(2), of "CHR '')''" "[]"]
    by (subst marshalling_loop.simps) simp
  ultimately show ?thesis by (simp add: get_marshalling_list_def)
qed

end
