(* ===== verification/Qt_Dynamic.thy ===== *)
theory Qt_Dynamic
  imports Marshal
begin

text \<open>
  Qt objects with signals and slots made at run time (\<open>qtdynamic.cc\<close>) and the Lua functions that connect
  and emit them (\<open>qtlua.cc\<close>). Qt's meta-object functions are parameters over a type \<open>'o\<close> of static
  objects. A dynamic object keeps a table from signatures to numbers for its signals and one for its
  slots; \<open>None\<close> is undefined behaviour (a range that ends before it begins, a null marshaller, a write
  past an array, a slot number out of range).
\<close>

section \<open>State\<close>

record 'o qt_api =
  normalizedSignature :: "string \<Rightarrow> string"
  checkConnectArgs :: "string \<Rightarrow> string \<Rightarrow> bool"
  indexOfSignal :: "'o \<Rightarrow> string \<Rightarrow> int"
  indexOfSlot :: "'o \<Rightarrow> string \<Rightarrow> int"
  meta_type :: "string \<Rightarrow> int"
  methodCount :: int
  object_metacall :: "bool \<Rightarrow> int \<Rightarrow> int"
  meta_connect :: "int \<Rightarrow> int \<Rightarrow> int list option \<Rightarrow> bool"
  static_connect :: "'o \<Rightarrow> string \<Rightarrow> 'o \<Rightarrow> string \<Rightarrow> bool"

record DynamicSlot =
  slot_marshallers :: "Marshaller option list"
  objidx :: int
  slot_name :: string

record DynamicObject =
  slotIndices :: "(string \<times> int) list"
  slotList :: "DynamicSlot list"
  signalIndices :: "(string \<times> int) list"

definition new_DynamicObject :: DynamicObject where
  "new_DynamicObject = \<lparr>slotIndices = [], slotList = [], signalIndices = []\<rparr>"

text \<open>A connection as it is handed to \<open>QMetaObject::connect\<close>.\<close>

record connection =
  conn_signal :: int
  conn_method :: int
  conn_types :: "int list option"

section \<open>Types of a signature\<close>

text \<open>\<open>while (p != end && *p++ != ',')\<close>: the characters passed, the comma included.\<close>

fun through_comma :: "string \<Rightarrow> string" where
  "through_comma [] = []"
| "through_comma (c # p) = c # (if c = CHR '','' then [] else through_comma p)"

function typesFromString :: "string \<Rightarrow> string list" where
  "typesFromString p =
     (if p = [] then []
      else
        let p = (if hd p = CHR '','' then tl p else p);
            b = through_comma p;
            p = drop (length b) p
        in (if b \<noteq> [] then [b] else []) @ typesFromString p)"
  by pat_completeness auto
termination
proof (relation "measure length", goal_cases)
  case (2 p p1 b p2)
  then obtain c q where p: "p = c # q" by (cases p) auto
  with 2 show ?case by (auto split: if_splits)
qed simp

declare typesFromString.simps [simp del]

fun type_codes :: "'o qt_api \<Rightarrow> string list \<Rightarrow> int list option" where
  "type_codes qt [] = Some []"
| "type_codes qt (typeName # typeNames) =
     (let t = (if typeName \<noteq> [] \<and> last typeName = CHR ''*'' then 31 else meta_type qt typeName)
      in if t = 0 then None else map_option (\<lambda>ts. t # ts) (type_codes qt typeNames))"

definition queuedConnectionTypes :: "'o qt_api \<Rightarrow> string list \<Rightarrow> int list option" where
  "queuedConnectionTypes qt typeNames = map_option (\<lambda>types. types @ [0]) (type_codes qt typeNames)"

text \<open>The text from behind the first \<open>(\<close>, or from the start when there is none (\<open>indexOf\<close> is then -1), up to
  the first \<open>)\<close>; the range has to end behind its beginning.\<close>

definition parameter_text :: "string \<Rightarrow> string option" where
  "parameter_text sig =
     (let start = (if CHR ''('' \<in> set sig then Suc (length (takeWhile (\<lambda>c. c \<noteq> CHR ''('') sig)) else 0);
          stop = length (takeWhile (\<lambda>c. c \<noteq> CHR '')'') sig)
      in if CHR '')'' \<notin> set sig \<or> stop < start then None
         else Some (take (stop - start) (drop start sig)))"

section \<open>Connecting\<close>

definition indices_value :: "(string \<times> int) list \<Rightarrow> string \<Rightarrow> int" where
  "indices_value indices key = (case map_of indices key of None \<Rightarrow> -1 | Some i \<Rightarrow> i)"

definition signal_id :: "string \<Rightarrow> DynamicObject \<Rightarrow> int \<times> DynamicObject" where
  "signal_id theSignal d =
     (let signalId = indices_value (signalIndices d) theSignal in
      if signalId < 0 then
        let signalId = int (length (signalIndices d))
        in (signalId, d\<lparr>signalIndices := AList.update theSignal signalId (signalIndices d)\<rparr>)
      else (signalId, d))"

definition slot_id :: "string \<Rightarrow> DynamicSlot \<Rightarrow> DynamicObject \<Rightarrow> int \<times> DynamicObject" where
  "slot_id theSlot s d =
     (let slotId = indices_value (slotIndices d) theSlot in
      if slotId < 0 then
        let slotId = int (length (slotList d))
        in (slotId, d\<lparr>slotIndices := AList.update theSlot slotId (slotIndices d), slotList := slotList d @ [s]\<rparr>)
      else (slotId, d))"

definition finish_connect :: "'o qt_api \<Rightarrow> int \<Rightarrow> int \<Rightarrow> string \<Rightarrow> (bool \<times> connection) option" where
  "finish_connect qt sig method signature = do {
     params \<leftarrow> parameter_text signature;
     let types = queuedConnectionTypes qt (typesFromString params);
     Some (meta_connect qt sig method types,
           \<lparr>conn_signal = sig, conn_method = method, conn_types = types\<rparr>) }"

text \<open>Each operation returns whether it connected, the connection asked for (if it came that far), and
  the objects.\<close>

definition connectDynamicSlot ::
  "'o qt_api \<Rightarrow> 'o \<Rightarrow> string \<Rightarrow> string \<Rightarrow> DynamicSlot \<Rightarrow> DynamicObject \<Rightarrow>
   ((bool \<times> connection option) \<times> DynamicObject) option" where
  "connectDynamicSlot qt obj sig slot s d =
     (let theSignal = normalizedSignature qt sig;
          theSlot = normalizedSignature qt slot
      in if \<not> checkConnectArgs qt theSignal theSlot then Some ((False, None), d)
         else
           let signalId = indexOfSignal qt obj theSignal in
           if signalId < 0 then Some ((False, None), d)
           else
             let (slotId, d) = slot_id theSlot s d in
             map_option (\<lambda>(res, conn). ((res, Some conn), d))
               (finish_connect qt signalId (slotId + methodCount qt) theSlot))"

definition connectDynamicSignal ::
  "'o qt_api \<Rightarrow> string \<Rightarrow> 'o \<Rightarrow> string \<Rightarrow> DynamicObject \<Rightarrow>
   ((bool \<times> connection option) \<times> DynamicObject) option" where
  "connectDynamicSignal qt sig obj slot d =
     (let theSignal = normalizedSignature qt sig;
          theSlot = normalizedSignature qt slot
      in if \<not> checkConnectArgs qt theSignal theSlot then Some ((False, None), d)
         else
           let slotId = indexOfSlot qt obj theSlot in
           if slotId < 0 then Some ((False, None), d)
           else
             let (signalId, d) = signal_id theSignal d in
             map_option (\<lambda>(res, conn). ((res, Some conn), d))
               (finish_connect qt (signalId + methodCount qt) slotId theSignal))"

text \<open>Sender and receiver may be the same object: the objects are in a store.\<close>

type_synonym store = "nat \<Rightarrow> DynamicObject"

definition connectDynamicSignalToDynamicSlot ::
  "'o qt_api \<Rightarrow> nat \<Rightarrow> string \<Rightarrow> nat \<Rightarrow> string \<Rightarrow> DynamicSlot \<Rightarrow> store \<Rightarrow>
   ((bool \<times> connection option) \<times> store) option" where
  "connectDynamicSignalToDynamicSlot qt sender sig receiver slot s objs =
     (let theSignal = normalizedSignature qt sig;
          theSlot = normalizedSignature qt slot
      in if \<not> checkConnectArgs qt theSignal theSlot then Some ((False, None), objs)
         else
           let (signalId, d) = signal_id theSignal (objs sender);
               objs = objs(sender := d);
               (slotId, d) = slot_id theSlot s (objs receiver);
               objs = objs(receiver := d)
           in map_option (\<lambda>(res, conn). ((res, Some conn), objs))
                (finish_connect qt (signalId + methodCount qt) (slotId + methodCount qt) theSignal))"

section \<open>Calling and emitting\<close>

definition make_DynamicSlot :: "'o qt_api \<Rightarrow> int \<Rightarrow> string \<Rightarrow> DynamicSlot option" where
  "make_DynamicSlot qt idx signature =
     map_option (\<lambda>ms. \<lparr>slot_marshallers = ms, objidx = idx,
       slot_name = takeWhile (\<lambda>c. c \<noteq> CHR ''('') signature\<rparr>)
       (get_marshalling_list (normalizedSignature qt signature))"

text \<open>A call of a slot: the Lua function \<open>slot_name\<close> of object \<open>objidx\<close> with the object itself and the
  unmarshalled arguments, if the object has that function. Marshallers and arguments may be null.\<close>

fun unmarshal_args :: "'v lua_api \<Rightarrow> Marshaller option list \<Rightarrow> argument option list \<Rightarrow> 'v list option" where
  "unmarshal_args api [] args = Some []"
| "unmarshal_args api (m # ms) [] = None"
| "unmarshal_args api (m # ms) (a # args) =
     (case (m, a) of
        (Some m', Some a') \<Rightarrow>
          (case Unmarshal api m' a' of
             None \<Rightarrow> None | Some v \<Rightarrow> map_option (\<lambda>vs. v # vs) (unmarshal_args api ms args))
      | _ \<Rightarrow> None)"

definition DynamicSlot_call ::
  "'v lua_api \<Rightarrow> (int \<Rightarrow> string \<Rightarrow> bool) \<Rightarrow> DynamicSlot \<Rightarrow> argument option list \<Rightarrow>
   (int \<times> string \<times> 'v list) option option" where
  "DynamicSlot_call api has_function s args =
     (if has_function (objidx s) (slot_name s) then
        map_option (\<lambda>vs. Some (objidx s, slot_name s, vs)) (unmarshal_args api (slot_marshallers s) (tl args))
      else Some None)"

text \<open>\<open>QObject::qt_metacall\<close>, a parameter, takes the static methods off the number; what is left is a dynamic
  slot. The result is the number the function returns and the slot it calls.\<close>

definition qt_metacall :: "'o qt_api \<Rightarrow> bool \<Rightarrow> int \<Rightarrow> DynamicObject \<Rightarrow> (int \<times> DynamicSlot option) option" where
  "qt_metacall qt invoke method d =
     (let idx = object_metacall qt invoke method in
      if idx < 0 \<or> \<not> invoke then Some (idx, None)
      else if idx < int (length (slotList d)) then Some (-1, Some (slotList d ! nat idx))
      else None)"

definition emitDynamicSignal :: "'o qt_api \<Rightarrow> string \<Rightarrow> DynamicObject \<Rightarrow> int option" where
  "emitDynamicSignal qt sig d =
     (let signalId = indices_value (signalIndices d) (normalizedSignature qt sig) in
      if signalId \<ge> 0 then Some (signalId + methodCount qt) else None)"

text \<open>\<open>qtlua_emit_signal\<close>: the array has room for eight pointers, or for \<open>msize\<close> when that is more, and
  the code stores one pointer more than there are arguments. \<open>arg i\<close> is the Lua value at stack index \<open>i\<close>.\<close>

fun marshal_args ::
  "'v lua_api \<Rightarrow> nat \<Rightarrow> Marshaller option list \<Rightarrow> (nat \<Rightarrow> 'v) \<Rightarrow> nat \<Rightarrow> argument option list option" where
  "marshal_args api room [] arg i = Some []"
| "marshal_args api room (m # ms) arg i =
     (if i \<ge> room then None
      else (case m of
              None \<Rightarrow> None
            | Some m' \<Rightarrow> map_option (\<lambda>as. Marshal api m' (arg (i + 1)) # as) (marshal_args api room ms arg (i + 1))))"

definition qtlua_emit_signal ::
  "'v lua_api \<Rightarrow> 'o qt_api \<Rightarrow> string \<Rightarrow> Marshaller option list \<Rightarrow> (nat \<Rightarrow> 'v) \<Rightarrow> DynamicObject \<Rightarrow>
   (int option \<times> argument option list) option" where
  "qtlua_emit_signal api qt theSignal ms arg d =
     (let msize = length ms;
          room = (if msize > 8 then msize else 8)
      in map_option (\<lambda>args. (emitDynamicSignal qt theSignal d, None # args)) (marshal_args api room ms arg 1))"

section \<open>The Lua function connect\<close>

datatype 'o qobject = Dynamic nat | Static 'o

text \<open>An emitter is a signature with its marshallers, stored in the index table of the sender under the
  name of the signal.\<close>

record lua_world =
  objs :: store
  index_tables :: "nat \<Rightarrow> (string \<times> (string \<times> Marshaller option list)) list"
  conns :: "connection list"

definition add_emitter :: "'o qt_api \<Rightarrow> nat \<Rightarrow> string \<Rightarrow> lua_world \<Rightarrow> lua_world option" where
  "add_emitter qt a sig w =
     (let theSignal = normalizedSignature qt sig;
          name = (if CHR ''('' \<in> set theSignal then takeWhile (\<lambda>c. c \<noteq> CHR ''('') theSignal else [])
      in map_option (\<lambda>ms. w\<lparr>index_tables := (index_tables w)(a :=
             AList.update name (theSignal, ms) (index_tables w a))\<rparr>)
           (get_marshalling_list theSignal))"

text \<open>What Qt keeps of a connection that was made.\<close>

definition note_conn :: "bool \<times> connection option \<Rightarrow> lua_world \<Rightarrow> lua_world" where
  "note_conn res w =
     (case res of (True, Some conn) \<Rightarrow> w\<lparr>conns := conns w @ [conn]\<rparr> | _ \<Rightarrow> w)"

text \<open>\<open>objref\<close> is the registry index \<open>luaL_ref\<close> returns for the receiver.\<close>

definition connect_objects ::
  "'o qt_api \<Rightarrow> int \<Rightarrow> 'o qobject \<Rightarrow> string \<Rightarrow> 'o qobject \<Rightarrow> string \<Rightarrow> lua_world \<Rightarrow> (bool \<times> lua_world) option" where
  "connect_objects qt objref sender sig receiver slot w =
     (case sender of
        Dynamic a \<Rightarrow>
          (case receiver of
             Dynamic b \<Rightarrow> do {
               w \<leftarrow> add_emitter qt a sig w;
               s \<leftarrow> make_DynamicSlot qt objref slot;
               (res, os) \<leftarrow> connectDynamicSignalToDynamicSlot qt a sig b slot s (objs w);
               Some (fst res, note_conn res (w\<lparr>objs := os\<rparr>)) }
           | Static r \<Rightarrow> do {
               (res, d) \<leftarrow> connectDynamicSignal qt sig r slot (objs w a);
               w \<leftarrow> add_emitter qt a sig (w\<lparr>objs := (objs w)(a := d)\<rparr>);
               Some (fst res, note_conn res w) })
      | Static r \<Rightarrow>
          (case receiver of
             Dynamic b \<Rightarrow> do {
               s \<leftarrow> make_DynamicSlot qt objref slot;
               (res, d) \<leftarrow> connectDynamicSlot qt r sig slot s (objs w b);
               Some (fst res, note_conn res (w\<lparr>objs := (objs w)(b := d)\<rparr>)) }
           | Static r' \<Rightarrow> Some (static_connect qt r sig r' slot, w)))"

text \<open>The userdata hold object pointers; a null one (\<open>None\<close>) is a Lua error.\<close>

definition qtlua_connect ::
  "'o qt_api \<Rightarrow> int \<Rightarrow> 'o qobject option \<Rightarrow> string \<Rightarrow> 'o qobject option \<Rightarrow> string \<Rightarrow> lua_world \<Rightarrow>
   (string + bool \<times> lua_world) option" where
  "qtlua_connect qt objref sender sig receiver slot w =
     (case sender of
        None \<Rightarrow> Some (Inl ''connect: sender must be a qt object'')
      | Some sender' \<Rightarrow>
          (case receiver of
             None \<Rightarrow> Some (Inl ''connect: receiver must be a qt object'')
           | Some receiver' \<Rightarrow> map_option Inr (connect_objects qt objref sender' sig receiver' slot w)))"

section \<open>Tables of numbers\<close>

text \<open>The contract of a table that numbers its keys: a known key keeps its number, a new one gets the
  next. It follows that numbers are dense, stable, and different for different keys.\<close>

locale id_table =
  fixes table :: "'s \<Rightarrow> (string \<times> int) list"
    and size :: "'s \<Rightarrow> nat"
    and assign :: "string \<Rightarrow> 's \<Rightarrow> int \<times> 's"
  assumes assign_known: "map_of (table s) k = Some i \<Longrightarrow> 0 \<le> i \<Longrightarrow> assign k s = (i, s)"
    and assign_new: "map_of (table s) k = None \<Longrightarrow>
      fst (assign k s) = int (size s) \<and> size (snd (assign k s)) = Suc (size s) \<and>
      table (snd (assign k s)) = table s @ [(k, int (size s))]"
begin

definition dense :: "'s \<Rightarrow> bool" where
  "dense s \<longleftrightarrow> distinct (map fst (table s)) \<and> map snd (table s) = map int [0..<size s]"

lemma dense_range:
  assumes "dense s" "map_of (table s) k = Some i"
  shows "0 \<le> i \<and> i < int (size s)"
proof -
  have "i \<in> set (map snd (table s))" using assms(2) by (force dest: map_of_SomeD)
  with assms(1) show ?thesis by (auto simp: dense_def)
qed

lemma dense_assign: "dense s \<Longrightarrow> dense (snd (assign k s))"
proof (cases "map_of (table s) k")
  case None
  assume "dense s"
  then show ?thesis
    using assign_new [OF None] None by (auto simp: dense_def map_of_eq_None_iff)
next
  case (Some i)
  assume "dense s"
  then show ?thesis using assign_known [OF Some] dense_range [OF _ Some] by simp
qed

lemma assign_lookup:
  assumes "dense s"
  shows "map_of (table (snd (assign k s))) k = Some (fst (assign k s)) \<and> 0 \<le> fst (assign k s) \<and>
     fst (assign k s) < int (size (snd (assign k s)))"
proof (cases "map_of (table s) k")
  case None
  then show ?thesis using assign_new [OF None] by (simp add: map_add_def)
next
  case (Some i)
  then show ?thesis using assign_known [OF Some] dense_range [OF assms Some] by simp
qed

lemma assign_stable:
  assumes "dense s" "map_of (table s) k' = Some i"
  shows "map_of (table (snd (assign k s))) k' = Some i"
proof (cases "map_of (table s) k")
  case None
  then show ?thesis using assign_new [OF None] assms(2) by (auto simp: map_add_def)
next
  case (Some j)
  then show ?thesis using assign_known [OF Some] dense_range [OF assms(1) Some] assms(2) by simp
qed

lemma dense_inj:
  assumes "dense s" "map_of (table s) k = Some i" "map_of (table s) k' = Some i"
  shows "k = k'"
proof -
  have "distinct (map snd (table s))" using assms(1) by (simp add: dense_def distinct_map)
  then have "inj_on snd (set (table s))" by (simp add: distinct_map)
  moreover have "(k, i) \<in> set (table s)" "(k', i) \<in> set (table s)" using assms(2,3) by (auto dest: map_of_SomeD)
  ultimately show ?thesis by (metis Pair_inject inj_onD snd_conv)
qed

end

interpretation signal_ids: id_table signalIndices "\<lambda>d. length (signalIndices d)" signal_id
  by unfold_locales
    (auto simp: signal_id_def indices_value_def Let_def update_new)

interpretation slot_ids: id_table slotIndices "\<lambda>d. length (slotList d)" "\<lambda>k. slot_id k s" for s
  by unfold_locales
    (auto simp: slot_id_def indices_value_def Let_def update_new)

section \<open>Dynamic objects stay in order\<close>

definition object_ok :: "DynamicObject \<Rightarrow> bool" where
  "object_ok d \<longleftrightarrow>
     distinct (map fst (signalIndices d)) \<and> map snd (signalIndices d) = map int [0..<length (signalIndices d)] \<and>
     distinct (map fst (slotIndices d)) \<and> map snd (slotIndices d) = map int [0..<length (slotList d)]"

lemma object_ok_dense: "object_ok d \<longleftrightarrow> signal_ids.dense d \<and> slot_ids.dense d"
  by (auto simp: object_ok_def signal_ids.dense_def slot_ids.dense_def)

lemma signal_id_keeps [simp]:
  "slotIndices (snd (signal_id k d)) = slotIndices d" "slotList (snd (signal_id k d)) = slotList d"
  by (simp_all add: signal_id_def Let_def)

lemma slot_id_keeps [simp]: "signalIndices (snd (slot_id k s d)) = signalIndices d"
  by (simp add: slot_id_def Let_def)

lemma object_ok_signal: "object_ok d \<Longrightarrow> object_ok (snd (signal_id k d))"
  using signal_ids.dense_assign [of d k] unfolding object_ok_dense by (simp add: slot_ids.dense_def)

lemma object_ok_slot: "object_ok d \<Longrightarrow> object_ok (snd (slot_id k s d))"
  using slot_ids.dense_assign [of d k s] unfolding object_ok_dense by (simp add: signal_ids.dense_def)

lemma finish_connect_Some:
  "finish_connect qt sig method signature = Some (res, conn) \<Longrightarrow> conn_signal conn = sig \<and> conn_method conn = method"
  by (auto simp: finish_connect_def bind_eq_Some_conv Let_def)

lemma connectDynamicSlot_ok:
  "object_ok d \<Longrightarrow> connectDynamicSlot qt obj sig slot s d = Some (r, d') \<Longrightarrow> object_ok d'"
  using object_ok_slot [of d "normalizedSignature qt slot" s]
  by (auto simp: connectDynamicSlot_def Let_def split: if_splits prod.splits)

lemma connectDynamicSignal_ok:
  "object_ok d \<Longrightarrow> connectDynamicSignal qt sig obj slot d = Some (r, d') \<Longrightarrow> object_ok d'"
  using object_ok_signal [of d "normalizedSignature qt sig"]
  by (auto simp: connectDynamicSignal_def Let_def split: if_splits prod.splits)

lemma connectDynamicSignalToDynamicSlot_eq:
  fixes os :: store and a :: nat
  assumes "checkConnectArgs qt (normalizedSignature qt sig) (normalizedSignature qt slot)"
  defines "objs1 \<equiv> os(a := snd (signal_id (normalizedSignature qt sig) (os a)))"
  shows "connectDynamicSignalToDynamicSlot qt a sig b slot s os =
     map_option (\<lambda>(res, conn). ((res, Some conn), objs1(b := snd (slot_id (normalizedSignature qt slot) s (objs1 b)))))
       (finish_connect qt (fst (signal_id (normalizedSignature qt sig) (os a)) + methodCount qt)
          (fst (slot_id (normalizedSignature qt slot) s (objs1 b)) + methodCount qt) (normalizedSignature qt sig))"
  using assms by (simp add: connectDynamicSignalToDynamicSlot_def Let_def case_prod_beta)

lemma connectDynamicSignalToDynamicSlot_ok:
  assumes "\<And>n. object_ok (os n)" "connectDynamicSignalToDynamicSlot qt a sig b slot s os = Some (r, os')"
  shows "object_ok (os' n)"
proof (cases "checkConnectArgs qt (normalizedSignature qt sig) (normalizedSignature qt slot)")
  case True
  with assms show ?thesis
    by (auto simp: connectDynamicSignalToDynamicSlot_eq intro!: object_ok_slot object_ok_signal)
next
  case False
  with assms show ?thesis by (simp add: connectDynamicSignalToDynamicSlot_def)
qed

lemma objs_simps [simp]: "objs (note_conn res w) = objs w"
  by (auto simp: note_conn_def split: prod.splits bool.splits option.splits)

lemma add_emitter_objs: "add_emitter qt a sig w = Some w' \<Longrightarrow> objs w' = objs w"
  by (auto simp: add_emitter_def Let_def)

lemma connect_objects_ok:
  assumes "\<And>n. object_ok (objs w n)" "connect_objects qt ref sender sig receiver slot w = Some (r, w')"
  shows "object_ok (objs w' n)"
proof (cases sender)
  case (Dynamic a)
  show ?thesis
  proof (cases receiver)
    case (Dynamic b)
    with \<open>sender = Dynamic a\<close> assms(2) obtain w1 s os res where
      w1: "add_emitter qt a sig w = Some w1" "objs w' = os"
        "connectDynamicSignalToDynamicSlot qt a sig b slot s (objs w1) = Some (res, os)"
      by (auto simp: connect_objects_def bind_eq_Some_conv)
    with add_emitter_objs [OF w1(1)] assms(1) connectDynamicSignalToDynamicSlot_ok show ?thesis by metis
  next
    case (Static q)
    with \<open>sender = Dynamic a\<close> assms(2) obtain d res w1 where
      d: "connectDynamicSignal qt sig q slot (objs w a) = Some (res, d)"
        "add_emitter qt a sig (w\<lparr>objs := (objs w)(a := d)\<rparr>) = Some w1" "objs w' = objs w1"
      by (auto simp: connect_objects_def bind_eq_Some_conv)
    then have "objs w' = (objs w)(a := d)" using add_emitter_objs by fastforce
    with connectDynamicSignal_ok [OF assms(1) d(1)] assms(1) show ?thesis by simp
  qed
next
  case (Static q)
  show ?thesis
  proof (cases receiver)
    case (Dynamic b)
    with \<open>sender = Static q\<close> assms(2) obtain d s res where
      d: "connectDynamicSlot qt q sig slot s (objs w b) = Some (res, d)" "objs w' = (objs w)(b := d)"
      by (auto simp: connect_objects_def bind_eq_Some_conv)
    with connectDynamicSlot_ok [OF assms(1) d(1)] assms(1) show ?thesis by simp
  next
    case (Static r)
    with \<open>sender = Static q\<close> assms show ?thesis by (simp add: connect_objects_def)
  qed
qed

lemma qtlua_connect_Inr:
  "qtlua_connect qt ref sender sig receiver slot w = Some (Inr (r, w')) \<longleftrightarrow>
   (\<exists>x y. sender = Some x \<and> receiver = Some y \<and> connect_objects qt ref x sig y slot w = Some (r, w'))"
  by (auto simp: qtlua_connect_def split: option.splits)

inductive lua_reachable :: "'o qt_api \<Rightarrow> lua_world \<Rightarrow> bool" for qt where
  lua_start: "lua_reachable qt \<lparr>objs = (\<lambda>n. new_DynamicObject), index_tables = (\<lambda>n. []), conns = []\<rparr>"
| lua_connect: "lua_reachable qt w \<Longrightarrow> qtlua_connect qt ref sender sig receiver slot w = Some (Inr (r, w')) \<Longrightarrow>
    lua_reachable qt w'"

lemma lua_reachable_ok: "lua_reachable qt w \<Longrightarrow> object_ok (objs w n)"
proof (induction arbitrary: n rule: lua_reachable.induct)
  case lua_start
  then show ?case by (simp add: object_ok_def new_DynamicObject_def)
next
  case (lua_connect w ref sender sig receiver slot r w')
  then show ?case using connect_objects_ok unfolding qtlua_connect_Inr by blast
qed

section \<open>Arguments of a signal\<close>

lemma marshal_args_list:
  "convert_all (Marshal api) ms vs = Some as \<Longrightarrow> length vs = length ms \<Longrightarrow> i + length ms \<le> room \<Longrightarrow>
   (\<And>j. j < length ms \<Longrightarrow> arg (i + 1 + j) = vs ! j) \<Longrightarrow>
   marshal_args api room (map Some ms) arg i = Some (map Some as)"
proof (induction ms arbitrary: vs as i)
  case (Cons m ms)
  then obtain v vs' where vs: "vs = v # vs'" by (cases vs) auto
  then obtain a as' where a: "Marshal api m v = Some a" "convert_all (Marshal api) ms vs' = Some as'" "as = a # as'"
    using Cons.prems(1) by (auto split: option.splits)
  have "arg (i + 1) = v" using Cons.prems(4) [of 0] vs by simp
  moreover have "marshal_args api room (map Some ms) arg (i + 1) = Some (map Some as')"
  proof (rule Cons.IH [OF a(2)])
    show "arg (i + 1 + 1 + j) = vs' ! j" if "j < length ms" for j
      using Cons.prems(4) [of "Suc j"] vs that by simp
  qed (use Cons.prems vs in auto)
  ultimately show ?case using a Cons.prems(3) by simp
qed simp

lemma unmarshal_args_list:
  "unmarshal_args api (map Some ms) (map Some as) = convert_all (Unmarshal api) ms as"
proof (induction ms arbitrary: as)
  case (Cons m ms)
  then show ?case by (cases as) (auto split: option.splits)
qed simp

lemma convert_all_prefix:
  "convert_all f (ms @ ns) xs = Some ys \<Longrightarrow> convert_all f ms xs = Some (take (length ms) ys)"
proof (induction ms arbitrary: xs ys)
  case (Cons m ms)
  then show ?case by (cases xs) (auto split: option.splits)
qed simp

text \<open>What the code relies on of Qt: a normalized signature stays as it is, and the methods of \<open>QObject\<close> come
  before the dynamic ones.\<close>

definition qt_ok :: "'o qt_api \<Rightarrow> bool" where
  "qt_ok qt \<longleftrightarrow> 0 \<le> methodCount qt \<and> (\<forall>m. object_metacall qt True m = m - methodCount qt) \<and>
     (\<forall>s. normalizedSignature qt (normalizedSignature qt s) = normalizedSignature qt s)"

lemma emit_known:
  assumes "list_all2 (suits api utf8) ms vs" "length ms \<le> 7" "\<And>j. j < length ms \<Longrightarrow> arg (2 + j) = vs ! j"
  obtains as where "qtlua_emit_signal api qt sig (map Some ms) arg d =
      Some (emitDynamicSignal qt sig d, None # map Some as)" "convert_all (Unmarshal api) ms as = Some vs"
proof -
  have l: "length vs = length ms" using assms(1) by (simp add: list_all2_lengthD)
  obtain as where as: "convert_all (Marshal api) ms vs = Some as" "convert_all (Unmarshal api) ms as = Some vs"
    using marshal_codec.decode_all [OF assms(1)] by (auto simp: bind_eq_Some_conv)
  have "marshal_args api 8 (map Some ms) arg 1 = Some (map Some as)"
    using assms(2,3) l by (intro marshal_args_list [OF as(1)]) simp_all
  with as(2) assms(2) that show thesis by (simp add: qtlua_emit_signal_def)
qed

text \<open>The emitter of a signal in the index table of its object.\<close>

lemma add_emitter_lookup:
  assumes "add_emitter qt a sig w = Some w1" "normalizedSignature qt sig = signature_of name ts" "plain_name name"
    and "\<forall>t \<in> set ts. type_name t \<and> length t < 80"
  shows "map_of (index_tables w1 a) name = Some (signature_of name ts, map Marshaller_get ts)"
proof -
  have "\<forall>c \<in> set name. c \<noteq> CHR ''(''" using assms(3) by (auto simp: plain_name_def)
  then have "takeWhile (\<lambda>c. c \<noteq> CHR ''('') (signature_of name ts) = name"
    by (simp add: signature_of_def takeWhile_append2)
  then show ?thesis
    using assms get_marshalling_list_types [OF assms(3,4)]
    by (auto simp: add_emitter_def Let_def signature_of_def update_conv')
qed

text \<open>A connection between dynamic objects leads from the number the sender emits to the slot.\<close>

lemma connection_leads_to_slot:
  assumes "qt_ok qt" "object_ok (os a)"
    and "checkConnectArgs qt (normalizedSignature qt sig) (normalizedSignature qt slot)"
    and "map_of (slotIndices (os b)) (normalizedSignature qt slot) = None"
    and "connectDynamicSignalToDynamicSlot qt a sig b slot s os = Some ((res, Some conn), os')"
  shows "emitDynamicSignal qt (normalizedSignature qt sig) (os' a) = Some (conn_signal conn)"
    and "qt_metacall qt True (conn_method conn) (os' b) = Some (-1, Some s)"
proof -
  let ?S = "normalizedSignature qt sig" and ?T = "normalizedSignature qt slot"
  let ?d = "snd (signal_id ?S (os a))"
  let ?os1 = "os(a := ?d)"
  have c: "os' = ?os1(b := snd (slot_id ?T s (?os1 b)))" "conn_signal conn = fst (signal_id ?S (os a)) + methodCount qt"
      "conn_method conn = fst (slot_id ?T s (?os1 b)) + methodCount qt"
    using assms(5) by (auto simp: connectDynamicSignalToDynamicSlot_eq [OF assms(3)] dest!: finish_connect_Some)
  have "slotIndices (?os1 b) = slotIndices (os b)" "slotList (?os1 b) = slotList (os b)" by simp_all
  then have "fst (slot_id ?T s (?os1 b)) = int (length (slotList (os b)))"
      "slotList (os' b) = slotList (os b) @ [s]"
    using assms(4) c(1) by (auto simp: slot_id_def indices_value_def Let_def)
  then show "qt_metacall qt True (conn_method conn) (os' b) = Some (-1, Some s)"
    using assms(1) c(3) by (simp add: qt_metacall_def qt_ok_def)
  have "signal_ids.dense (os a)" using assms(2) by (simp add: object_ok_dense)
  moreover have "signalIndices (os' a) = signalIndices ?d" using c(1) by simp
  ultimately show "emitDynamicSignal qt ?S (os' a) = Some (conn_signal conn)"
    using signal_ids.assign_lookup [of "os a" ?S] assms(1) c(2)
    by (simp add: emitDynamicSignal_def indices_value_def qt_ok_def)
qed

section \<open>Properties\<close>

text \<open>A Qt for closed examples: signatures are normal as they are, everything may be connected.\<close>

definition example_qt :: "unit qt_api" where
  "example_qt = \<lparr>normalizedSignature = (\<lambda>s. s), checkConnectArgs = (\<lambda>s t. True), indexOfSignal = (\<lambda>x s. -1),
     indexOfSlot = (\<lambda>x s. -1), meta_type = (\<lambda>t. if t = ''int'' then 2 else 0), methodCount = 5,
     object_metacall = (\<lambda>b m. m - 5), meta_connect = (\<lambda>s m t. True), static_connect = (\<lambda>a s b t. True)\<rparr>"

lemma example_qt_ok: "qt_ok example_qt"
  by (simp add: qt_ok_def example_qt_def)

lemma example_connects:
  "\<exists>w'. qtlua_connect example_qt 9 (Some (Dynamic 0)) (signature_of ''sent'' [''int'', ''bool'']) (Some (Dynamic 1))
     (signature_of ''got'' [''int'']) \<lparr>objs = (\<lambda>n. new_DynamicObject), index_tables = (\<lambda>n. []), conns = []\<rparr> =
     Some (Inr (True, w')) \<and> conns w' \<noteq> []"
proof -
  have "get_marshalling_list (signature_of ''sent'' [''int'', ''bool'']) = Some (map Marshaller_get [''int'', ''bool''])"
      "get_marshalling_list (signature_of ''got'' [''int'']) = Some (map Marshaller_get [''int''])"
    by (simp_all add: get_marshalling_list_types plain_name_def type_name_def)
  moreover have "parameter_text (signature_of ''sent'' [''int'', ''bool'']) = Some ''int,bool''"
    by (simp add: parameter_text_def signature_of_def)
  ultimately show ?thesis
    by (simp add: qtlua_connect_def connect_objects_def add_emitter_def make_DynamicSlot_def Let_def example_qt_def
        connectDynamicSignalToDynamicSlot_def finish_connect_def case_prod_beta note_conn_def)
qed

text \<open>The numbers of dynamic signals and slots are sound: in every state that \<open>qtlua_connect\<close> calls
  reach, each dynamic object numbers its signals and its slots 0, 1, 2, ..., each signature has one
  number, and there is exactly one slot object per slot number.\<close>

theorem dynamic_numbers_sound:
  assumes "lua_reachable qt w"
  shows "distinct (map fst (signalIndices (objs w n))) \<and> distinct (map fst (slotIndices (objs w n))) \<and>
     map snd (signalIndices (objs w n)) = map int [0..<length (signalIndices (objs w n))] \<and>
     map snd (slotIndices (objs w n)) = map int [0..<length (slotList (objs w n))]"
  using lua_reachable_ok [OF assms, of n] unfolding object_ok_def by blast

theorem dynamic_numbers_sound_witness:
  "\<exists>w. lua_reachable example_qt w \<and> conns w \<noteq> [] \<and>
     map snd (signalIndices (objs w 0)) = map int [0..<length (signalIndices (objs w 0))] \<and>
     map snd (slotIndices (objs w 1)) = map int [0..<length (slotList (objs w 1))]"
proof -
  obtain w where w: "lua_reachable example_qt w" "conns w \<noteq> []" using example_connects lua_connect lua_start by fast
  then show ?thesis using dynamic_numbers_sound [OF w(1), of 0] dynamic_numbers_sound [OF w(1), of 1] by blast
qed



text \<open>A signal can be emitted with at most seven arguments: with eight or more the emitter stores
  past the end of its array of argument pointers.\<close>

theorem emit_at_most_seven:
  "qtlua_emit_signal api qt sig (map Some ms) arg d = None \<longleftrightarrow> 8 \<le> length ms"
proof -
  have "marshal_args api room (map Some ms) arg i = None \<longleftrightarrow> room < i + length ms" if "ms \<noteq> []" for room i
    using that
  proof (induction ms arbitrary: i)
    case (Cons m ms)
    then show ?case by (cases "ms = []") auto
  qed simp
  then show ?thesis by (cases "ms = []") (auto simp: qtlua_emit_signal_def Let_def)
qed

section \<open>Types of queued arguments\<close>

lemma through_comma_type:
  "CHR '','' \<notin> set t \<Longrightarrow> through_comma t = t"
  "CHR '','' \<notin> set t \<Longrightarrow> through_comma (t @ CHR '','' # rest) = t @ '',''"
  by (induction t) auto

text \<open>The comma that ends a type name is part of the name: all names but the last keep it.\<close>

lemma typesFromString_join:
  assumes "type_name t'" "\<forall>t \<in> set ts. type_name t"
  shows "typesFromString (join_with (CHR '','') (ts @ [t'])) = map (\<lambda>t. t @ '','') ts @ [t']"
  using assms(2)
proof (induction ts)
  case Nil
  obtain c q where "t' = c # q" "c \<noteq> CHR '',''" using assms(1) by (cases t') (auto simp: type_name_def)
  with assms(1) through_comma_type(1) [of t'] show ?case
    by (simp add: typesFromString.simps [of "c # q"] typesFromString.simps [of "[]"] type_name_def)
next
  case (Cons t ts)
  let ?rest = "join_with (CHR '','') (ts @ [t'])"
  obtain c q where t: "t = c # q" "c \<noteq> CHR '',''" using Cons by (cases t) (auto simp: type_name_def)
  have "join_with (CHR '','') ((t # ts) @ [t']) = t @ CHR '','' # ?rest" by (cases ts) simp_all
  moreover have "through_comma (t @ CHR '','' # ?rest) = t @ '',''"
    using Cons.prems by (intro through_comma_type(2)) (simp add: type_name_def)
  moreover have "typesFromString (t @ CHR '','' # ?rest) = (t @ '','') # typesFromString ?rest"
    using calculation(2) t by (subst typesFromString.simps) (simp add: Let_def)
  ultimately show ?case using Cons by simp
qed

text \<open>So the types of a signature with several parameters are not known to Qt, whose names have no comma,
  and the connection is made without types of its own.\<close>

lemma several_parameters_have_no_types:
  assumes "\<forall>t. CHR '','' \<in> set t \<longrightarrow> meta_type qt t = 0" "ts \<noteq> []" "\<forall>t \<in> set ts. type_name t" "type_name t'"
  shows "queuedConnectionTypes qt (typesFromString (join_with (CHR '','') (ts @ [t']))) = None"
proof -
  obtain t us where "ts = t # us" using assms(2) by (cases ts) auto
  then show ?thesis
    using assms(1) typesFromString_join [OF assms(4,3)] by (simp add: queuedConnectionTypes_def)
qed

end
