(* ===== verification/Qt_Objects.thy ===== *)
theory Qt_Objects
  imports Qt_Dynamic
begin

text \<open>
  The life of dynamic objects in Lua (\<open>qtlua.cc\<close>): creation, the mark by which they are told from other Qt objects,
  their index tables, collection. Lua tables have an identity here, because an object's metatable refers to
  one table twice and objects must not share tables. The theory ends with the proof that scripts with
  dynamic objects do what \<open>Qt_Dynamic\<close> says of connections.
\<close>

section \<open>Tables and userdata\<close>

text \<open>An emitter is the closure of \<open>qtlua_emit_signal\<close> over a signature and its marshallers; \<open>QDelete\<close> is the
  function \<open>qtlua_deletedynamic\<close>, and \<open>QScript\<close> stands for the functions of scripts.\<close>

datatype qvalue = QNil | QText string | QTable nat | QUser nat | QEmitter string "Marshaller option list" | QDelete
  | QScript nat

text \<open>A userdata: the pointer in it, its metatable and its uservalue.\<close>

record 'o block =
  block_pointer :: "'o qobject option"
  block_metatable :: "nat option"
  block_value :: qvalue

text \<open>The registry is its array part. \<open>dynamicTableId\<close> is the static variable of \<open>qtlua.cc\<close>, \<open>interp_value\<close> the global
  \<open>interp\<close>; the dynamic objects are those that exist.\<close>

record 'o qt_heap =
  qtables :: "nat \<Rightarrow> (string \<times> qvalue) list"
  next_table :: nat
  blocks :: "nat \<rightharpoonup> 'o block"
  next_block :: nat
  registry :: "qvalue list"
  dynamicTableId :: int
  interp_value :: qvalue
  dynamic_objects :: "nat \<rightharpoonup> DynamicObject"
  next_object :: nat
  made_conns :: "connection list"

definition new_table :: "'o qt_heap \<Rightarrow> nat \<times> 'o qt_heap" where
  "new_table L = (next_table L, L\<lparr>qtables := (qtables L)(next_table L := []), next_table := Suc (next_table L)\<rparr>)"

definition field :: "nat \<Rightarrow> string \<Rightarrow> 'o qt_heap \<Rightarrow> qvalue" where
  "field t k L = (case map_of (qtables L t) k of None \<Rightarrow> QNil | Some v \<Rightarrow> v)"

definition set_field :: "nat \<Rightarrow> string \<Rightarrow> qvalue \<Rightarrow> 'o qt_heap \<Rightarrow> 'o qt_heap" where
  "set_field t k v L = L\<lparr>qtables := (qtables L)(t := AList.update k v (qtables L t))\<rparr>"

definition registry_get :: "int \<Rightarrow> 'o qt_heap \<Rightarrow> qvalue" where
  "registry_get i L = (if 1 \<le> i \<and> i \<le> int (length (registry L)) then registry L ! nat (i - 1) else QNil)"

text \<open>\<open>luaL_ref\<close>; no reference is ever given back, so that the next index is free.\<close>

definition luaL_ref :: "qvalue \<Rightarrow> 'o qt_heap \<Rightarrow> int \<times> 'o qt_heap" where
  "luaL_ref v L =
     (if v = QNil then (-1, L) else (int (length (registry L)) + 1, L\<lparr>registry := registry L @ [v]\<rparr>))"

definition metatable_of :: "qvalue \<Rightarrow> 'o qt_heap \<Rightarrow> nat option" where
  "metatable_of v L = (case v of QUser u \<Rightarrow> Option.bind (blocks L u) block_metatable | _ \<Rightarrow> None)"

text \<open>\<open>lua_getfield\<close> and \<open>lua_setfield\<close>: tables themselves have no metatables; a userdata goes through the table in
  its metatable, and the library of texts has no field that the sources ask for.\<close>

definition getfield :: "qvalue \<Rightarrow> string \<Rightarrow> 'o qt_heap \<Rightarrow> string + qvalue" where
  "getfield v k L =
     (case v of
        QTable t \<Rightarrow> Inr (field t k L)
      | QText s \<Rightarrow> Inr QNil
      | QUser u \<Rightarrow>
          (case metatable_of v L of
             None \<Rightarrow> Inl ''attempt to index a userdata value''
           | Some mt \<Rightarrow>
               (case field mt ''__index'' L of
                  QTable t \<Rightarrow> Inr (field t k L)
                | _ \<Rightarrow> Inl ''attempt to index a userdata value''))
      | _ \<Rightarrow> Inl ''attempt to index a value'')"

definition setfield :: "qvalue \<Rightarrow> string \<Rightarrow> qvalue \<Rightarrow> 'o qt_heap \<Rightarrow> string + 'o qt_heap" where
  "setfield v k x L =
     (case v of
        QTable t \<Rightarrow> Inr (set_field t k x L)
      | QUser u \<Rightarrow>
          (case metatable_of v L of
             None \<Rightarrow> Inl ''attempt to index a userdata value''
           | Some mt \<Rightarrow>
               (case field mt ''__newindex'' L of
                  QTable t \<Rightarrow> Inr (set_field t k x L)
                | _ \<Rightarrow> Inl ''attempt to index a userdata value''))
      | _ \<Rightarrow> Inl ''attempt to index a value'')"

section \<open>The module\<close>

datatype qt_function = Fn_dynamic | Fn_connect | Fn_disconnect

definition luaopen_qt :: "'o qt_heap \<Rightarrow> (string \<times> qt_function) list \<times> 'o qt_heap" where
  "luaopen_qt L =
     (let (t, L) = new_table L;
          (ref, L) = luaL_ref (QTable t) L
      in ([(''dynamic'', Fn_dynamic), (''connect'', Fn_connect), (''disconnect'', Fn_disconnect)],
          L\<lparr>dynamicTableId := ref\<rparr>))"

text \<open>\<open>None\<close> is undefined behaviour: a global \<open>interp\<close> that is no userdata, an object that is no dynamic object or
  was deleted before.\<close>

definition qtlua_createdynamic :: "'o qt_heap \<Rightarrow> (qvalue \<times> 'o qt_heap) option" where
  "qtlua_createdynamic L =
     (case interp_value L of
        QUser i \<Rightarrow>
          (if blocks L i = None then None
           else
             let u = next_block L; a = next_object L;
                 (mt, L) = new_table L;
                 (ix, L) = new_table L;
                 L = set_field mt ''__index'' (QTable ix) L;
                 L = set_field mt ''__newindex'' (QTable ix) L;
                 L = set_field mt ''__gc'' QDelete L
             in Some (QUser u,
                  L\<lparr>blocks := (blocks L)(u \<mapsto> \<lparr>block_pointer = Some (Dynamic a), block_metatable = Some mt,
                       block_value = registry_get (dynamicTableId L) L\<rparr>),
                    next_block := Suc u, dynamic_objects := (dynamic_objects L)(a \<mapsto> new_DynamicObject),
                    next_object := Suc a\<rparr>))
      | _ \<Rightarrow> None)"

definition qtlua_deletedynamic :: "nat \<Rightarrow> 'o qt_heap \<Rightarrow> 'o qt_heap option" where
  "qtlua_deletedynamic u L =
     (case blocks L u of
        None \<Rightarrow> None
      | Some b \<Rightarrow>
          (case block_pointer b of
             None \<Rightarrow> Some L
           | Some (Static r) \<Rightarrow> None
           | Some (Dynamic a) \<Rightarrow>
               if dynamic_objects L a = None then None
               else Some (L\<lparr>dynamic_objects := (dynamic_objects L)(a := None)\<rparr>)))"

definition qtlua_disconnect :: "'o qt_heap \<Rightarrow> 'o qt_heap" where
  "qtlua_disconnect L = L"

text \<open>\<open>get_index_table\<close> with its stack: \<open>lua_getmetatable\<close> pushes nothing when there is no metatable.\<close>

definition get_index_table :: "nat \<Rightarrow> qvalue list \<Rightarrow> 'o qt_heap \<Rightarrow> string + qvalue list \<times> 'o qt_heap" where
  "get_index_table idx st L =
     (let st1 = (case metatable_of (st ! (idx - 1)) L of None \<Rightarrow> st | Some mt \<Rightarrow> st @ [QTable mt]);
          (st2, L2) =
            (if last st1 = QNil then
               let (t, L) = new_table L in
               (butlast st1 @ [QTable t],
                case st ! (idx - 1) of
                  QUser u \<Rightarrow> L\<lparr>blocks := (blocks L)(u := map_option (\<lambda>b. b\<lparr>block_metatable := Some t\<rparr>) (blocks L u))\<rparr>
                | _ \<Rightarrow> L)
             else (st1, L))
      in case getfield (last st2) ''__index'' L2 of
           Inl e \<Rightarrow> Inl e
         | Inr f \<Rightarrow>
             if f = QNil then
               let (t, L) = new_table L2 in
               (case setfield (last st2) ''__index'' (QTable t) L of
                  Inl e \<Rightarrow> Inl e
                | Inr L \<Rightarrow> Inr (butlast st2 @ [QTable t], L))
             else Inr (butlast st2 @ [f], L2))"

section \<open>Connecting\<close>

definition qarg :: "nat \<Rightarrow> qvalue list \<Rightarrow> qvalue" where
  "qarg i st = (if 1 \<le> i \<and> i \<le> length st then st ! (i - 1) else QNil)"

definition block_at :: "qvalue \<Rightarrow> 'o qt_heap \<Rightarrow> 'o block option" where
  "block_at v L = (case v of QUser u \<Rightarrow> blocks L u | _ \<Rightarrow> None)"

definition store_of :: "'o qt_heap \<Rightarrow> store" where
  "store_of L = (\<lambda>a. case dynamic_objects L a of None \<Rightarrow> new_DynamicObject | Some d \<Rightarrow> d)"

definition note_made :: "bool \<times> connection option \<Rightarrow> 'o qt_heap \<Rightarrow> 'o qt_heap" where
  "note_made res L =
     (case res of (True, Some conn) \<Rightarrow> L\<lparr>made_conns := made_conns L @ [conn]\<rparr> | _ \<Rightarrow> L)"

text \<open>The emitter of a signal, put into the index table of the sender.\<close>

definition push_emitter :: "'o qt_api \<Rightarrow> string \<Rightarrow> qvalue list \<Rightarrow> 'o qt_heap \<Rightarrow> (string + 'o qt_heap) option" where
  "push_emitter qt sig st L =
     (let theSignal = normalizedSignature qt sig;
          name = (if CHR ''('' \<in> set theSignal then takeWhile (\<lambda>c. c \<noteq> CHR ''('') theSignal else [])
      in case get_index_table 1 st L of
           Inl e \<Rightarrow> Some (Inl e)
         | Inr (st1, L1) \<Rightarrow>
             (case get_marshalling_list theSignal of
                None \<Rightarrow> None
              | Some ms \<Rightarrow> Some (setfield (last st1) name (QEmitter theSignal ms) L1)))"

text \<open>The part of \<open>qtlua_connect\<close> behind the check of the pointers. An object without the mark is taken as the
  plain object it is, which for a dynamic one is \<open>plain\<close>.\<close>

definition connect_both ::
  "'o qt_api \<Rightarrow> qvalue list \<Rightarrow> nat \<Rightarrow> string \<Rightarrow> nat \<Rightarrow> string \<Rightarrow> 'o qt_heap \<Rightarrow> (string + bool \<times> 'o qt_heap) option" where
  "connect_both qt st a sig b slot L =
     (case push_emitter qt sig st L of
        None \<Rightarrow> None
      | Some (Inl e) \<Rightarrow> Some (Inl e)
      | Some (Inr L) \<Rightarrow>
          let (objref, L) = luaL_ref (qarg 3 st) L in do {
            s \<leftarrow> make_DynamicSlot qt objref slot;
            (res, os) \<leftarrow> connectDynamicSignalToDynamicSlot qt a sig b slot s (store_of L);
            Some (Inr (fst res, note_made res (L\<lparr>dynamic_objects := (dynamic_objects L)(a \<mapsto> os a, b \<mapsto> os b)\<rparr>))) })"

definition connect_sender ::
  "'o qt_api \<Rightarrow> qvalue list \<Rightarrow> nat \<Rightarrow> string \<Rightarrow> 'o \<Rightarrow> string \<Rightarrow> 'o qt_heap \<Rightarrow> (string + bool \<times> 'o qt_heap) option" where
  "connect_sender qt st a sig receiver slot L = do {
     (res, d) \<leftarrow> connectDynamicSignal qt sig receiver slot (store_of L a);
     r \<leftarrow> push_emitter qt sig st (L\<lparr>dynamic_objects := (dynamic_objects L)(a \<mapsto> d)\<rparr>);
     Some (map_sum (\<lambda>e. e) (\<lambda>L. (fst res, note_made res L)) r) }"

definition connect_receiver ::
  "'o qt_api \<Rightarrow> qvalue list \<Rightarrow> 'o \<Rightarrow> string \<Rightarrow> nat \<Rightarrow> string \<Rightarrow> 'o qt_heap \<Rightarrow> (string + bool \<times> 'o qt_heap) option" where
  "connect_receiver qt st sender sig b slot L =
     (let (objref, L) = luaL_ref (qarg 3 st) L in do {
        s \<leftarrow> make_DynamicSlot qt objref slot;
        (res, d) \<leftarrow> connectDynamicSlot qt sender sig slot s (store_of L b);
        Some (Inr (fst res, note_made res (L\<lparr>dynamic_objects := (dynamic_objects L)(b \<mapsto> d)\<rparr>))) })"

definition plain_object :: "(nat \<Rightarrow> 'o) \<Rightarrow> 'o qobject \<Rightarrow> 'o" where
  "plain_object plain x = (case x of Dynamic a \<Rightarrow> plain a | Static r \<Rightarrow> r)"

definition connect_pointers ::
  "'o qt_api \<Rightarrow> (nat \<Rightarrow> 'o) \<Rightarrow> qvalue list \<Rightarrow> bool \<Rightarrow> 'o qobject \<Rightarrow> string \<Rightarrow> bool \<Rightarrow> 'o qobject \<Rightarrow> string \<Rightarrow> 'o qt_heap \<Rightarrow>
   (string + bool \<times> 'o qt_heap) option" where
  "connect_pointers qt plain st senderIsDynamic sender sig receiverIsDynamic receiver slot L =
     (let gone = (\<lambda>a. dynamic_objects L a = None) in
      if senderIsDynamic \<and> receiverIsDynamic then
        (case (sender, receiver) of
           (Dynamic a, Dynamic b) \<Rightarrow> if gone a \<or> gone b then None else connect_both qt st a sig b slot L
         | _ \<Rightarrow> None)
      else if senderIsDynamic then
        (case sender of
           Dynamic a \<Rightarrow> if gone a then None else connect_sender qt st a sig (plain_object plain receiver) slot L
         | Static r \<Rightarrow> None)
      else if receiverIsDynamic then
        (case receiver of
           Dynamic b \<Rightarrow> if gone b then None else connect_receiver qt st (plain_object plain sender) sig b slot L
         | Static r \<Rightarrow> None)
      else
        Some (Inr (static_connect qt (plain_object plain sender) sig (plain_object plain receiver) slot, L)))"

text \<open>The whole function over its arguments: texts are C strings, what is no userdata gives a null pointer that is
  read, and a null object is an error.\<close>

definition connect_lua ::
  "'o qt_api \<Rightarrow> (nat \<Rightarrow> 'o) \<Rightarrow> qvalue list \<Rightarrow> 'o qt_heap \<Rightarrow> (string + bool \<times> 'o qt_heap) option" where
  "connect_lua qt plain st L =
     (case qarg 2 st of
        QText sig \<Rightarrow>
          (case qarg 4 st of
             QText slot \<Rightarrow> do {
               s \<leftarrow> block_at (qarg 1 st) L;
               r \<leftarrow> block_at (qarg 3 st) L;
               case block_pointer s of
                 None \<Rightarrow> Some (Inl ''connect: sender must be a qt object'')
               | Some sender \<Rightarrow>
                   (case block_pointer r of
                      None \<Rightarrow> Some (Inl ''connect: receiver must be a qt object'')
                    | Some receiver \<Rightarrow>
                        let dyn = registry_get (dynamicTableId L) L in
                        connect_pointers qt plain st (block_value s = dyn) sender (c_str sig) (block_value r = dyn) receiver
                          (c_str slot) L) }
           | _ \<Rightarrow> Some (Inl ''bad argument #4 to connect''))
      | _ \<Rightarrow> Some (Inl ''bad argument #2 to connect''))"

section \<open>Scripts\<close>

text \<open>What happens to a heap after \<open>luaopen_qt\<close>: scripts create objects, connect them, and keep values of their own in
  them; other bindings make userdata of their objects; the collector takes userdata that the registry does not
  hold, and calls the finalizer of those that have one.\<close>

definition collect :: "nat \<Rightarrow> 'o qt_heap \<Rightarrow> 'o qt_heap option" where
  "collect u L =
     map_option (\<lambda>L. L\<lparr>blocks := (blocks L)(u := None)\<rparr>)
       (case metatable_of (QUser u) L of
          Some mt \<Rightarrow> if field mt ''__gc'' L = QDelete then qtlua_deletedynamic u L else Some L
        | None \<Rightarrow> Some L)"

fun is_emitter :: "qvalue \<Rightarrow> bool" where
  "is_emitter (QEmitter sig ms) = True"
| "is_emitter _ = False"

inductive qt_step :: "'o qt_api \<Rightarrow> (nat \<Rightarrow> 'o) \<Rightarrow> 'o qt_heap \<Rightarrow> 'o qt_heap \<Rightarrow> bool" for qt plain where
  step_create: "qtlua_createdynamic L = Some (v, L') \<Longrightarrow> qt_step qt plain L L'"
| step_connect: "connect_lua qt plain st L = Some (Inr (r, L')) \<Longrightarrow> qt_step qt plain L L'"
| step_assign: "setfield (QUser u) k x L = Inr L' \<Longrightarrow> \<not> is_emitter x \<Longrightarrow> block_value b = registry_get (dynamicTableId L) L \<Longrightarrow>
    blocks L u = Some b \<Longrightarrow> qt_step qt plain L L'"
| step_other: "qt_step qt plain L
    (L\<lparr>blocks := (blocks L)(next_block L \<mapsto> \<lparr>block_pointer = Some (Static r), block_metatable = m, block_value = QNil\<rparr>),
       next_block := Suc (next_block L)\<rparr>)"
| step_collect: "QUser u \<notin> set (registry L) \<Longrightarrow> interp_value L \<noteq> QUser u \<Longrightarrow> collect u L = Some L' \<Longrightarrow> qt_step qt plain L L'"

inductive qt_reaches :: "'o qt_api \<Rightarrow> (nat \<Rightarrow> 'o) \<Rightarrow> 'o qt_heap \<Rightarrow> 'o qt_heap \<Rightarrow> bool" for qt plain L0 where
  reaches_start: "qt_reaches qt plain L0 L0"
| reaches_step: "qt_reaches qt plain L0 L \<Longrightarrow> qt_step qt plain L L' \<Longrightarrow> qt_reaches qt plain L0 L'"

text \<open>A state before the module is opened: the userdata of the interpreter and nothing else of this theory.\<close>

definition fresh_heap :: "'o \<Rightarrow> qvalue list \<Rightarrow> 'o qt_heap" where
  "fresh_heap interp reg = \<lparr>qtables = (\<lambda>t. []), next_table = 0,
     blocks = [0 \<mapsto> \<lparr>block_pointer = Some (Static interp), block_metatable = None, block_value = QNil\<rparr>], next_block = 1,
     registry = reg, dynamicTableId = 0, interp_value = QUser 0, dynamic_objects = Map.empty, next_object = 0, made_conns = []\<rparr>"

section \<open>Invariant\<close>

text \<open>The layout of a dynamic object: userdata \<open>u\<close>, object \<open>a\<close>, metatable \<open>mt\<close> and index table \<open>ix\<close>.\<close>

definition mark :: "'o qt_heap \<Rightarrow> qvalue" where
  "mark L = registry_get (dynamicTableId L) L"

definition dyn_at :: "'o qt_heap \<Rightarrow> nat \<Rightarrow> nat \<Rightarrow> nat \<Rightarrow> nat \<Rightarrow> bool" where
  "dyn_at L u a mt ix \<longleftrightarrow>
     blocks L u = Some \<lparr>block_pointer = Some (Dynamic a), block_metatable = Some mt, block_value = mark L\<rparr> \<and>
     field mt ''__index'' L = QTable ix \<and> field mt ''__newindex'' L = QTable ix \<and> field mt ''__gc'' L = QDelete \<and>
     mt < next_table L \<and> ix < next_table L \<and> u < next_block L \<and> a < next_object L \<and> dynamic_objects L a \<noteq> None"

definition heap_ok :: "'o qt_heap \<Rightarrow> bool" where
  "heap_ok L \<longleftrightarrow> mark L \<noteq> QNil \<and>
     (\<forall>u b. blocks L u = Some b \<longrightarrow> u < next_block L) \<and> (\<forall>a d. dynamic_objects L a = Some d \<longrightarrow> a < next_object L) \<and>
     (\<forall>u b. blocks L u = Some b \<longrightarrow>
        block_value b = mark L \<or> (\<exists>a. block_pointer b = Some (Dynamic a)) \<longrightarrow> (\<exists>a mt ix. dyn_at L u a mt ix)) \<and>
     (\<forall>u a mt ix v c nt jx. dyn_at L u a mt ix \<longrightarrow> dyn_at L v c nt jx \<longrightarrow>
        mt \<noteq> jx \<and> (a = c \<or> mt = nt \<or> ix = jx \<longrightarrow> u = v))"

text \<open>Slots refer to their receiver, which the registry keeps.\<close>

definition slots_held :: "'o qt_heap \<Rightarrow> bool" where
  "slots_held L \<longleftrightarrow>
     (\<forall>a d s. dynamic_objects L a = Some d \<longrightarrow> s \<in> set (slotList d) \<longrightarrow>
        (\<exists>u mt ix. registry_get (objidx s) L = QUser u \<and> dyn_at L u a mt ix))"

lemma field_set_field: "field t k (set_field t' k' v L) = (if t = t' \<and> k = k' then v else field t k L)"
  by (auto simp: field_def set_field_def update_conv')

lemma set_field_simps [simp]:
  "next_table (set_field t k v L) = next_table L" "blocks (set_field t k v L) = blocks L"
  "next_block (set_field t k v L) = next_block L" "registry (set_field t k v L) = registry L"
  "dynamicTableId (set_field t k v L) = dynamicTableId L" "interp_value (set_field t k v L) = interp_value L"
  "dynamic_objects (set_field t k v L) = dynamic_objects L" "next_object (set_field t k v L) = next_object L"
  "made_conns (set_field t k v L) = made_conns L"
  by (simp_all add: set_field_def)

lemma registry_get_cong: "registry L' = registry L \<Longrightarrow> registry_get i L' = registry_get i L"
  by (simp add: registry_get_def)

lemma mark_cong: "registry L' = registry L \<Longrightarrow> dynamicTableId L' = dynamicTableId L \<Longrightarrow> mark L' = mark L"
  by (simp add: mark_def registry_get_def)

lemma mark_set_field [simp]: "mark (set_field t k v L) = mark L"
  by (rule mark_cong) simp_all

lemma heap_okI:
  assumes "mark L \<noteq> QNil" "\<And>u b. blocks L u = Some b \<Longrightarrow> u < next_block L"
    and "\<And>a d. dynamic_objects L a = Some d \<Longrightarrow> a < next_object L"
    and "\<And>u b. blocks L u = Some b \<Longrightarrow> block_value b = mark L \<or> (\<exists>a. block_pointer b = Some (Dynamic a)) \<Longrightarrow>
      \<exists>a mt ix. dyn_at L u a mt ix"
    and "\<And>u a mt ix v c nt jx. dyn_at L u a mt ix \<Longrightarrow> dyn_at L v c nt jx \<Longrightarrow> mt \<noteq> jx"
    and "\<And>u a mt ix v c nt jx. dyn_at L u a mt ix \<Longrightarrow> dyn_at L v c nt jx \<Longrightarrow> a = c \<or> mt = nt \<or> ix = jx \<Longrightarrow> u = v"
  shows "heap_ok L"
  unfolding heap_ok_def by (intro conjI allI impI; rule assms; assumption)

lemma heap_okD:
  assumes "heap_ok L"
  shows "mark L \<noteq> QNil" "blocks L u = Some b \<Longrightarrow> u < next_block L" "dynamic_objects L a = Some d \<Longrightarrow> a < next_object L"
    "blocks L u = Some b \<Longrightarrow> block_value b = mark L \<or> (\<exists>a. block_pointer b = Some (Dynamic a)) \<Longrightarrow> \<exists>a mt ix. dyn_at L u a mt ix"
    "dyn_at L u a mt ix \<Longrightarrow> dyn_at L v c nt jx \<Longrightarrow> mt \<noteq> jx"
    "dyn_at L u a mt ix \<Longrightarrow> dyn_at L v c nt jx \<Longrightarrow> a = c \<or> mt = nt \<or> ix = jx \<Longrightarrow> u = v"
  using assms unfolding heap_ok_def by blast+

lemma dyn_at_block: "dyn_at L u a mt ix \<Longrightarrow> blocks L u = Some \<lparr>block_pointer = Some (Dynamic a), block_metatable = Some mt, block_value = mark L\<rparr>"
  by (simp add: dyn_at_def)

lemma dyn_at_unique: "dyn_at L u a mt ix \<Longrightarrow> dyn_at L u c nt jx \<Longrightarrow> a = c \<and> mt = nt \<and> ix = jx"
  by (auto simp: dyn_at_def)

text \<open>Writing into an index table leaves the layout alone.\<close>

lemma dyn_at_set_field:
  assumes "heap_ok L" "dyn_at L u a mt ix"
  shows "dyn_at (set_field ix k x L) v c nt jx \<longleftrightarrow> dyn_at L v c nt jx"
proof
  assume v: "dyn_at L v c nt jx"
  then have "nt \<noteq> ix" using heap_okD(5) [OF assms(1)] assms(2) by blast
  with v show "dyn_at (set_field ix k x L) v c nt jx" by (simp add: dyn_at_def field_set_field)
next
  assume r: "dyn_at (set_field ix k x L) v c nt jx"
  then have b: "blocks L v = Some \<lparr>block_pointer = Some (Dynamic c), block_metatable = Some nt, block_value = mark L\<rparr>"
    using dyn_at_block [OF r] by simp
  then obtain c' nt' jx' where v: "dyn_at L v c' nt' jx'" using heap_okD(4) [OF assms(1) b] by auto
  then have "c' = c" "nt' = nt" using b dyn_at_block [OF v] by simp_all
  moreover have "nt \<noteq> ix" using heap_okD(5) [OF assms(1) v assms(2)] \<open>nt' = nt\<close> by blast
  ultimately show "dyn_at L v c nt jx" using v r by (simp add: dyn_at_def field_set_field)
qed

lemma heap_ok_set_field:
  assumes "heap_ok L" "dyn_at L u a mt ix"
  shows "heap_ok (set_field ix k x L)"
  by (rule heap_okI; unfold dyn_at_set_field [OF assms] mark_set_field set_field_simps; rule heap_okD [OF assms(1)])

text \<open>Changes that leave userdata and tables alone and keep the objects that exist.\<close>

lemma layout_same:
  assumes "qtables L' = qtables L" "blocks L' = blocks L" "next_table L' = next_table L" "next_block L' = next_block L"
    "next_object L' = next_object L" "mark L' = mark L" "dom (dynamic_objects L') = dom (dynamic_objects L)"
  shows "dyn_at L' u a mt ix \<longleftrightarrow> dyn_at L u a mt ix" "heap_ok L \<Longrightarrow> heap_ok L'"
proof -
  have d: "dynamic_objects L' a = None \<longleftrightarrow> dynamic_objects L a = None" for a using assms(7) by (metis domIff)
  have f: "field t k L' = field t k L" for t k by (simp add: field_def assms(1))
  have dyn: "dyn_at L' u a mt ix \<longleftrightarrow> dyn_at L u a mt ix" for u a mt ix
    unfolding dyn_at_def f d using assms(2-6) by simp
  then show "dyn_at L' u a mt ix \<longleftrightarrow> dyn_at L u a mt ix" .
  show "heap_ok L'" if ok: "heap_ok L"
    by (rule heap_okI; unfold dyn assms(2-6); (rule heap_okD [OF ok]; assumption)?)
      (use ok heap_okD(1,3) d in \<open>metis not_None_eq\<close>)+
qed

lemma mark_append: "mark L \<noteq> QNil \<Longrightarrow> mark (L\<lparr>registry := registry L @ xs\<rparr>) = mark L"
  by (auto simp: mark_def registry_get_def nth_append split: if_splits)

lemma registry_get_append: "registry_get i L \<noteq> QNil \<Longrightarrow> registry_get i (L\<lparr>registry := registry L @ xs\<rparr>) = registry_get i L"
  by (auto simp: registry_get_def nth_append split: if_splits)

lemma luaL_ref_same:
  assumes "luaL_ref v L = (i, L')" "heap_ok L"
  shows "dyn_at L' u a mt ix \<longleftrightarrow> dyn_at L u a mt ix" "heap_ok L'" "mark L' = mark L"
proof -
  have m: "mark L' = mark L" using assms mark_append [OF heap_okD(1) [OF assms(2)]] by (auto simp: luaL_ref_def split: if_splits)
  then show "mark L' = mark L" .
  have "qtables L' = qtables L" "blocks L' = blocks L" "next_table L' = next_table L" "next_block L' = next_block L"
    "next_object L' = next_object L" "dynamic_objects L' = dynamic_objects L"
    using assms(1) by (auto simp: luaL_ref_def split: if_splits)
  then show "dyn_at L' u a mt ix \<longleftrightarrow> dyn_at L u a mt ix" "heap_ok L'"
    using layout_same [of L' L] m assms(2) by simp_all
qed

text \<open>A new object has a layout of its own.\<close>

lemma createdynamic_Some:
  assumes "qtlua_createdynamic L = Some (v, L')"
  shows "v = QUser (next_block L)"
    "blocks L' = (blocks L)(next_block L \<mapsto> \<lparr>block_pointer = Some (Dynamic (next_object L)), block_metatable = Some (next_table L),
       block_value = mark L\<rparr>)"
    "next_block L' = Suc (next_block L)" "dynamic_objects L' = (dynamic_objects L)(next_object L \<mapsto> new_DynamicObject)"
    "next_object L' = Suc (next_object L)" "next_table L' = Suc (Suc (next_table L))" "registry L' = registry L"
    "dynamicTableId L' = dynamicTableId L" "made_conns L' = made_conns L" "mark L' = mark L"
  using assms
  by (auto simp: qtlua_createdynamic_def new_table_def Let_def mark_def registry_get_def split: qvalue.splits if_splits)

lemma createdynamic_field:
  assumes "qtlua_createdynamic L = Some (v, L')"
  shows "field t k L' =
     (if t = next_table L \<and> k \<in> {''__index'', ''__newindex''} then QTable (Suc (next_table L))
      else if t = next_table L \<and> k = ''__gc'' then QDelete
      else if t = next_table L \<or> t = Suc (next_table L) then QNil
      else field t k L)"
  using assms
  by (auto simp: qtlua_createdynamic_def new_table_def Let_def field_def set_field_def update_conv' split: qvalue.splits if_splits)

lemma createdynamic_layout:
  assumes "qtlua_createdynamic L = Some (v, L')" "heap_ok L"
  shows "dyn_at L' u a mt ix \<longleftrightarrow> dyn_at L u a mt ix \<or>
     u = next_block L \<and> a = next_object L \<and> mt = next_table L \<and> ix = Suc (next_table L)"
proof (cases "u = next_block L")
  case True
  have "\<not> dyn_at L u a mt ix" using True by (simp add: dyn_at_def)
  with True show ?thesis
    by (auto simp: dyn_at_def createdynamic_Some(2-) [OF assms(1)] createdynamic_field [OF assms(1)])
next
  case False
  have "mt < next_table L \<and> a < next_object L \<and> u < next_block L \<and> (\<exists>jx. dyn_at L u a mt jx)"
    if b: "blocks L u = Some \<lparr>block_pointer = Some (Dynamic a), block_metatable = Some mt, block_value = mark L\<rparr>"
  proof -
    obtain c nt jx where d: "dyn_at L u c nt jx" using heap_okD(4) [OF assms(2) b] by auto
    then have "c = a" "nt = mt" using b by (simp_all add: dyn_at_def)
    with d show ?thesis by (auto simp: dyn_at_def)
  qed
  with False show ?thesis
    by (auto simp: dyn_at_def createdynamic_Some(2-) [OF assms(1)] createdynamic_field [OF assms(1)])
qed

lemma createdynamic_ok:
  assumes "qtlua_createdynamic L = Some (v, L')" "heap_ok L"
  shows "heap_ok L'"
proof -
  note dyn = createdynamic_layout [OF assms]
  note new = createdynamic_Some(2-) [OF assms(1)]
  have old: "u < next_block L \<and> a < next_object L \<and> mt < next_table L \<and> ix < next_table L" if "dyn_at L u a mt ix" for u a mt ix
    using that by (simp add: dyn_at_def)
  show ?thesis
  proof (rule heap_okI)
    show "mark L' \<noteq> QNil" using heap_okD(1) [OF assms(2)] by (simp add: new)
    show "u < next_block L'" if "blocks L' u = Some b" for u b
      using that heap_okD(2) [OF assms(2), of u b] by (auto simp: new split: if_splits)
    show "a < next_object L'" if "dynamic_objects L' a = Some d" for a d
      using that heap_okD(3) [OF assms(2), of a d] by (auto simp: new split: if_splits)
    show "\<exists>a mt ix. dyn_at L' u a mt ix"
      if "blocks L' u = Some b" "block_value b = mark L' \<or> (\<exists>a. block_pointer b = Some (Dynamic a))" for u b
      using that heap_okD(4) [OF assms(2), of u b] by (auto simp: dyn new split: if_splits)
    show "mt \<noteq> jx" if "dyn_at L' u a mt ix" "dyn_at L' v c nt jx" for u a mt ix v c nt jx
      using that heap_okD(5) [OF assms(2), of u a mt ix v c nt jx] old [of u a mt ix] old [of v c nt jx] by (auto simp: dyn)
    show "u = v" if "dyn_at L' u a mt ix" "dyn_at L' v c nt jx" "a = c \<or> mt = nt \<or> ix = jx" for u a mt ix v c nt jx
      using that heap_okD(6) [OF assms(2), of u a mt ix v c nt jx] old [of u a mt ix] old [of v c nt jx] by (auto simp: dyn)
  qed
qed

text \<open>The collector takes an object with its userdata.\<close>

lemma collect_frame:
  assumes "collect u L = Some L'"
  shows "qtables L' = qtables L" "next_table L' = next_table L" "next_block L' = next_block L" "registry L' = registry L"
    "dynamicTableId L' = dynamicTableId L" "next_object L' = next_object L" "blocks L' = (blocks L)(u := None)"
    "dynamic_objects L' = dynamic_objects L \<or>
      (\<exists>a b. blocks L u = Some b \<and> block_pointer b = Some (Dynamic a) \<and> dynamic_objects L' = (dynamic_objects L)(a := None))"
  using assms by (auto simp: collect_def qtlua_deletedynamic_def split: option.splits if_splits qobject.splits)

lemma collect_layout:
  assumes "collect u L = Some L'" "heap_ok L"
  shows "dyn_at L' v c nt jx \<longleftrightarrow> dyn_at L v c nt jx \<and> v \<noteq> u" and "heap_ok L'"
proof -
  note same = collect_frame(1-7) [OF assms(1)] and objects = collect_frame(8) [OF assms(1)]
  have mark: "mark L' = mark L" using same by (intro mark_cong)
  have field: "field t k L' = field t k L" for t k by (simp add: field_def same)
  have gone: "dynamic_objects L' c = dynamic_objects L c" if "dyn_at L v c nt jx" "v \<noteq> u" for v c nt jx
  proof -
    have "c \<noteq> a" if a: "blocks L u = Some b" "block_pointer b = Some (Dynamic a)" for a b
    proof -
      obtain a' mt ix where "dyn_at L u a' mt ix" using heap_okD(4) [OF assms(2) a(1)] a(2) by blast
      moreover from this have "a' = a" using a by (simp add: dyn_at_def)
      ultimately show ?thesis using heap_okD(6) [OF assms(2)] \<open>dyn_at L v c nt jx\<close> \<open>v \<noteq> u\<close> by blast
    qed
    with objects show ?thesis by auto
  qed
  have sub: "dynamic_objects L c \<noteq> None" if "dynamic_objects L' c \<noteq> None" for c
    using objects that by (auto split: if_splits)
  show dyn: "dyn_at L' v c nt jx \<longleftrightarrow> dyn_at L v c nt jx \<and> v \<noteq> u" for v c nt jx
  proof
    assume "dyn_at L' v c nt jx"
    then show "dyn_at L v c nt jx \<and> v \<noteq> u" using sub unfolding dyn_at_def by (auto simp: same mark field split: if_splits)
  next
    assume "dyn_at L v c nt jx \<and> v \<noteq> u"
    then show "dyn_at L' v c nt jx" using gone [of v c nt jx] unfolding dyn_at_def by (auto simp: same mark field)
  qed
  show "heap_ok L'"
  proof (rule heap_okI)
    show "mark L' \<noteq> QNil" using heap_okD(1) [OF assms(2)] by (simp add: mark)
    show "v < next_block L'" if "blocks L' v = Some b" for v b
      using that heap_okD(2) [OF assms(2)] by (auto simp: same split: if_splits)
    show "a < next_object L'" if "dynamic_objects L' a = Some d" for a d
      using that sub [of a] heap_okD(3) [OF assms(2)] by (auto simp: same)
    show "\<exists>a mt ix. dyn_at L' v a mt ix"
      if "blocks L' v = Some b" "block_value b = mark L' \<or> (\<exists>a. block_pointer b = Some (Dynamic a))" for v b
      using that heap_okD(4) [OF assms(2), of v b] by (auto simp: dyn mark same split: if_splits)
    show "mt \<noteq> jx" if "dyn_at L' v a mt ix" "dyn_at L' w c nt jx" for v a mt ix w c nt jx
      using that heap_okD(5) [OF assms(2)] unfolding dyn by blast
    show "v = w" if "dyn_at L' v a mt ix" "dyn_at L' w c nt jx" "a = c \<or> mt = nt \<or> ix = jx" for v a mt ix w c nt jx
      using that heap_okD(6) [OF assms(2)] unfolding dyn by blast
  qed
qed

section \<open>Emitters\<close>

lemma get_index_table_dynamic:
  assumes "dyn_at L u a mt ix" "qarg 1 st = QUser u"
  shows "get_index_table 1 st L = Inr (st @ [QTable ix], L)"
proof -
  have st: "st ! 0 = QUser u" using assms(2) by (auto simp: qarg_def split: if_splits)
  show ?thesis using assms(1) by (simp add: get_index_table_def metatable_of_def st getfield_def dyn_at_def Let_def)
qed

abbreviation emitter_name :: "string \<Rightarrow> string" where
  "emitter_name sig \<equiv> (if CHR ''('' \<in> set sig then takeWhile (\<lambda>c. c \<noteq> CHR ''('') sig else [])"

lemma push_emitter_dynamic:
  assumes "dyn_at L u a mt ix" "qarg 1 st = QUser u"
  shows "push_emitter qt sig st L =
     map_option (\<lambda>ms. Inr (set_field ix (emitter_name (normalizedSignature qt sig)) (QEmitter (normalizedSignature qt sig) ms) L))
       (get_marshalling_list (normalizedSignature qt sig))"
  unfolding push_emitter_def get_index_table_dynamic [OF assms] by (simp add: setfield_def Let_def split: option.splits)

lemma add_emitter_Some:
  "get_marshalling_list (normalizedSignature qt sig) = Some ms \<Longrightarrow>
   add_emitter qt a sig w = Some (w\<lparr>index_tables := (index_tables w)(a :=
     AList.update (emitter_name (normalizedSignature qt sig)) (normalizedSignature qt sig, ms) (index_tables w a))\<rparr>)"
  by (simp add: add_emitter_def Let_def)

section \<open>Simulation\<close>

text \<open>A heap is simulated by a state of \<open>Qt_Dynamic\<close> with the same objects and connections and with every emitter
  that a script finds in an object (it may have replaced some by values of its own).\<close>

definition sim :: "'o qt_heap \<Rightarrow> lua_world \<Rightarrow> bool" where
  "sim L w \<longleftrightarrow>
     (\<forall>a d. dynamic_objects L a = Some d \<longrightarrow> objs w a = d) \<and> made_conns L = conns w \<and>
     (\<forall>a \<ge> next_object L. objs w a = new_DynamicObject \<and> index_tables w a = []) \<and>
     (\<forall>u a mt ix name sig ms. dyn_at L u a mt ix \<longrightarrow> field ix name L = QEmitter sig ms \<longrightarrow>
        map_of (index_tables w a) name = Some (sig, ms))"

lemma simD:
  assumes "sim L w"
  shows "dynamic_objects L a = Some d \<Longrightarrow> objs w a = d" "made_conns L = conns w"
    "next_object L \<le> a \<Longrightarrow> objs w a = new_DynamicObject" "next_object L \<le> a \<Longrightarrow> index_tables w a = []"
    "dyn_at L u a mt ix \<Longrightarrow> field ix name L = QEmitter sig ms \<Longrightarrow> map_of (index_tables w a) name = Some (sig, ms)"
  using assms unfolding sim_def by blast+

lemma simI:
  assumes "\<And>a d. dynamic_objects L a = Some d \<Longrightarrow> objs w a = d" "made_conns L = conns w"
    "\<And>a. next_object L \<le> a \<Longrightarrow> objs w a = new_DynamicObject" "\<And>a. next_object L \<le> a \<Longrightarrow> index_tables w a = []"
    "\<And>u a mt ix name sig ms. dyn_at L u a mt ix \<Longrightarrow> field ix name L = QEmitter sig ms \<Longrightarrow>
      map_of (index_tables w a) name = Some (sig, ms)"
  shows "sim L w"
  unfolding sim_def by (intro conjI allI impI; rule assms; assumption)

lemma sim_store: "sim L w \<Longrightarrow> dynamic_objects L a \<noteq> None \<Longrightarrow> store_of L a = objs w a"
  by (auto simp: store_of_def dest: simD(1))

text \<open>A new emitter on both sides.\<close>

lemma sim_emitter:
  assumes "sim L w" "heap_ok L" "dyn_at L u a mt ix"
  shows "sim (set_field ix name (QEmitter sig ms) L)
     (w\<lparr>index_tables := (index_tables w)(a := AList.update name (sig, ms) (index_tables w a))\<rparr>)"
proof (rule simI, goal_cases)
  case (4 c)
  then show ?case using simD(4) [OF assms(1), of c] assms(3) by (auto simp: dyn_at_def)
next
  case (5 v c nt jx k sig' ms')
  then have v: "dyn_at L v c nt jx" by (simp add: dyn_at_set_field [OF assms(2,3)])
  have "jx = ix \<longleftrightarrow> c = a" using heap_okD(6) [OF assms(2) v assms(3)] dyn_at_unique v assms(3) by blast
  with 5 simD(5) [OF assms(1) v] show ?case by (auto simp: field_set_field update_conv' split: if_splits)
qed (use simD [OF assms(1)] in auto)

text \<open>The other parts of a connection: a reference, the object's own tables, the connection in Qt.\<close>

lemma sim_ref:
  assumes "sim L w" "heap_ok L" "luaL_ref v L = (i, L')"
  shows "sim L' w"
proof -
  have "dynamic_objects L' = dynamic_objects L" "made_conns L' = made_conns L" "next_object L' = next_object L" "qtables L' = qtables L"
    using assms(3) by (auto simp: luaL_ref_def split: if_splits)
  moreover from this(4) have "field t k L' = field t k L" for t k by (simp add: field_def)
  ultimately show ?thesis
    using assms(1) luaL_ref_same(1) [OF assms(3,2)] unfolding sim_def by simp
qed

abbreviation put_object :: "nat \<Rightarrow> DynamicObject \<Rightarrow> 'o qt_heap \<Rightarrow> 'o qt_heap" where
  "put_object a d L \<equiv> L\<lparr>dynamic_objects := (dynamic_objects L)(a \<mapsto> d)\<rparr>"

lemma put_object_same:
  assumes "dynamic_objects L a \<noteq> None"
  shows "dyn_at (put_object a d L) u c mt ix \<longleftrightarrow> dyn_at L u c mt ix" "heap_ok L \<Longrightarrow> heap_ok (put_object a d L)"
proof -
  have "dom (dynamic_objects (put_object a d L)) = dom (dynamic_objects L)" using assms by auto
  then show "dyn_at (put_object a d L) u c mt ix \<longleftrightarrow> dyn_at L u c mt ix" "heap_ok L \<Longrightarrow> heap_ok (put_object a d L)"
    using layout_same [of "put_object a d L" L] by (simp_all add: mark_def registry_get_def)
qed

lemma sim_object:
  assumes "sim L w" "heap_ok L" "dynamic_objects L a \<noteq> None"
  shows "sim (put_object a d L) (w\<lparr>objs := (objs w)(a := d)\<rparr>)"
proof -
  have "a < next_object L" using heap_okD(3) [OF assms(2)] assms(3) by blast
  moreover have "field t k (put_object a d L) = field t k L" for t k by (simp add: field_def)
  ultimately show ?thesis
    using assms(1) unfolding sim_def put_object_same(1) [OF assms(3)] by simp
qed

lemma note_made_same [simp]:
  "dyn_at (note_made res L) u a mt ix = dyn_at L u a mt ix" "heap_ok (note_made res L) = heap_ok L"
  "dynamic_objects (note_made res L) = dynamic_objects L" "registry (note_made res L) = registry L"
proof -
  have "note_made res L = L\<lparr>made_conns := made_conns (note_made res L)\<rparr>"
    by (auto simp: note_made_def split: prod.splits bool.splits option.splits)
  then obtain cs where L: "note_made res L = L\<lparr>made_conns := cs\<rparr>" by blast
  have dyn: "dyn_at (note_made res L) u a mt ix = dyn_at L u a mt ix" for u a mt ix
    by (simp add: L dyn_at_def field_def mark_def registry_get_def)
  then show "dyn_at (note_made res L) u a mt ix = dyn_at L u a mt ix" .
  show "heap_ok (note_made res L) = heap_ok L" unfolding heap_ok_def dyn by (simp add: L mark_def registry_get_def)
  show "dynamic_objects (note_made res L) = dynamic_objects L" "registry (note_made res L) = registry L" by (simp_all add: L)
qed

lemma sim_note: "sim L w \<Longrightarrow> sim (note_made res L) (note_conn res w)"
proof -
  have "field t k (note_made res L) = field t k L" "next_object (note_made res L) = next_object L"
    "index_tables (note_conn res w) = index_tables w" for t k
    by (auto simp: field_def note_made_def note_conn_def split: prod.splits bool.splits option.splits)
  moreover have "made_conns (note_made res L) = conns (note_conn res w)" if "made_conns L = conns w"
    using that by (auto simp: note_made_def note_conn_def split: prod.splits bool.splits option.splits)
  ultimately show "sim L w \<Longrightarrow> sim (note_made res L) (note_conn res w)" unfolding sim_def by simp
qed

text \<open>A connection of two objects depends on these two and changes no other.\<close>

lemma connect_local:
  assumes "connectDynamicSignalToDynamicSlot qt a sig b slot s os1 = Some (res, os1')" "os1 a = os2 a" "os1 b = os2 b"
  shows "connectDynamicSignalToDynamicSlot qt a sig b slot s os2 = Some (res, os2(a := os1' a, b := os1' b))"
proof (cases "checkConnectArgs qt (normalizedSignature qt sig) (normalizedSignature qt slot)")
  case True
  with assms show ?thesis by (cases "a = b") (auto simp: connectDynamicSignalToDynamicSlot_eq)
next
  case False
  with assms show ?thesis by (simp add: connectDynamicSignalToDynamicSlot_def)
qed

lemma slot_id_slots: "set (slotList (snd (slot_id k s d))) \<subseteq> insert s (set (slotList d))"
  by (auto simp: slot_id_def Let_def)

lemma connect_slots:
  assumes "connectDynamicSignalToDynamicSlot qt a sig b slot s os = Some (res, os')"
  shows "set (slotList (os' c)) \<subseteq> set (slotList (os c)) \<union> (if c = b then {s} else {})"
proof (cases "checkConnectArgs qt (normalizedSignature qt sig) (normalizedSignature qt slot)")
  case True
  let ?o = "os(a := snd (signal_id (normalizedSignature qt sig) (os a)))"
  have "os' = ?o(b := snd (slot_id (normalizedSignature qt slot) s (?o b)))"
    using assms True by (auto simp: connectDynamicSignalToDynamicSlot_eq)
  moreover have "slotList (?o c) = slotList (os c)" for c by simp
  ultimately show ?thesis using slot_id_slots [of "normalizedSignature qt slot" s "?o b"] by (cases "c = b") auto
next
  case False
  with assms show ?thesis by (auto simp: connectDynamicSignalToDynamicSlot_def)
qed

lemma connect_slot_slots:
  "connectDynamicSlot qt obj sig slot s d = Some (res, d') \<Longrightarrow> set (slotList d') \<subseteq> insert s (set (slotList d))"
  using slot_id_slots [of "normalizedSignature qt slot" s d]
  by (auto simp: connectDynamicSlot_def Let_def split: if_splits prod.splits)

lemma connect_signal_slots: "connectDynamicSignal qt sig obj slot d = Some (res, d') \<Longrightarrow> slotList d' = slotList d"
  by (auto simp: connectDynamicSignal_def Let_def split: if_splits prod.splits) (metis signal_id_keeps(2) snd_conv)+

text \<open>What a connection comes to: one of \<open>Qt_Dynamic\<close>, the same layout, and new slots that refer to their receiver.\<close>

definition connect_slots_ok :: "'o qt_heap \<Rightarrow> 'o qt_heap \<Rightarrow> bool" where
  "connect_slots_ok L L' \<longleftrightarrow>
     (\<exists>xs. registry L' = registry L @ xs) \<and>
     (\<forall>a d s. dynamic_objects L' a = Some d \<longrightarrow> s \<in> set (slotList d) \<longrightarrow>
        dynamic_objects L a \<noteq> None \<and> s \<in> set (slotList (store_of L a)) \<or>
        (\<exists>u mt ix. registry_get (objidx s) L' = QUser u \<and> dyn_at L u a mt ix))"

definition connect_result ::
  "'o qt_api \<Rightarrow> 'o qobject \<Rightarrow> string \<Rightarrow> 'o qobject \<Rightarrow> string \<Rightarrow> bool \<Rightarrow> 'o qt_heap \<Rightarrow> lua_world \<Rightarrow> 'o qt_heap \<Rightarrow> bool" where
  "connect_result qt x sig y slot r L w L' \<longleftrightarrow>
     (\<exists>ref w'. connect_objects qt ref x sig y slot w = Some (r, w') \<and> sim L' w') \<and> heap_ok L' \<and>
     (\<forall>u a mt ix. dyn_at L' u a mt ix \<longleftrightarrow> dyn_at L u a mt ix) \<and>
     connect_slots_ok L L'"

lemma connect_result_slots:
  assumes "connect_result qt x sig y slot r L w L'" "slots_held L"
  shows "slots_held L'"
  unfolding slots_held_def
proof (intro allI impI)
  fix a d s
  assume d: "dynamic_objects L' a = Some d" "s \<in> set (slotList d)"
  obtain xs where xs: "registry L' = registry L @ xs" using assms(1) unfolding connect_result_def connect_slots_ok_def by blast
  have layout: "dyn_at L' u a mt ix \<longleftrightarrow> dyn_at L u a mt ix" for u mt ix
    using assms(1) unfolding connect_result_def by blast
  from d consider "dynamic_objects L a \<noteq> None" "s \<in> set (slotList (store_of L a))"
    | "\<exists>u mt ix. registry_get (objidx s) L' = QUser u \<and> dyn_at L u a mt ix"
    using assms(1) unfolding connect_result_def connect_slots_ok_def by blast
  then show "\<exists>u mt ix. registry_get (objidx s) L' = QUser u \<and> dyn_at L' u a mt ix"
  proof cases
    case 1
    then obtain d' where "dynamic_objects L a = Some d'" "s \<in> set (slotList d')" by (auto simp: store_of_def)
    then obtain u mt ix where u: "registry_get (objidx s) L = QUser u" "dyn_at L u a mt ix"
      using assms(2) unfolding slots_held_def by blast
    have "registry_get (objidx s) L' = registry_get (objidx s) (L\<lparr>registry := registry L @ xs\<rparr>)"
      by (simp add: registry_get_def xs)
    then show ?thesis using registry_get_append [of "objidx s" L xs] u layout by auto
  qed (simp add: layout)
qed

lemma new_slots_refer:
  assumes "registry L' = registry L @ [QUser v]" "objidx s = int (length (registry L)) + 1" "dyn_at L v b nt jx"
    and "\<And>x. dynamic_objects L' x \<noteq> None \<Longrightarrow> dynamic_objects L x \<noteq> None"
    and "\<And>x. set (slotList (store_of L' x)) \<subseteq> set (slotList (store_of L x)) \<union> (if x = b then {s} else {})"
  shows "connect_slots_ok L L'"
proof -
  have new: "registry_get (objidx s) L' = QUser v" by (simp add: registry_get_def assms(1,2) nth_append)
  have "dynamic_objects L x \<noteq> None \<and> z \<in> set (slotList (store_of L x)) \<or>
      (\<exists>u mt ix. registry_get (objidx z) L' = QUser u \<and> dyn_at L u x mt ix)"
    if "dynamic_objects L' x = Some d" "z \<in> set (slotList d)" for x d z
  proof -
    have "z \<in> set (slotList (store_of L' x))" using that by (simp add: store_of_def)
    then show ?thesis using assms(5) [of x] assms(4) [of x] that(1) new assms(3) by (cases "x = b") auto
  qed
  with assms(1) show ?thesis unfolding connect_slots_ok_def by blast
qed

text \<open>Each way of connecting.\<close>

lemma connect_both_sim:
  assumes "connect_both qt st a sig b slot L = Some (Inr (r, L'))" "heap_ok L" "sim L w"
    and "dyn_at L u a mt ix" "qarg 1 st = QUser u" "dyn_at L v b nt jx" "qarg 3 st = QUser v"
  shows "connect_result qt (Dynamic a) sig (Dynamic b) slot r L w L'"
proof -
  let ?S = "normalizedSignature qt sig"
  obtain ms where ms: "get_marshalling_list ?S = Some ms"
    using assms(1) by (auto simp: connect_both_def push_emitter_dynamic [OF assms(4,5)] split: option.splits)
  define L1 where "L1 = set_field ix (emitter_name ?S) (QEmitter ?S ms) L"
  define w1 where "w1 = w\<lparr>index_tables := (index_tables w)(a := AList.update (emitter_name ?S) (?S, ms) (index_tables w a))\<rparr>"
  have L1: "sim L1 w1" "heap_ok L1" "dyn_at L1 x c kt kx \<longleftrightarrow> dyn_at L x c kt kx" for x c kt kx
    unfolding L1_def w1_def
    by (rule sim_emitter [OF assms(3,2,4)], rule heap_ok_set_field [OF assms(2,4)], rule dyn_at_set_field [OF assms(2,4)])
  obtain ref L2 where L2: "luaL_ref (QUser v) L1 = (ref, L2)" by fastforce
  have r: "ref = int (length (registry L)) + 1" "registry L2 = registry L @ [QUser v]" "dynamic_objects L2 = dynamic_objects L"
    using L2 by (auto simp: luaL_ref_def L1_def)
  obtain s res os where c: "make_DynamicSlot qt ref slot = Some s"
      "connectDynamicSignalToDynamicSlot qt a sig b slot s (store_of L2) = Some (res, os)"
      "r = fst res" "L' = note_made res (put_object b (os b) (put_object a (os a) L2))"
    using assms(1) ms L2
    by (auto simp: connect_both_def push_emitter_dynamic [OF assms(4,5)] assms(7) L1_def [symmetric] bind_eq_Some_conv Let_def)
  have L2: "sim L2 w1" "heap_ok L2" "dyn_at L2 x c kt kx \<longleftrightarrow> dyn_at L x c kt kx" for x c kt kx
    using sim_ref [OF L1(1,2) L2] luaL_ref_same [OF L2 L1(2)] L1(3) by simp_all
  have live: "dynamic_objects L2 a \<noteq> None" "dynamic_objects L2 b \<noteq> None"
    using assms(4,6) r(3) by (simp_all add: dyn_at_def)
  then have live_b: "dynamic_objects (put_object a (os a) L2) b \<noteq> None" by simp
  have objs: "objs w1 = objs w" by (simp add: w1_def)
  have "connectDynamicSignalToDynamicSlot qt a sig b slot s (objs w1) = Some (res, (objs w1)(a := os a, b := os b))"
    by (rule connect_local [OF c(2)]) (use sim_store [OF L2(1)] live in simp_all)
  then have abstract: "connect_objects qt ref (Dynamic a) sig (Dynamic b) slot w =
      Some (r, note_conn res (w1\<lparr>objs := (objs w1)(a := os a, b := os b)\<rparr>))"
    using c(1,3) by (simp add: connect_objects_def add_emitter_Some [OF ms] w1_def)
  have "sim (put_object b (os b) (put_object a (os a) L2)) (w1\<lparr>objs := (objs w1)(a := os a, b := os b)\<rparr>)"
    using sim_object [OF sim_object [OF L2(1,2) live(1)] put_object_same(2) [OF live(1) L2(2)] live_b, of "os b"] by simp
  then have sim: "sim L' (note_conn res (w1\<lparr>objs := (objs w1)(a := os a, b := os b)\<rparr>))"
    unfolding c(4) by (rule sim_note)
  have ok: "heap_ok L'" "dyn_at L' x c kt kx \<longleftrightarrow> dyn_at L x c kt kx" for x c kt kx
    unfolding c(4) note_made_same put_object_same(1) [OF live_b] put_object_same(1) [OF live(1)]
    by (rule put_object_same(2) [OF live_b put_object_same(2) [OF live(1) L2(2)]], rule L2(3))
  have slots: "set (slotList (store_of L' x)) \<subseteq> set (slotList (store_of L x)) \<union> (if x = b then {s} else {})" for x
    using connect_slots [OF c(2), of x] by (auto simp: c(4) store_of_def r(3) split: if_splits)
  have "objidx s = ref" using c(1) by (auto simp: make_DynamicSlot_def)
  then have "connect_slots_ok L L'"
    using slots live r assms(6) by (intro new_slots_refer [of L' L v s b nt jx]) (auto simp: c(4) split: if_splits)
  with abstract sim ok show ?thesis unfolding connect_result_def by blast
qed

lemma connect_receiver_sim:
  assumes "connect_receiver qt st x sig b slot L = Some (Inr (r, L'))" "heap_ok L" "sim L w"
    and "dyn_at L v b nt jx" "qarg 3 st = QUser v"
  shows "connect_result qt (Static x) sig (Dynamic b) slot r L w L'"
proof -
  obtain ref L2 where ref: "luaL_ref (QUser v) L = (ref, L2)" by fastforce
  have r: "ref = int (length (registry L)) + 1" "registry L2 = registry L @ [QUser v]" "dynamic_objects L2 = dynamic_objects L"
    using ref by (auto simp: luaL_ref_def)
  obtain s res d where c: "make_DynamicSlot qt ref slot = Some s"
      "connectDynamicSlot qt x sig slot s (store_of L2 b) = Some (res, d)"
      "r = fst res" "L' = note_made res (put_object b d L2)"
    using assms(1) ref by (auto simp: connect_receiver_def assms(5) bind_eq_Some_conv Let_def)
  note L2 = sim_ref [OF assms(3,2) ref] luaL_ref_same [OF ref assms(2)]
  have live: "dynamic_objects L2 b \<noteq> None" using assms(4) r(3) by (simp add: dyn_at_def)
  have abstract: "connect_objects qt ref (Static x) sig (Dynamic b) slot w = Some (r, note_conn res (w\<lparr>objs := (objs w)(b := d)\<rparr>))"
    using c(1-3) sim_store [OF L2(1) live] by (simp add: connect_objects_def)
  have sim: "sim L' (note_conn res (w\<lparr>objs := (objs w)(b := d)\<rparr>))"
    unfolding c(4) by (rule sim_note [OF sim_object [OF L2(1,3) live]])
  have ok: "heap_ok L'" "dyn_at L' u a kt kx \<longleftrightarrow> dyn_at L u a kt kx" for u a kt kx
    unfolding c(4) note_made_same put_object_same(1) [OF live]
    by (rule put_object_same(2) [OF live L2(3)], rule L2(2))
  have slots: "set (slotList (store_of L' y)) \<subseteq> set (slotList (store_of L y)) \<union> (if y = b then {s} else {})" for y
    using connect_slot_slots [OF c(2)] by (auto simp: c(4) store_of_def r(3) split: if_splits)
  have "objidx s = ref" using c(1) by (auto simp: make_DynamicSlot_def)
  then have "connect_slots_ok L L'"
    using slots live r assms(4) by (intro new_slots_refer [of L' L v s b nt jx]) (auto simp: c(4) split: if_splits)
  with abstract sim ok show ?thesis unfolding connect_result_def by blast
qed

lemma connect_sender_sim:
  assumes "connect_sender qt st a sig y slot L = Some (Inr (r, L'))" "heap_ok L" "sim L w"
    and "dyn_at L u a mt ix" "qarg 1 st = QUser u"
  shows "connect_result qt (Dynamic a) sig (Static y) slot r L w L'"
proof -
  let ?S = "normalizedSignature qt sig"
  have live: "dynamic_objects L a \<noteq> None" using assms(4) by (simp add: dyn_at_def)
  obtain res d where d: "connectDynamicSignal qt sig y slot (store_of L a) = Some (res, d)"
    using assms(1) by (auto simp: connect_sender_def bind_eq_Some_conv)
  let ?L1 = "put_object a d L" and ?w1 = "w\<lparr>objs := (objs w)(a := d)\<rparr>"
  have L1: "sim ?L1 ?w1" "heap_ok ?L1" "dyn_at ?L1 x c kt kx \<longleftrightarrow> dyn_at L x c kt kx" for x c kt kx
    by (rule sim_object [OF assms(3,2) live], rule put_object_same(2) [OF live assms(2)], rule put_object_same(1) [OF live])
  have u: "dyn_at ?L1 u a mt ix" using assms(4) L1(3) by simp
  obtain ms where ms: "get_marshalling_list ?S = Some ms"
      "r = fst res" "L' = note_made res (set_field ix (emitter_name ?S) (QEmitter ?S ms) ?L1)"
    using assms(1) d by (auto simp: connect_sender_def push_emitter_dynamic [OF u assms(5)] bind_eq_Some_conv)
  let ?w2 = "?w1\<lparr>index_tables := (index_tables ?w1)(a := AList.update (emitter_name ?S) (?S, ms) (index_tables ?w1 a))\<rparr>"
  have "connect_objects qt 0 (Dynamic a) sig (Static y) slot w = Some (r, note_conn res ?w2)"
    using d ms(2) sim_store [OF assms(3) live] by (simp add: connect_objects_def add_emitter_Some [OF ms(1)])
  moreover have "sim L' (note_conn res ?w2)" unfolding ms(3) by (rule sim_note [OF sim_emitter [OF L1(1,2) u]])
  moreover have "heap_ok L'" "dyn_at L' x c kt kx \<longleftrightarrow> dyn_at L x c kt kx" for x c kt kx
    unfolding ms(3) note_made_same dyn_at_set_field [OF L1(2) u]
    by (rule heap_ok_set_field [OF L1(2) u], rule L1(3))
  moreover have "connect_slots_ok L L'"
    using connect_signal_slots [OF d] live by (auto simp: connect_slots_ok_def ms(3) store_of_def split: if_splits)
  ultimately show ?thesis unfolding connect_result_def by blast
qed

lemma marked_block:
  assumes "heap_ok L" "block_at v L = Some b" "block_value b = mark L" "block_pointer b = Some (Dynamic a)"
  obtains u mt ix where "v = QUser u" "dyn_at L u a mt ix"
proof -
  obtain u where u: "v = QUser u" "blocks L u = Some b" using assms(2) by (auto simp: block_at_def split: qvalue.splits)
  then obtain c mt ix where "dyn_at L u c mt ix" using heap_okD(4) [OF assms(1) u(2)] assms(3) by blast
  moreover from this have "c = a" using u(2) assms(4) by (simp add: dyn_at_def)
  ultimately show thesis using that u(1) by blast
qed

lemma connect_static:
  "heap_ok L \<Longrightarrow> sim L w \<Longrightarrow> connect_result qt (Static x) sig (Static y) slot (static_connect qt x sig y slot) L w L"
  by (auto simp: connect_result_def connect_slots_ok_def connect_objects_def store_of_def)

lemma connect_lua_Inr:
  assumes "connect_lua qt plain st L = Some (Inr (r, L'))"
  shows "\<exists>sig slot s t x y. block_at (qarg 1 st) L = Some s \<and> block_at (qarg 3 st) L = Some t \<and>
     block_pointer s = Some x \<and> block_pointer t = Some y \<and>
     connect_pointers qt plain st (block_value s = mark L) x sig (block_value t = mark L) y slot L = Some (Inr (r, L'))"
proof -
  obtain sig slot where texts: "qarg 2 st = QText sig" "qarg 4 st = QText slot"
    using assms by (auto simp: connect_lua_def split: qvalue.splits)
  then obtain s t where blocks: "block_at (qarg 1 st) L = Some s" "block_at (qarg 3 st) L = Some t"
    using assms by (auto simp: connect_lua_def bind_eq_Some_conv)
  with texts assms obtain x where "block_pointer s = Some x" by (cases "block_pointer s") (auto simp: connect_lua_def)
  moreover from this blocks texts assms obtain y where "block_pointer t = Some y"
    by (cases "block_pointer t") (auto simp: connect_lua_def)
  ultimately show ?thesis using blocks texts assms by (auto simp: connect_lua_def mark_def Let_def)
qed

lemma connect_lua_sim:
  assumes "connect_lua qt plain st L = Some (Inr (r, L'))" "heap_ok L" "sim L w"
  shows "\<exists>x sig y slot. connect_result qt x sig y slot r L w L'"
proof -
  obtain sig slot s t x y where c: "block_at (qarg 1 st) L = Some s" "block_at (qarg 3 st) L = Some t"
      "block_pointer s = Some x" "block_pointer t = Some y"
      "connect_pointers qt plain st (block_value s = mark L) x sig (block_value t = mark L) y slot L = Some (Inr (r, L'))"
    using connect_lua_Inr [OF assms(1)] by blast
  consider a b where "block_value s = mark L" "block_value t = mark L" "x = Dynamic a" "y = Dynamic b"
      "connect_both qt st a sig b slot L = Some (Inr (r, L'))"
    | a where "block_value s = mark L" "x = Dynamic a" "connect_sender qt st a sig (plain_object plain y) slot L = Some (Inr (r, L'))"
    | b where "block_value t = mark L" "y = Dynamic b" "connect_receiver qt st (plain_object plain x) sig b slot L = Some (Inr (r, L'))"
    | "r = static_connect qt (plain_object plain x) sig (plain_object plain y) slot" "L' = L"
    using c(5) by (auto simp: connect_pointers_def Let_def split: if_splits qobject.splits)
  then show ?thesis
  proof cases
    case 1
    obtain u mt ix v nt jx where "qarg 1 st = QUser u" "dyn_at L u a mt ix" "qarg 3 st = QUser v" "dyn_at L v b nt jx"
      using marked_block [OF assms(2) c(1)] marked_block [OF assms(2) c(2)] 1(1-4) c(3,4) by metis
    with connect_both_sim [OF 1(5) assms(2,3)] show ?thesis by blast
  next
    case 2
    obtain u mt ix where "qarg 1 st = QUser u" "dyn_at L u a mt ix"
      using marked_block [OF assms(2) c(1)] 2(1,2) c(3) by metis
    with connect_sender_sim [OF 2(3) assms(2,3)] show ?thesis by blast
  next
    case 3
    obtain v nt jx where "qarg 3 st = QUser v" "dyn_at L v b nt jx"
      using marked_block [OF assms(2) c(2)] 3(1,2) c(4) by metis
    with connect_receiver_sim [OF 3(3) assms(2,3)] show ?thesis by blast
  next
    case 4
    with connect_static [OF assms(2,3)] show ?thesis by blast
  qed
qed

text \<open>The steps that \<open>Qt_Dynamic\<close> does not see.\<close>

lemma assign_at:
  assumes "setfield (QUser u) k x L = Inr L'" "heap_ok L" "blocks L u = Some b" "block_value b = mark L"
  obtains a mt ix where "dyn_at L u a mt ix" "L' = set_field ix k x L"
proof -
  obtain a mt ix where u: "dyn_at L u a mt ix" using heap_okD(4) [OF assms(2,3)] assms(4) by blast
  then have "L' = set_field ix k x L" using assms(1) by (simp add: setfield_def metatable_of_def dyn_at_def)
  with u that show thesis by blast
qed

lemma sim_assign:
  assumes "sim L w" "heap_ok L" "dyn_at L u a mt ix" "\<not> is_emitter x"
  shows "sim (set_field ix k x L) w"
proof (rule simI, goal_cases)
  case (5 v c nt jx name sig ms)
  then show ?case
    using simD(5) [OF assms(1), of v c nt jx name sig ms] assms(4)
    by (auto simp: dyn_at_set_field [OF assms(2,3)] field_set_field split: if_splits)
qed (use simD [OF assms(1)] in auto)

lemma sim_create:
  assumes "sim L w" "heap_ok L" "qtlua_createdynamic L = Some (v, L')"
  shows "sim L' w"
proof (rule simI, goal_cases)
  case (5 u a mt ix name sig ms)
  then have "dyn_at L u a mt ix"
    by (auto simp: createdynamic_layout [OF assms(3,2)] createdynamic_field [OF assms(3)])
  moreover from this have "ix < next_table L" by (simp add: dyn_at_def)
  then have "field ix name L = QEmitter sig ms" using 5(2) by (simp add: createdynamic_field [OF assms(3)])
  ultimately show ?case by (rule simD(5) [OF assms(1)])
qed (use simD [OF assms(1)] in \<open>auto simp: createdynamic_Some(2-) [OF assms(3)] split: if_splits\<close>)

lemma collect_fields:
  assumes "collect u L = Some L'"
  shows "qtables L' = qtables L" "made_conns L' = made_conns L" "next_object L' = next_object L" "registry L' = registry L"
    "dynamic_objects L' a = Some d \<Longrightarrow> dynamic_objects L a = Some d"
  using assms by (auto simp: collect_def qtlua_deletedynamic_def split: option.splits if_splits qobject.splits)

lemma sim_collect:
  assumes "sim L w" "heap_ok L" "collect u L = Some L'"
  shows "sim L' w"
proof (rule simI, goal_cases)
  case (5 v a mt ix name sig ms)
  then show ?case
    using simD(5) [OF assms(1), of v a mt ix name sig ms] collect_layout(1) [OF assms(3,2)] collect_fields(1) [OF assms(3)]
    by (simp add: field_def)
qed (use simD [OF assms(1)] collect_fields [OF assms(3)] in auto)

lemma registry_get_member: "registry_get i L = QUser u \<Longrightarrow> QUser u \<in> set (registry L)"
proof -
  assume u: "registry_get i L = QUser u"
  then have "nat (i - 1) < length (registry L)" by (auto simp: registry_get_def split: if_splits)
  with u show ?thesis by (metis nth_mem qvalue.distinct(5) registry_get_def)
qed

lemma slots_held_mono:
  assumes "slots_held L" "\<And>a d. dynamic_objects L' a = Some d \<Longrightarrow> dynamic_objects L a = Some d \<or> slotList d = []"
    and "registry L' = registry L" "\<And>u a mt ix. dyn_at L u a mt ix \<Longrightarrow> QUser u \<in> set (registry L) \<Longrightarrow> dyn_at L' u a mt ix"
  shows "slots_held L'"
  unfolding slots_held_def
proof (intro allI impI)
  fix a d s
  assume d: "dynamic_objects L' a = Some d" "s \<in> set (slotList d)"
  then have "dynamic_objects L a = Some d" using assms(2) by fastforce
  then obtain u mt ix where u: "registry_get (objidx s) L = QUser u" "dyn_at L u a mt ix"
    using assms(1) d(2) unfolding slots_held_def by blast
  with assms(4) registry_get_member have "dyn_at L' u a mt ix" by blast
  with u(1) show "\<exists>u mt ix. registry_get (objidx s) L' = QUser u \<and> dyn_at L' u a mt ix"
    using registry_get_cong [OF assms(3)] by auto
qed

definition simulated :: "'o qt_api \<Rightarrow> 'o qt_heap \<Rightarrow> bool" where
  "simulated qt L \<longleftrightarrow> heap_ok L \<and> slots_held L \<and> (\<exists>w. lua_reachable qt w \<and> sim L w)"

lemma other_layout:
  assumes "heap_ok L"
    and "L' = L\<lparr>blocks := (blocks L)(next_block L \<mapsto> \<lparr>block_pointer = Some (Static r), block_metatable = m, block_value = QNil\<rparr>),
       next_block := Suc (next_block L)\<rparr>"
  shows "dyn_at L' u a mt ix \<longleftrightarrow> dyn_at L u a mt ix" and "heap_ok L'"
proof -
  have "mark L' = mark L" "field t k L' = field t k L" for t k
    by (simp_all add: assms(2) mark_def registry_get_def field_def)
  then have mark: "mark L' = mark L" and field: "field t k L' = field t k L" for t k by simp_all
  have dyn: "dyn_at L' u a mt ix \<longleftrightarrow> dyn_at L u a mt ix" for u a mt ix
  proof (cases "u = next_block L")
    case True
    then show ?thesis by (simp add: dyn_at_def) (simp add: assms(2))
  next
    case False
    then have "u < Suc (next_block L) \<longleftrightarrow> u < next_block L" by linarith
    with False show ?thesis unfolding dyn_at_def field mark by (simp add: assms(2))
  qed
  then show "dyn_at L' u a mt ix \<longleftrightarrow> dyn_at L u a mt ix" .
  show "heap_ok L'"
  proof (rule heap_okI)
    show "mark L' \<noteq> QNil" using heap_okD(1) [OF assms(1)] mark by simp
    show "v < next_block L'" if "blocks L' v = Some b" for v b
      using that heap_okD(2) [OF assms(1), of v b] by (auto simp: assms(2) split: if_splits)
    show "c < next_object L'" if "dynamic_objects L' c = Some d" for c d
      using that heap_okD(3) [OF assms(1), of c d] by (simp add: assms(2))
    show "\<exists>a mt ix. dyn_at L' v a mt ix"
      if "blocks L' v = Some b" "block_value b = mark L' \<or> (\<exists>a. block_pointer b = Some (Dynamic a))" for v b
      using that heap_okD(4) [OF assms(1), of v b] heap_okD(1) [OF assms(1)] unfolding dyn mark
      by (auto simp: assms(2) split: if_splits)
  qed (unfold dyn; rule heap_okD(5,6) [OF assms(1)]; assumption)+
qed

lemma step_simulated:
  assumes "qt_step qt plain L L'" "simulated qt L"
  shows "simulated qt L'"
proof -
  obtain w where w: "heap_ok L" "slots_held L" "lua_reachable qt w" "sim L w" using assms(2) unfolding simulated_def by blast
  from assms(1) show ?thesis
  proof cases
    case (step_create v)
    have "slots_held L'"
    proof (rule slots_held_mono [OF w(2)])
      show "dyn_at L' u a mt ix" if "dyn_at L u a mt ix" for u a mt ix
        using that createdynamic_layout [OF step_create w(1)] by simp
    qed (auto simp: createdynamic_Some(2-) [OF step_create] new_DynamicObject_def split: if_splits)
    with createdynamic_ok [OF step_create w(1)] sim_create [OF w(4,1) step_create] w(3) show ?thesis
      unfolding simulated_def by blast
  next
    case (step_connect st r)
    obtain x sig y slot where c: "connect_result qt x sig y slot r L w L'" using connect_lua_sim [OF step_connect w(1,4)] by blast
    then obtain ref w' where "connect_objects qt ref x sig y slot w = Some (r, w')" "sim L' w'" "heap_ok L'"
      unfolding connect_result_def by blast
    moreover from this(1) have "lua_reachable qt w'"
      by (intro lua_reachable.lua_connect [OF w(3), of ref "Some x" sig "Some y" slot r]) (simp add: qtlua_connect_def)
    ultimately show ?thesis using connect_result_slots [OF c w(2)] unfolding simulated_def by blast
  next
    case (step_assign u k x b)
    obtain a mt ix where u: "dyn_at L u a mt ix" "L' = set_field ix k x L"
      using assign_at [OF step_assign(1) w(1) step_assign(4)] step_assign(3) by (auto simp: mark_def)
    have "slots_held L'"
      by (rule slots_held_mono [OF w(2)]) (simp_all add: u(2) dyn_at_set_field [OF w(1) u(1)])
    with heap_ok_set_field [OF w(1) u(1)] sim_assign [OF w(4,1) u(1) step_assign(2)] w(3) show ?thesis
      unfolding simulated_def u(2) by blast
  next
    case (step_other r m)
    note same = other_layout [OF w(1) step_other]
    have "sim L' w" using w(4) unfolding sim_def same(1) by (simp add: step_other field_def)
    moreover have "slots_held L'" by (rule slots_held_mono [OF w(2)]) (simp_all only: same(1), simp_all add: step_other)
    ultimately show ?thesis using same(2) w(3) unfolding simulated_def by blast
  next
    case (step_collect u)
    have "slots_held L'"
      by (rule slots_held_mono [OF w(2)])
        (use collect_fields [OF step_collect(3)] collect_layout(1) [OF step_collect(3) w(1)] step_collect(1) in auto)
    with collect_layout(2) [OF step_collect(3) w(1)] sim_collect [OF w(4,1) step_collect(3)] w(3) show ?thesis
      unfolding simulated_def by blast
  qed
qed

lemma opened_simulated: "simulated qt (snd (luaopen_qt (fresh_heap interp reg)))"
proof -
  let ?L = "snd (luaopen_qt (fresh_heap interp reg))"
  have m: "mark ?L = QTable 0"
    by (simp add: luaopen_qt_def fresh_heap_def new_table_def luaL_ref_def mark_def registry_get_def nth_append)
  have none: "\<not> dyn_at ?L u a mt ix" for u a mt ix
    by (simp add: dyn_at_def luaopen_qt_def fresh_heap_def new_table_def luaL_ref_def)
  have b: "blocks ?L = [0 \<mapsto> \<lparr>block_pointer = Some (Static interp), block_metatable = None, block_value = QNil\<rparr>]" "next_block ?L = 1"
      "dynamic_objects ?L = Map.empty"
    by (simp_all add: luaopen_qt_def fresh_heap_def new_table_def luaL_ref_def)
  have "heap_ok ?L" by (rule heap_okI) (auto simp: m none b split: if_splits)
  moreover have "slots_held ?L" by (simp add: slots_held_def luaopen_qt_def fresh_heap_def new_table_def luaL_ref_def)
  moreover have "sim ?L \<lparr>objs = (\<lambda>n. new_DynamicObject), index_tables = (\<lambda>n. []), conns = []\<rparr>"
    unfolding sim_def using none by (simp add: luaopen_qt_def fresh_heap_def new_table_def luaL_ref_def)
  ultimately show ?thesis unfolding simulated_def using lua_reachable.lua_start by blast
qed

lemma reached_simulated:
  "qt_reaches qt plain (snd (luaopen_qt (fresh_heap interp reg))) L \<Longrightarrow> simulated qt L"
  by (induction rule: qt_reaches.induct) (auto intro: opened_simulated step_simulated)

section \<open>Properties\<close>

lemma dynamic_block:
  assumes "heap_ok L" "blocks L u = Some b" "block_pointer b = Some (Dynamic a)"
  obtains mt ix where "dyn_at L u a mt ix"
proof -
  obtain c mt ix where u: "dyn_at L u c mt ix" using heap_okD(4) [OF assms(1,2)] assms(3) by blast
  then have "c = a" using assms(2,3) by (simp add: dyn_at_def)
  with u that show thesis by blast
qed

lemma getfield_dynamic: "dyn_at L u a mt ix \<Longrightarrow> getfield (QUser u) k L = Inr (field ix k L)"
  by (simp add: getfield_def metatable_of_def dyn_at_def)


text \<open>C32: dynamic objects are neither lost nor deleted twice: in every such state the object behind a dynamic
  userdata exists, no other userdata holds it, the collector can take it, and the receiver of every slot is still
  there, because the registry holds it for good.\<close>

theorem dynamic_objects_safe:
  assumes "qt_reaches qt plain (snd (luaopen_qt (fresh_heap interp reg))) L"
  shows "(\<forall>u b a. blocks L u = Some b \<longrightarrow> block_pointer b = Some (Dynamic a) \<longrightarrow>
        dynamic_objects L a \<noteq> None \<and> collect u L \<noteq> None \<and>
        (\<forall>v c. blocks L v = Some c \<longrightarrow> block_pointer c = Some (Dynamic a) \<longrightarrow> v = u)) \<and>
     (\<forall>a d s. dynamic_objects L a = Some d \<longrightarrow> s \<in> set (slotList d) \<longrightarrow>
        (\<exists>u b. registry_get (objidx s) L = QUser u \<and> blocks L u = Some b \<and> block_pointer b = Some (Dynamic a)))"
proof -
  have inv: "heap_ok L" "slots_held L" using reached_simulated [OF assms] by (simp_all add: simulated_def)
  have "dynamic_objects L a \<noteq> None \<and> collect u L \<noteq> None \<and>
      (\<forall>v c. blocks L v = Some c \<longrightarrow> block_pointer c = Some (Dynamic a) \<longrightarrow> v = u)"
    if u: "blocks L u = Some b" "block_pointer b = Some (Dynamic a)" for u b a
  proof -
    obtain mt ix where d: "dyn_at L u a mt ix" using dynamic_block [OF inv(1) u] .
    then have "dynamic_objects L a \<noteq> None" "collect u L \<noteq> None"
      by (auto simp: dyn_at_def collect_def metatable_of_def qtlua_deletedynamic_def)
    moreover have "v = u" if "blocks L v = Some c" "block_pointer c = Some (Dynamic a)" for v c
      using dynamic_block [OF inv(1) that] heap_okD(6) [OF inv(1) _ d] by metis
    ultimately show ?thesis by blast
  qed
  moreover have "\<exists>u b. registry_get (objidx s) L = QUser u \<and> blocks L u = Some b \<and> block_pointer b = Some (Dynamic a)"
    if "dynamic_objects L a = Some d" "s \<in> set (slotList d)" for a d s
    using inv(2) that unfolding slots_held_def dyn_at_def by (metis block.select_convs(1))
  ultimately show ?thesis by blast
qed

text \<open>C33: what a script stores in a dynamic object it finds there again, and nowhere else: the assignment changes
  that field of that object only, although the metatables of all objects refer to tables through \<open>__index\<close> and
  \<open>__newindex\<close>.\<close>

theorem dynamic_field_roundtrip:
  assumes "qt_reaches qt plain (snd (luaopen_qt (fresh_heap interp reg))) L"
    and "blocks L u = Some b" "block_pointer b = Some (Dynamic a)"
  shows "\<exists>L'. setfield (QUser u) k x L = Inr L' \<and> getfield (QUser u) k L' = Inr x \<and>
     (\<forall>v c n j. blocks L v = Some c \<longrightarrow> block_pointer c = Some (Dynamic n) \<longrightarrow> v \<noteq> u \<or> j \<noteq> k \<longrightarrow>
        getfield (QUser v) j L' = getfield (QUser v) j L)"
proof -
  have inv: "heap_ok L" using reached_simulated [OF assms(1)] by (simp add: simulated_def)
  obtain mt ix where u: "dyn_at L u a mt ix" using dynamic_block [OF inv assms(2,3)] .
  let ?L = "set_field ix k x L"
  note same = dyn_at_set_field [OF inv u, of k x]
  have "getfield (QUser v) j ?L = getfield (QUser v) j L"
    if v: "blocks L v = Some c" "block_pointer c = Some (Dynamic n)" "v \<noteq> u \<or> j \<noteq> k" for v c n j
  proof -
    obtain nt jx where d: "dyn_at L v n nt jx" using dynamic_block [OF inv v(1,2)] .
    have "jx = ix \<longrightarrow> v = u" using heap_okD(6) [OF inv d u] by blast
    with v(3) show ?thesis
      using getfield_dynamic [OF d, of j] getfield_dynamic [of ?L v n nt jx j] d by (auto simp: same field_set_field)
  qed
  moreover have "setfield (QUser u) k x L = Inr ?L" using u by (simp add: setfield_def metatable_of_def dyn_at_def)
  moreover have "getfield (QUser u) k ?L = Inr x" using getfield_dynamic [of ?L u a mt ix k] u by (simp add: same field_set_field)
  ultimately show ?thesis by blast
qed

text \<open>A value without a metatable gets none from \<open>get_index_table\<close>: the missing metatable is not on the stack, and the
  function takes the value there, the text of the slot, for it.\<close>

lemma index_table_not_made:
  assumes "blocks L u = Some b" "block_metatable b = None" "st ! 0 = QUser u" "st \<noteq> []" "last st = QText slot"
  shows "get_index_table 1 st L = Inl ''attempt to index a value''"
  using assms by (simp add: get_index_table_def metatable_of_def getfield_def setfield_def new_table_def Let_def)

section \<open>A script\<close>

text \<open>Two dynamic objects, the first connected to the second.\<close>

definition opened :: "unit qt_heap" where
  "opened = snd (luaopen_qt (fresh_heap () [QScript 0, QScript 1]))"

definition two_objects :: "unit qt_heap" where
  "two_objects = snd (the (qtlua_createdynamic (snd (the (qtlua_createdynamic opened)))))"

lemma opened_eq:
  "opened = \<lparr>qtables = (\<lambda>t. []), next_table = 1,
     blocks = [0 \<mapsto> \<lparr>block_pointer = Some (Static ()), block_metatable = None, block_value = QNil\<rparr>], next_block = 1,
     registry = [QScript 0, QScript 1, QTable 0], dynamicTableId = 3, interp_value = QUser 0, dynamic_objects = Map.empty,
     next_object = 0, made_conns = []\<rparr>"
  by (simp add: opened_def luaopen_qt_def fresh_heap_def new_table_def luaL_ref_def fun_upd_idem)

lemma create_defined:
  "interp_value L = QUser i \<Longrightarrow> blocks L i \<noteq> None \<Longrightarrow>
   \<exists>L'. qtlua_createdynamic L = Some (QUser (next_block L), L') \<and> interp_value L' = QUser i"
  by (simp add: qtlua_createdynamic_def new_table_def Let_def)

lemma two_objects_facts:
  "qt_reaches qt plain opened two_objects"
  "blocks two_objects 1 = Some \<lparr>block_pointer = Some (Dynamic 0), block_metatable = Some 1, block_value = QTable 0\<rparr>"
  "blocks two_objects 2 = Some \<lparr>block_pointer = Some (Dynamic 1), block_metatable = Some 3, block_value = QTable 0\<rparr>"
  "dynamic_objects two_objects = [0 \<mapsto> new_DynamicObject, 1 \<mapsto> new_DynamicObject]"
  "mark two_objects = QTable 0" "registry two_objects = [QScript 0, QScript 1, QTable 0]"
proof -
  obtain L1 where L1: "qtlua_createdynamic opened = Some (QUser 1, L1)" "interp_value L1 = QUser 0"
    using create_defined [of opened 0] by (auto simp: opened_eq)
  note one = createdynamic_Some [OF L1(1)]
  have m: "mark opened = QTable 0" by (simp add: opened_eq mark_def registry_get_def)
  have "blocks L1 0 \<noteq> None" by (simp add: one opened_eq)
  then obtain L2 where L2: "qtlua_createdynamic L1 = Some (QUser (next_block L1), L2)"
    using create_defined [OF L1(2)] by blast
  note two = createdynamic_Some [OF L2]
  have eq: "two_objects = L2" by (simp add: two_objects_def L1(1) L2)
  show "qt_reaches qt plain opened two_objects"
    unfolding eq by (rule reaches_step [OF reaches_step [OF reaches_start step_create [OF L1(1)]] step_create [OF L2]])
  show "blocks two_objects 1 = Some \<lparr>block_pointer = Some (Dynamic 0), block_metatable = Some 1, block_value = QTable 0\<rparr>"
    "blocks two_objects 2 = Some \<lparr>block_pointer = Some (Dynamic 1), block_metatable = Some 3, block_value = QTable 0\<rparr>"
    "dynamic_objects two_objects = [0 \<mapsto> new_DynamicObject, 1 \<mapsto> new_DynamicObject]" "mark two_objects = QTable 0"
    "registry two_objects = [QScript 0, QScript 1, QTable 0]"
    unfolding eq by (simp_all add: two one m) (simp_all add: opened_eq)
qed

lemma two_objects_connect:
  "\<exists>L. connect_lua example_qt (\<lambda>n. ()) [QUser 1, QText (signature_of ''sent'' [''int'', ''bool'']), QUser 2,
       QText (signature_of ''got'' [''int''])] two_objects = Some (Inr (True, L)) \<and> made_conns L \<noteq> []"
proof -
  note facts = two_objects_facts(2-6)
  have ok: "heap_ok two_objects"
    using reached_simulated [of example_qt "\<lambda>n. ()" "()" "[QScript 0, QScript 1]" two_objects] two_objects_facts(1)
    by (simp add: opened_def simulated_def)
  obtain mt ix where u: "dyn_at two_objects 1 0 mt ix" using dynamic_block [OF ok facts(1)] by auto
  have lists: "get_marshalling_list (signature_of ''sent'' [''int'', ''bool'']) = Some (map Marshaller_get [''int'', ''bool''])"
      "get_marshalling_list (signature_of ''got'' [''int'']) = Some (map Marshaller_get [''int''])"
    by (simp_all add: get_marshalling_list_types plain_name_def type_name_def)
  have texts: "parameter_text (signature_of ''sent'' [''int'', ''bool'']) = Some ''int,bool''"
      "c_str (signature_of ''sent'' [''int'', ''bool'']) = signature_of ''sent'' [''int'', ''bool'']"
      "c_str (signature_of ''got'' [''int'']) = signature_of ''got'' [''int'']"
    by (simp_all add: parameter_text_def signature_of_def c_str_def)
  show ?thesis
    using push_emitter_dynamic [OF u, of "[QUser 1, QText (signature_of ''sent'' [''int'', ''bool'']), QUser 2,
       QText (signature_of ''got'' [''int''])]" example_qt "signature_of ''sent'' [''int'', ''bool'']"] lists texts facts
    by (simp add: connect_lua_def qarg_def block_at_def Let_def mark_def connect_pointers_def connect_both_def luaL_ref_def
        make_DynamicSlot_def connectDynamicSignalToDynamicSlot_def finish_connect_def case_prod_beta note_made_def example_qt_def)
qed


theorem dynamic_objects_safe_witness: "collect 1 two_objects \<noteq> None \<and> dynamic_objects two_objects 0 \<noteq> None"
  using dynamic_objects_safe [of example_qt "\<lambda>n. ()" "()" "[QScript 0, QScript 1]" two_objects] two_objects_facts(1,2)
  by (simp add: opened_def)

theorem dynamic_field_roundtrip_witness:
  "\<exists>L. setfield (QUser 1) ''got'' (QScript 7) two_objects = Inr L \<and> getfield (QUser 1) ''got'' L = Inr (QScript 7) \<and>
     getfield (QUser 2) ''got'' L = getfield (QUser 2) ''got'' two_objects"
  using dynamic_field_roundtrip [of example_qt "\<lambda>n. ()" "()" "[QScript 0, QScript 1]" two_objects 1 _ 0 "''got''" "QScript 7"]
    two_objects_facts(1-3)
  by (fastforce simp: opened_def)

end
