(* ===== verification/Lua_Runtime.thy ===== *)
theory Lua_Runtime
  imports Complex_Main Prelude
begin

text \<open>
  The part of Lua that the C++ bindings of the interpreter see: values, the stack of a C function,
  userdata with their metatables, and the functions \<open>luaL_check*\<close> and \<open>lua_to*\<close>. A C function takes the
  state of the interpreter and returns the number of its results, raises a Lua error, has undefined
  behaviour (\<open>Ub\<close>), or never returns. The objects behind the userdata belong to libraries (Qt, OpenSSL): their state is a
  type \<open>'s\<close>, and which of them exist is an observation \<open>alive\<close>; \<open>unclaimed\<close> are those a library keeps for a
  later caller. The conversions between numbers and
  texts are parameters too. The theory ends with what scripts can do with a set of bindings, and the
  contract (locale \<open>bindings\<close>) under which an invariant survives all of it.
\<close>

named_theorems post_rules \<open>conditions under which a result satisfies a postcondition\<close>

section \<open>Values and state\<close>

text \<open>Numbers are real numbers: NaN and the infinities of C doubles are left out. A table is the list of its
  entries; the sources only read tables they are given and return new ones.\<close>

datatype lua_value = LNil | LBool bool | LNumber real | LString string | LUserdata nat
  | LTable "(lua_value \<times> lua_value) list"

text \<open>The classes of the objects behind userdata; a pointer is a class and an address.\<close>

datatype cpp_class = QTimer_class | QTcpSocket_class | QTcpServer_class | QWebSocket_class
  | SSL_CTX_class | SSL_class | BIO_class | xmlDoc_class | xmlNode_class
  | RemoteClient_class | HmiAdapterClient_class | LuaInterpreter_class

type_synonym pointer = "cpp_class \<times> nat"

text \<open>A userdata has the name of its metatable, if any, and the pointer stored in it.\<close>

record 's lua =
  stack :: "lua_value list"
  userdata :: "nat \<rightharpoonup> string option \<times> pointer"
  next_userdata :: nat
  world :: 's

text \<open>\<open>alive\<close> says which objects exist, \<open>unclaimed\<close> which of them no caller has got yet, and \<open>child_of q p\<close> that \<open>q\<close> is
  deleted together with \<open>p\<close>.\<close>

record 's runtime =
  string_number :: "string \<Rightarrow> real option"
  number_string :: "real \<Rightarrow> string"
  alive :: "pointer \<Rightarrow> 's \<Rightarrow> bool"
  unclaimed :: "pointer \<Rightarrow> 's \<Rightarrow> bool"
  child_of :: "pointer \<Rightarrow> pointer \<Rightarrow> 's \<Rightarrow> bool"

datatype lua_error = Bad_argument nat | Message string

datatype 's lua_outcome = Returns nat "'s lua" | Raises lua_error "'s lua" | Ub | Diverges

type_synonym 's cfun = "'s lua \<Rightarrow> 's lua_outcome"

section \<open>The stack\<close>

text \<open>The value at an index, \<open>None\<close> beyond the top.\<close>

definition arg :: "nat \<Rightarrow> 's lua \<Rightarrow> lua_value option" where
  "arg i L = (if 1 \<le> i \<and> i \<le> length (stack L) then Some (stack L ! (i - 1)) else None)"

definition lua_gettop :: "'s lua \<Rightarrow> nat" where
  "lua_gettop L = length (stack L)"

definition push :: "lua_value \<Rightarrow> 's lua \<Rightarrow> 's lua" where
  "push v L = L\<lparr>stack := stack L @ [v]\<rparr>"

definition lua_pop :: "nat \<Rightarrow> 's lua \<Rightarrow> 's lua" where
  "lua_pop n L = L\<lparr>stack := take (length (stack L) - n) (stack L)\<rparr>"

text \<open>The values a call hands back: the top \<open>n\<close> ones, \<open>None\<close> after an error.\<close>

fun returned :: "'s lua_outcome \<Rightarrow> lua_value list option" where
  "returned (Returns n L) = Some (drop (length (stack L) - n) (stack L))"
| "returned (Raises e L) = None"
| "returned Ub = None"
| "returned Diverges = None"

section \<open>Conversions\<close>

text \<open>A C conversion from \<open>double\<close> drops the fraction; it is undefined outside the target type.\<close>

definition trunc :: "real \<Rightarrow> int" where
  "trunc x = (if x < 0 then \<lceil>x\<rceil> else \<lfloor>x\<rfloor>)"

lemma trunc_of_int [simp]: "trunc (of_int n) = n"
  by (simp add: trunc_def)

definition as_int :: "real \<Rightarrow> (int \<Rightarrow> 's cfun) \<Rightarrow> 's cfun" where
  "as_int x k L = (if is_int (trunc x) then k (trunc x) L else Ub)"

definition number_at :: "'s runtime \<Rightarrow> nat \<Rightarrow> 's lua \<Rightarrow> real option" where
  "number_at R i L =
     (case arg i L of Some (LNumber x) \<Rightarrow> Some x | Some (LString s) \<Rightarrow> string_number R s | _ \<Rightarrow> None)"

definition lua_isnumber :: "'s runtime \<Rightarrow> nat \<Rightarrow> 's lua \<Rightarrow> bool" where
  "lua_isnumber R i L \<longleftrightarrow> number_at R i L \<noteq> None"

definition lua_tonumberx :: "'s runtime \<Rightarrow> nat \<Rightarrow> 's lua \<Rightarrow> real" where
  "lua_tonumberx R i L = (case number_at R i L of None \<Rightarrow> 0 | Some x \<Rightarrow> x)"

text \<open>\<open>lua_Integer\<close> has 64 bits; storing it in an \<open>int\<close> keeps the low 32.\<close>

definition lua_tointegerx :: "'s runtime \<Rightarrow> nat \<Rightarrow> (int \<Rightarrow> 's cfun) \<Rightarrow> 's cfun" where
  "lua_tointegerx R i k L =
     (let n = trunc (lua_tonumberx R i L) in if is_long n then k n L else Ub)"

definition luaL_checknumber :: "'s runtime \<Rightarrow> nat \<Rightarrow> (real \<Rightarrow> 's cfun) \<Rightarrow> 's cfun" where
  "luaL_checknumber R i k L =
     (case number_at R i L of None \<Rightarrow> Raises (Bad_argument i) L | Some x \<Rightarrow> k x L)"

definition luaL_checkinteger :: "'s runtime \<Rightarrow> nat \<Rightarrow> (int \<Rightarrow> 's cfun) \<Rightarrow> 's cfun" where
  "luaL_checkinteger R i k =
     luaL_checknumber R i (\<lambda>x L. if is_long (trunc x) then k (trunc x) L else Ub)"

text \<open>A number in place of a text is converted on the stack.\<close>

definition luaL_checklstring :: "'s runtime \<Rightarrow> nat \<Rightarrow> (string \<Rightarrow> 's cfun) \<Rightarrow> 's cfun" where
  "luaL_checklstring R i k L =
     (case arg i L of
        Some (LString s) \<Rightarrow> k s L
      | Some (LNumber x) \<Rightarrow>
          let s = number_string R x in k s (L\<lparr>stack := (stack L)[i - 1 := LString s]\<rparr>)
      | _ \<Rightarrow> Raises (Bad_argument i) L)"

text \<open>\<open>luaL_checkstring\<close>: the C string.\<close>

definition luaL_checkstring :: "'s runtime \<Rightarrow> nat \<Rightarrow> (string \<Rightarrow> 's cfun) \<Rightarrow> 's cfun" where
  "luaL_checkstring R i k = luaL_checklstring R i (\<lambda>s. k (c_str s))"

definition luaL_optstring :: "'s runtime \<Rightarrow> nat \<Rightarrow> (string option \<Rightarrow> 's cfun) \<Rightarrow> 's cfun" where
  "luaL_optstring R i k L =
     (if arg i L = None \<or> arg i L = Some LNil then k None L else luaL_checkstring R i (\<lambda>s. k (Some s)) L)"

definition lua_toboolean :: "nat \<Rightarrow> 's lua \<Rightarrow> bool" where
  "lua_toboolean i L \<longleftrightarrow> arg i L \<notin> {None, Some LNil, Some (LBool False)}"

definition lua_isnoneornil :: "nat \<Rightarrow> 's lua \<Rightarrow> bool" where
  "lua_isnoneornil i L \<longleftrightarrow> arg i L = None \<or> arg i L = Some LNil"

text \<open>\<open>lua_getfield\<close> of an argument: the string library and the metatables of the bindings have none of the
  fields the sources ask for.\<close>

definition lua_getfield :: "nat \<Rightarrow> string \<Rightarrow> (lua_value \<Rightarrow> 's cfun) \<Rightarrow> 's cfun" where
  "lua_getfield i name k L =
     (case arg i L of
        Some (LTable entries) \<Rightarrow> k (case map_of entries (LString name) of None \<Rightarrow> LNil | Some v \<Rightarrow> v) L
      | Some (LString s) \<Rightarrow> k LNil L
      | Some (LUserdata u) \<Rightarrow> k LNil L
      | _ \<Rightarrow> Raises (Message ''attempt to index a value'') L)"

text \<open>A value read as a number, or as a text for a \<open>QString\<close>, which a null pointer makes empty.\<close>

definition value_number :: "'s runtime \<Rightarrow> lua_value \<Rightarrow> real" where
  "value_number R v =
     (case v of
        LNumber x \<Rightarrow> x
      | LString s \<Rightarrow> (case string_number R s of None \<Rightarrow> 0 | Some x \<Rightarrow> x)
      | _ \<Rightarrow> 0)"

definition value_text :: "'s runtime \<Rightarrow> lua_value \<Rightarrow> string" where
  "value_text R v =
     (case v of LString s \<Rightarrow> c_str s | LNumber x \<Rightarrow> c_str (number_string R x) | _ \<Rightarrow> [])"

section \<open>Userdata\<close>

text \<open>\<open>*static_cast<T**>(luaL_checkudata(L, i, tname))\<close>: the address of an object of the class \<open>c\<close> that the
  cast claims; a pointer to another class is undefined behaviour.\<close>

definition luaL_checkudata :: "nat \<Rightarrow> string \<Rightarrow> cpp_class \<Rightarrow> (nat \<Rightarrow> 's cfun) \<Rightarrow> 's cfun" where
  "luaL_checkudata i tname c k L =
     (case arg i L of
        Some (LUserdata u) \<Rightarrow>
          (case userdata L u of
             Some (Some n, p) \<Rightarrow>
               if n = tname then if fst p = c then k (snd p) L else Ub
               else Raises (Bad_argument i) L
           | _ \<Rightarrow> Raises (Bad_argument i) L)
      | _ \<Rightarrow> Raises (Bad_argument i) L)"

definition lua_newuserdata :: "pointer \<Rightarrow> 's lua \<Rightarrow> 's lua" where
  "lua_newuserdata p L =
     push (LUserdata (next_userdata L))
       (L\<lparr>userdata := (userdata L)(next_userdata L \<mapsto> (None, p)), next_userdata := Suc (next_userdata L)\<rparr>)"

text \<open>\<open>luaL_getmetatable(L, name); lua_setmetatable(L, -2)\<close> behind a new userdata.\<close>

definition set_metatable :: "string \<Rightarrow> 's lua \<Rightarrow> 's lua" where
  "set_metatable name L =
     (case last (stack L) of
        LUserdata u \<Rightarrow> L\<lparr>userdata := (userdata L)(u := map_option (\<lambda>(m, p). (Some name, p)) (userdata L u))\<rparr>
      | _ \<Rightarrow> L)"

definition push_object :: "string \<Rightarrow> pointer \<Rightarrow> 's lua \<Rightarrow> 's lua" where
  "push_object name p L = set_metatable name (lua_newuserdata p L)"

text \<open>A call of a method of an object: undefined when the object is gone. \<open>perform\<close> is a library call that
  involves no object.\<close>

definition perform :: "('s \<Rightarrow> 'r \<times> 's) \<Rightarrow> ('r \<Rightarrow> 's cfun) \<Rightarrow> 's cfun" where
  "perform f k L = (case f (world L) of (r, s) \<Rightarrow> k r (L\<lparr>world := s\<rparr>))"

definition on_object :: "'s runtime \<Rightarrow> pointer \<Rightarrow> 's cfun \<Rightarrow> 's cfun" where
  "on_object R p k L = (if alive R p (world L) then k L else Ub)"

definition invoke :: "'s runtime \<Rightarrow> pointer \<Rightarrow> ('s \<Rightarrow> 'r \<times> 's) \<Rightarrow> ('r \<Rightarrow> 's cfun) \<Rightarrow> 's cfun" where
  "invoke R p f k = on_object R p (perform f k)"

text \<open>A new object, if the library makes one, put into a new userdata.\<close>

definition create_object ::
  "('s \<Rightarrow> nat option \<times> 's) \<Rightarrow> cpp_class \<Rightarrow> string \<Rightarrow> (nat \<Rightarrow> 's cfun) \<Rightarrow> 's cfun \<Rightarrow> 's cfun" where
  "create_object f c name k none L =
     (case f (world L) of
        (Some a, s) \<Rightarrow> k a (push_object name (c, a) (L\<lparr>world := s\<rparr>))
      | (None, s) \<Rightarrow> none (L\<lparr>world := s\<rparr>))"

text \<open>\<open>new\<close> always makes one.\<close>

abbreviation always :: "('s \<Rightarrow> nat \<times> 's) \<Rightarrow> 's \<Rightarrow> nat option \<times> 's" where
  "always f s \<equiv> (case f s of (a, s') \<Rightarrow> (Some a, s'))"

lemma push_object_eq:
  "push_object name p L =
     L\<lparr>stack := stack L @ [LUserdata (next_userdata L)],
       userdata := (userdata L)(next_userdata L \<mapsto> (Some name, p)), next_userdata := Suc (next_userdata L)\<rparr>"
  by (simp add: push_object_def set_metatable_def lua_newuserdata_def push_def)

section \<open>Postconditions\<close>

fun post :: "('s lua \<Rightarrow> bool) \<Rightarrow> 's lua_outcome \<Rightarrow> bool" where
  "post P (Returns n L) = P L"
| "post P (Raises e L) = P L"
| "post P Ub = True"
| "post P Diverges = True"

lemma post_mono: "post P r \<Longrightarrow> (\<And>L. P L \<Longrightarrow> Q L) \<Longrightarrow> post Q r"
  by (cases r) auto

text \<open>Postconditions that do not look at the stack; for them there is one rule per operation, to be used from
  the front of a function to its end.\<close>

definition stackless :: "('s lua \<Rightarrow> bool) \<Rightarrow> bool" where
  "stackless P \<longleftrightarrow> (\<forall>L st. P (L\<lparr>stack := st\<rparr>) = P L)"

lemma stackless_push: "stackless P \<Longrightarrow> P (push v L) = P L"
  by (simp add: stackless_def push_def)

lemma stackless_pop: "stackless P \<Longrightarrow> P (lua_pop n L) = P L"
  by (simp add: stackless_def lua_pop_def)

lemma post_as_int [post_rules]: "P L \<Longrightarrow> (\<And>n L. P L \<Longrightarrow> post P (k n L)) \<Longrightarrow> post P (as_int x k L)"
  by (simp add: as_int_def)

lemma post_tointegerx [post_rules]:
  "P L \<Longrightarrow> (\<And>n L. P L \<Longrightarrow> post P (k n L)) \<Longrightarrow> post P (lua_tointegerx R i k L)"
  by (simp add: lua_tointegerx_def Let_def)

lemma post_checknumber [post_rules]:
  "P L \<Longrightarrow> (\<And>x L. P L \<Longrightarrow> post P (k x L)) \<Longrightarrow> post P (luaL_checknumber R i k L)"
  by (simp add: luaL_checknumber_def split: option.splits)

lemma post_checkinteger [post_rules]:
  "P L \<Longrightarrow> (\<And>n L. P L \<Longrightarrow> post P (k n L)) \<Longrightarrow> post P (luaL_checkinteger R i k L)"
  unfolding luaL_checkinteger_def by (rule post_checknumber) auto

lemma post_checklstring [post_rules]:
  "stackless P \<Longrightarrow> P L \<Longrightarrow> (\<And>s L. P L \<Longrightarrow> post P (k s L)) \<Longrightarrow> post P (luaL_checklstring R i k L)"
  by (auto simp: luaL_checklstring_def stackless_def Let_def split: option.splits lua_value.splits)

lemma post_checkstring [post_rules]:
  "stackless P \<Longrightarrow> P L \<Longrightarrow> (\<And>s L. P L \<Longrightarrow> post P (k s L)) \<Longrightarrow> post P (luaL_checkstring R i k L)"
  unfolding luaL_checkstring_def by (rule post_checklstring)

lemma post_optstring [post_rules]:
  "stackless P \<Longrightarrow> P L \<Longrightarrow> (\<And>s L. P L \<Longrightarrow> post P (k s L)) \<Longrightarrow> post P (luaL_optstring R i k L)"
  by (simp add: luaL_optstring_def post_checkstring)

lemma post_checkudata [post_rules]:
  "P L \<Longrightarrow> (\<And>a L. P L \<Longrightarrow> post P (k a L)) \<Longrightarrow> post P (luaL_checkudata i tname c k L)"
  by (auto simp: luaL_checkudata_def split: option.splits lua_value.splits)

lemma post_getfield [post_rules]:
  "P L \<Longrightarrow> (\<And>v L. P L \<Longrightarrow> post P (k v L)) \<Longrightarrow> post P (lua_getfield i name k L)"
  by (auto simp: lua_getfield_def split: option.splits lua_value.splits)

lemma post_on_object [post_rules]:
  "P L \<Longrightarrow> (\<And>L. P L \<Longrightarrow> post P (k L)) \<Longrightarrow> post P (on_object R p k L)"
  by (simp add: on_object_def)

lemma post_perform:
  "(\<And>r s. f (world L) = (r, s) \<Longrightarrow> post P (k r (L\<lparr>world := s\<rparr>))) \<Longrightarrow> post P (perform f k L)"
  by (simp add: perform_def split: prod.splits)

section \<open>Scripts\<close>

text \<open>
  What can happen to the interpreter: a script calls a registered function with any arguments and
  catches its errors, the collector finalizes a userdata the script has dropped (where \<open>collectable\<close> allows
  it), and the libraries change the world on their own.
\<close>

record 's program =
  cfunctions :: "'s cfun list"
  finalizer :: "string \<Rightarrow> 's cfun option"
  collectable :: "'s lua \<Rightarrow> nat \<Rightarrow> bool"
  environment :: "'s \<Rightarrow> 's \<Rightarrow> bool"

abbreviation without :: "nat \<Rightarrow> 's lua \<Rightarrow> 's lua" where
  "without u L \<equiv> L\<lparr>userdata := (userdata L)(u := None)\<rparr>"

text \<open>\<open>luaL_newstate\<close>.\<close>

definition initial_lua :: "'s \<Rightarrow> 's lua" where
  "initial_lua s = \<lparr>stack = [], userdata = Map.empty, next_userdata = 0, world = s\<rparr>"

inductive script_step :: "'s program \<Rightarrow> 's lua \<Rightarrow> 's lua \<Rightarrow> bool" for P where
  step_call: "f \<in> set (cfunctions P) \<Longrightarrow> f (L\<lparr>stack := args\<rparr>) = Returns n L' \<Longrightarrow> script_step P L L'"
| step_error: "f \<in> set (cfunctions P) \<Longrightarrow> f (L\<lparr>stack := args\<rparr>) = Raises e L' \<Longrightarrow> script_step P L L'"
| step_finalize: "userdata L u = Some (Some name, p) \<Longrightarrow> finalizer P name = Some f \<Longrightarrow> collectable P L u \<Longrightarrow>
    f (L\<lparr>stack := [LUserdata u]\<rparr>) = Returns n L' \<Longrightarrow> script_step P L (without u L')"
| step_drop: "userdata L u = Some (m, p) \<Longrightarrow> Option.bind m (finalizer P) = None \<Longrightarrow>
    script_step P L (without u L)"
| step_world: "environment P (world L) s \<Longrightarrow> script_step P L (L\<lparr>world := s\<rparr>)"

inductive script_reaches :: "'s program \<Rightarrow> 's lua \<Rightarrow> 's lua \<Rightarrow> bool" for P L0 where
  script_start: "script_reaches P L0 L0"
| script_next: "script_reaches P L0 L \<Longrightarrow> script_step P L L' \<Longrightarrow> script_reaches P L0 L'"

text \<open>\<open>lua_close\<close> finalizes all userdata, in the reverse order of their creation (each gets its metatable at
  once); it ignores errors. \<open>None\<close> stands for a finalizer with undefined behaviour or without end. The
  destructor of the interpreter calls it.\<close>

fun lua_close :: "'s program \<Rightarrow> nat \<Rightarrow> 's lua \<Rightarrow> 's lua option" where
  "lua_close P 0 L = Some L"
| "lua_close P (Suc u) L =
     (case userdata L u of
        None \<Rightarrow> lua_close P u L
      | Some (m, p) \<Rightarrow>
          (case Option.bind m (finalizer P) of
             None \<Rightarrow> lua_close P u (without u L)
           | Some f \<Rightarrow>
               (case f (L\<lparr>stack := [LUserdata u]\<rparr>) of
                  Returns n L' \<Rightarrow> lua_close P u (without u L')
                | Raises e L' \<Rightarrow> lua_close P u (without u L')
                | Ub \<Rightarrow> None
                | Diverges \<Rightarrow> None)))"

definition delete_LuaInterpreter :: "'s program \<Rightarrow> 's lua \<Rightarrow> 's lua option" where
  "delete_LuaInterpreter P L = lua_close P (next_userdata L) L"

text \<open>The contract of bindings that keep an invariant.\<close>

locale bindings =
  fixes P :: "'s program" and I :: "'s lua \<Rightarrow> bool"
  assumes stackless_inv: "stackless I"
    and calls_keep: "f \<in> set (cfunctions P) \<Longrightarrow> I L \<Longrightarrow> post I (f L)"
    and finalizers_keep: "finalizer P name = Some f \<Longrightarrow> userdata L u = Some (Some name, p) \<Longrightarrow>
      collectable P (L\<lparr>stack := st\<rparr>) u \<Longrightarrow> stack L = [LUserdata u] \<Longrightarrow> I L \<Longrightarrow>
      post (\<lambda>L'. I (without u L')) (f L)"
    and drop_keeps: "userdata L u = Some (m, p) \<Longrightarrow> Option.bind m (finalizer P) = None \<Longrightarrow> I L \<Longrightarrow>
      I (without u L)"
    and world_keeps: "environment P (world L) s \<Longrightarrow> I L \<Longrightarrow> I (L\<lparr>world := s\<rparr>)"
begin

lemma restack: "I (L\<lparr>stack := st\<rparr>) = I L"
  using stackless_inv by (simp add: stackless_def)

lemma step_keeps: "script_step P L L' \<Longrightarrow> I L \<Longrightarrow> I L'"
proof (induction rule: script_step.induct)
  case (step_call f args L n L')
  then show ?case using calls_keep [of f "L\<lparr>stack := args\<rparr>"] by (simp add: restack)
next
  case (step_error f args L e L')
  then show ?case using calls_keep [of f "L\<lparr>stack := args\<rparr>"] by (simp add: restack)
next
  case (step_finalize L u name p f n L')
  then show ?case
    using finalizers_keep [of name f "L\<lparr>stack := [LUserdata u]\<rparr>" u p "stack L"] by (simp add: restack)
qed (simp_all add: drop_keeps world_keeps)

lemma reaches_keeps: "script_reaches P L0 L \<Longrightarrow> I L0 \<Longrightarrow> I L"
  by (induction rule: script_reaches.induct) (auto intro: step_keeps)

end

text \<open>The contract of bindings whose finalizers are safe from the youngest userdata on: closing is defined and leaves
  no userdata.\<close>

locale closing =
  fixes P :: "'s program" and I :: "'s lua \<Rightarrow> bool"
  assumes youngest_finalized: "finalizer P name = Some f \<Longrightarrow> userdata L u = Some (Some name, p) \<Longrightarrow>
      (\<forall>v > u. userdata L v = None) \<Longrightarrow> I L \<Longrightarrow>
      \<exists>n L'. f (L\<lparr>stack := [LUserdata u]\<rparr>) = Returns n L' \<and> userdata L' = userdata L \<and> I (without u L')"
    and youngest_dropped: "userdata L u = Some (m, p) \<Longrightarrow> Option.bind m (finalizer P) = None \<Longrightarrow> I L \<Longrightarrow> I (without u L)"
begin

lemma close_one:
  assumes "I L" "\<forall>v > u. userdata L v = None" "userdata L u = Some (m, p)"
  shows "\<exists>L'. lua_close P (Suc u) L = lua_close P u (without u L') \<and> userdata L' = userdata L \<and> I (without u L')"
proof (cases "Option.bind m (finalizer P)")
  case None
  with youngest_dropped [OF assms(3) None assms(1)] assms(3) show ?thesis by auto
next
  case (Some f)
  then obtain name where "m = Some name" "finalizer P name = Some f" by (auto simp: bind_eq_Some_conv)
  with youngest_finalized [of name f L u p] assms obtain n L' where
    "f (L\<lparr>stack := [LUserdata u]\<rparr>) = Returns n L'" "userdata L' = userdata L" "I (without u L')" by blast
  with Some assms(3) show ?thesis by (intro exI [of _ L']) simp
qed

lemma closes: "I L \<Longrightarrow> \<forall>v \<ge> n. userdata L v = None \<Longrightarrow> \<exists>L'. lua_close P n L = Some L' \<and> I L' \<and> userdata L' = Map.empty"
proof (induction n arbitrary: L)
  case 0
  then show ?case by auto
next
  case (Suc u)
  have newest: "\<forall>v > u. userdata L v = None" using Suc.prems(2) by (simp add: Suc_le_eq)
  show ?case
  proof (cases "userdata L u")
    case None
    with newest have "\<forall>v \<ge> u. userdata L v = None" by (metis order_le_less)
    with Suc.IH [OF Suc.prems(1)] None show ?thesis by simp
  next
    case (Some x)
    then obtain L' where L': "lua_close P (Suc u) L = lua_close P u (without u L')" "userdata L' = userdata L" "I (without u L')"
      using close_one [OF Suc.prems(1) newest] by (cases x) blast
    moreover have "\<forall>v \<ge> u. userdata (without u L') v = None" using newest L'(2) by auto
    ultimately show ?thesis using Suc.IH [of "without u L'"] unfolding L'(1) by blast
  qed
qed

end

section \<open>Classes of userdata\<close>

text \<open>A table of the metatables of the bindings and the class each is for; the invariant that every userdata
  with such a metatable holds a pointer of that class.\<close>

definition typed_userdata :: "(string \<times> cpp_class) list \<Rightarrow> 's lua \<Rightarrow> bool" where
  "typed_userdata table L \<longleftrightarrow>
     (\<forall>u name p c. userdata L u = Some (Some name, p) \<longrightarrow> map_of table name = Some c \<longrightarrow> fst p = c)"

lemma stackless_typed_userdata: "stackless (typed_userdata table)"
  by (simp add: stackless_def typed_userdata_def)

lemmas typed_stack [simp] = stackless_typed_userdata [unfolded stackless_def, rule_format]
  stackless_push [OF stackless_typed_userdata] stackless_pop [OF stackless_typed_userdata]

lemma typed_world [simp]: "typed_userdata table (L\<lparr>world := s\<rparr>) = typed_userdata table L"
  by (simp add: typed_userdata_def)

lemma typed_initial [simp]: "typed_userdata table (initial_lua s)"
  by (simp add: typed_userdata_def initial_lua_def)

lemma typed_without: "typed_userdata table L \<Longrightarrow> typed_userdata table (without u L)"
  by (auto simp: typed_userdata_def)

lemma typed_push_object:
  "typed_userdata table L \<Longrightarrow> (\<And>c. map_of table name = Some c \<Longrightarrow> fst p = c) \<Longrightarrow> typed_userdata table (push_object name p L)"
  by (auto simp: typed_userdata_def push_object_eq)

text \<open>Under the invariant no cast of a checked userdata goes wrong.\<close>

lemma checkudata_sound:
  assumes "typed_userdata table L" "map_of table tname = Some c" "luaL_checkudata i tname c k L = Ub"
  shows "\<exists>a. k a L = Ub"
proof -
  have "fst p = c" if "userdata L u = Some (Some tname, p)" for u p
    using assms(1,2) that unfolding typed_userdata_def by blast
  with assms(3) show ?thesis
    by (auto simp: luaL_checkudata_def split: option.splits lua_value.splits if_splits prod.splits)
qed

section \<open>Ownership\<close>

text \<open>Objects in the hands of a caller, and what a library call does to them.\<close>

definition held :: "'s runtime \<Rightarrow> pointer \<Rightarrow> 's \<Rightarrow> bool" where
  "held R p s \<longleftrightarrow> alive R p s \<and> \<not> unclaimed R p s"

text \<open>An object stays with its holder and gets no new parent.\<close>

definition kept :: "'s runtime \<Rightarrow> pointer \<Rightarrow> 's \<Rightarrow> 's \<Rightarrow> bool" where
  "kept R q s s' \<longleftrightarrow> held R q s' \<and> (\<forall>p. child_of R q p s' \<longrightarrow> child_of R q p s)"

lemma kept_same: "held R q s \<Longrightarrow> kept R q s s"
  by (simp add: kept_def)

lemma kept_held: "kept R q s s' \<Longrightarrow> held R q s'"
  by (simp add: kept_def)

lemma kept_trans: "kept R q s s1 \<Longrightarrow> kept R q s1 s2 \<Longrightarrow> kept R q s s2"
  by (simp add: kept_def)

definition keeps_objects :: "'s runtime \<Rightarrow> ('s \<Rightarrow> 'r \<times> 's) \<Rightarrow> bool" where
  "keeps_objects R f \<longleftrightarrow> (\<forall>s p. held R p s \<longrightarrow> kept R p s (snd (f s)))"

lemma keeps_objectsD: "keeps_objects R f \<Longrightarrow> held R p s \<Longrightarrow> kept R p s (snd (f s))"
  unfolding keeps_objects_def by blast

text \<open>A new object has no children among the objects that callers hold.\<close>

definition makes_object :: "'s runtime \<Rightarrow> cpp_class \<Rightarrow> ('s \<Rightarrow> nat \<times> 's) \<Rightarrow> bool" where
  "makes_object R c f \<longleftrightarrow> keeps_objects R f \<and>
     (\<forall>s. \<not> held R (c, fst (f s)) s \<and> held R (c, fst (f s)) (snd (f s)) \<and>
        (\<forall>q. held R q s \<or> q = (c, fst (f s)) \<longrightarrow> \<not> child_of R q (c, fst (f s)) (snd (f s))))"

definition makes_object_or_fails :: "'s runtime \<Rightarrow> cpp_class \<Rightarrow> ('s \<Rightarrow> nat option \<times> 's) \<Rightarrow> bool" where
  "makes_object_or_fails R c f \<longleftrightarrow> keeps_objects R f \<and>
     (\<forall>s a. fst (f s) = Some a \<longrightarrow> \<not> held R (c, a) s \<and> held R (c, a) (snd (f s)) \<and>
        (\<forall>q. held R q s \<or> q = (c, a) \<longrightarrow> \<not> child_of R q (c, a) (snd (f s))))"

definition deletes_object :: "'s runtime \<Rightarrow> pointer \<Rightarrow> ('s \<Rightarrow> 'r \<times> 's) \<Rightarrow> bool" where
  "deletes_object R p f \<longleftrightarrow> (\<forall>s q. held R q s \<longrightarrow> q \<noteq> p \<longrightarrow> kept R q s (snd (f s)))"

text \<open>A call that may delete objects of the classes \<open>ex\<close>, and \<open>gone\<close>, but no others.\<close>

definition keeps_except :: "'s runtime \<Rightarrow> cpp_class list \<Rightarrow> pointer option \<Rightarrow> ('s \<Rightarrow> 'r \<times> 's) \<Rightarrow> bool" where
  "keeps_except R ex gone f \<longleftrightarrow>
     (\<forall>s p. held R p s \<longrightarrow> fst p \<notin> set ex \<longrightarrow> Some p \<noteq> gone \<longrightarrow> kept R p s (snd (f s)))"

text \<open>Userdata of the classes \<open>cs\<close> own the objects they point to: each object is held and has one owner, and
  the userdata of a child is younger than that of its parent.\<close>

definition owned :: "'s runtime \<Rightarrow> cpp_class list \<Rightarrow> 's lua \<Rightarrow> bool" where
  "owned R cs L \<longleftrightarrow>
     (\<forall>u \<ge> next_userdata L. userdata L u = None) \<and>
     (\<forall>u m p. userdata L u = Some (m, p) \<longrightarrow> fst p \<in> set cs \<longrightarrow> held R p (world L)) \<and>
     (\<forall>u v m n p. userdata L u = Some (m, p) \<longrightarrow> userdata L v = Some (n, p) \<longrightarrow> fst p \<in> set cs \<longrightarrow> u = v) \<and>
     (\<forall>u v m n p q. userdata L u = Some (m, p) \<longrightarrow> userdata L v = Some (n, q) \<longrightarrow> fst p \<in> set cs \<longrightarrow>
        fst q \<in> set cs \<longrightarrow> child_of R q p (world L) \<longrightarrow> u < v)"

lemma ownedI:
  assumes "\<And>u. next_userdata L \<le> u \<Longrightarrow> userdata L u = None"
    and "\<And>u m p. userdata L u = Some (m, p) \<Longrightarrow> fst p \<in> set cs \<Longrightarrow> held R p (world L)"
    and "\<And>u v m n p. userdata L u = Some (m, p) \<Longrightarrow> userdata L v = Some (n, p) \<Longrightarrow> fst p \<in> set cs \<Longrightarrow> u = v"
    and "\<And>u v m n p q. userdata L u = Some (m, p) \<Longrightarrow> userdata L v = Some (n, q) \<Longrightarrow> fst p \<in> set cs \<Longrightarrow>
      fst q \<in> set cs \<Longrightarrow> child_of R q p (world L) \<Longrightarrow> u < v"
  shows "owned R cs L"
  using assms unfolding owned_def by blast

lemma ownedD:
  assumes "owned R cs L"
  shows "next_userdata L \<le> u \<Longrightarrow> userdata L u = None"
    and "userdata L u = Some (m, p) \<Longrightarrow> fst p \<in> set cs \<Longrightarrow> held R p (world L)"
    and "userdata L u = Some (m, p) \<Longrightarrow> userdata L v = Some (n, p) \<Longrightarrow> fst p \<in> set cs \<Longrightarrow> u = v"
    and "userdata L u = Some (m, p) \<Longrightarrow> userdata L v = Some (n, q) \<Longrightarrow> fst p \<in> set cs \<Longrightarrow>
      fst q \<in> set cs \<Longrightarrow> child_of R q p (world L) \<Longrightarrow> u < v"
  using assms unfolding owned_def by blast+

lemma stackless_owned: "stackless (owned R cs)"
  by (simp add: stackless_def owned_def)

lemmas owned_stack [simp] = stackless_owned [unfolded stackless_def, rule_format]
  stackless_push [OF stackless_owned] stackless_pop [OF stackless_owned]

lemma owned_initial [simp]: "owned R cs (initial_lua s)"
  by (simp add: owned_def initial_lua_def)

lemma owned_world:
  assumes "owned R cs L"
    and "\<And>u m p. userdata L u = Some (m, p) \<Longrightarrow> fst p \<in> set cs \<Longrightarrow> held R p (world L) \<Longrightarrow> kept R p (world L) s"
  shows "owned R cs (L\<lparr>world := s\<rparr>)"
proof -
  have kept: "kept R p (world L) s" if "userdata L u = Some (m, p)" "fst p \<in> set cs" for u m p
    using assms(2) [OF that] ownedD(2) [OF assms(1) that] .
  then have "child_of R q p (world L)" if "userdata L v = Some (n, q)" "fst q \<in> set cs" "child_of R q p s" for v n p q
    using that unfolding kept_def by blast
  then show ?thesis
    using kept_held [OF kept] ownedD(1,3,4) [OF assms(1)] by (intro ownedI) simp_all
qed

lemma owned_kept: "owned R cs L \<Longrightarrow> keeps_objects R f \<Longrightarrow> f (world L) = (r, s) \<Longrightarrow> owned R cs (L\<lparr>world := s\<rparr>)"
  by (erule owned_world) (metis keeps_objects_def snd_conv)

lemma owned_push_object:
  assumes "owned R cs L" "fst p \<in> set cs \<Longrightarrow> held R p (world L)"
    and "fst p \<in> set cs \<Longrightarrow> \<forall>u m. userdata L u \<noteq> Some (m, p)"
    and "fst p \<in> set cs \<Longrightarrow> \<not> child_of R p p (world L)"
    and "\<And>u m q. fst p \<in> set cs \<Longrightarrow> userdata L u = Some (m, q) \<Longrightarrow> fst q \<in> set cs \<Longrightarrow> \<not> child_of R q p (world L)"
  shows "owned R cs (push_object name p L)"
proof (rule ownedI)
  have "u < next_userdata L" if "userdata L u = Some x" for u x
    using ownedD(1) [OF assms(1), of u] that by (cases "u < next_userdata L") simp_all
  then show "u < v"
    if "userdata (push_object name p L) u = Some (m, p')" "userdata (push_object name p L) v = Some (n, q)"
      "fst p' \<in> set cs" "fst q \<in> set cs" "child_of R q p' (world (push_object name p L))" for u v m n p' q
    using that ownedD(4) [OF assms(1)] assms(4,5) unfolding push_object_eq by (auto split: if_splits)
qed (use assms(2,3) ownedD [OF assms(1)] in \<open>auto simp: push_object_eq split: if_splits\<close>)

lemma owned_not_held:
  "owned R cs L \<Longrightarrow> fst p \<in> set cs \<Longrightarrow> \<not> held R p (world L) \<Longrightarrow> userdata L u \<noteq> Some (m, p)"
  unfolding owned_def by blast

lemma owned_made:
  assumes "owned R cs L" "keeps_objects R f" "f (world L) = (r, s)" "\<not> held R p (world L)" "held R p s"
    and "\<And>q. held R q (world L) \<or> q = p \<Longrightarrow> \<not> child_of R q p s"
  shows "owned R cs (push_object name p (L\<lparr>world := s\<rparr>))"
proof (rule owned_push_object)
  show "owned R cs (L\<lparr>world := s\<rparr>)" using assms(1-3) by (rule owned_kept)
  show "\<forall>u m. userdata (L\<lparr>world := s\<rparr>) u \<noteq> Some (m, p)" if "fst p \<in> set cs"
    using owned_not_held [OF assms(1) that assms(4)] by simp
  show "\<not> child_of R q p (world (L\<lparr>world := s\<rparr>))" if "userdata (L\<lparr>world := s\<rparr>) u = Some (m, q)" "fst q \<in> set cs" for u m q
    using assms(6) ownedD(2) [OF assms(1)] that by simp
qed (simp_all add: assms(5,6))

lemma owned_without: "owned R cs L \<Longrightarrow> owned R cs (without u L)"
  using ownedD [of R cs L] by (intro ownedI) (auto split: if_splits)

lemmas owned_held = ownedD(2)

text \<open>After the owner of \<open>p\<close> has deleted it, the others still own theirs.\<close>

lemma owned_deleted:
  assumes "owned R cs L" "userdata L u = Some (m, p)" "fst p \<in> set cs"
    and "\<And>v n q. userdata L v = Some (n, q) \<Longrightarrow> v \<noteq> u \<Longrightarrow> fst q \<in> set cs \<Longrightarrow> q \<noteq> p \<Longrightarrow> held R q (world L) \<Longrightarrow>
      kept R q (world L) s"
  shows "owned R cs (without u (L\<lparr>world := s\<rparr>))"
proof -
  have "q \<noteq> p" if "userdata L v = Some (n, q)" "v \<noteq> u" "fst q \<in> set cs" for v n q
    using ownedD(3) [OF assms(1,2)] assms(3) that by blast
  with assms(4) have "owned R cs ((without u L)\<lparr>world := s\<rparr>)"
    by (intro owned_world [OF owned_without [OF assms(1)]]) (auto split: if_splits)
  then show ?thesis by (cases L) simp
qed

text \<open>A userdata whose object has no child behind another userdata: its finalizer takes no object from others.
  The youngest owner is such a userdata.\<close>

definition childless :: "'s runtime \<Rightarrow> cpp_class list \<Rightarrow> 's lua \<Rightarrow> nat \<Rightarrow> bool" where
  "childless R cs L u \<longleftrightarrow>
     (\<forall>v < next_userdata L.
        case (userdata L u, userdata L v) of
          (Some (_, p), Some (_, q)) \<Rightarrow> fst q \<in> set cs \<longrightarrow> \<not> child_of R q p (world L)
        | _ \<Rightarrow> True)"

lemma childless_stack: "childless R cs (L\<lparr>stack := st\<rparr>) u = childless R cs L u"
proof (cases L)
  case (fields st' ud nu w)
  show ?thesis unfolding fields childless_def lua.simps ..
qed

lemma childlessD:
  assumes "childless R cs L u" "userdata L u = Some (m, p)" "owned R cs L" "userdata L v = Some (n, q)" "fst q \<in> set cs"
  shows "\<not> child_of R q p (world L)"
proof -
  have "v < next_userdata L" using ownedD(1) [OF assms(3), of v] assms(4) by (cases "v < next_userdata L") simp_all
  with assms(1,2,4,5) show ?thesis by (fastforce simp: childless_def)
qed

lemma youngest_childless:
  assumes "owned R cs L" "userdata L u = Some (m, p)" "fst p \<in> set cs" "\<forall>v > u. userdata L v = None"
  shows "childless R cs L u"
proof -
  have "\<not> child_of R q p (world L)" if "userdata L v = Some (n, q)" "fst q \<in> set cs" for v n q
    using ownedD(4) [OF assms(1,2) that(1) assms(3) that(2)] assms(4) that(1) by auto
  with assms(2) show ?thesis by (simp add: childless_def split: option.split)
qed

lemma owned_union:
  assumes "owned R cs L" "owned R ds L" "\<And>q p. child_of R q p (world L) \<Longrightarrow> fst q \<notin> set ds \<and> fst p \<notin> set ds"
  shows "owned R (ds @ cs) L"
  using ownedD [OF assms(1)] ownedD(2,3) [OF assms(2)] assms(3) by (intro ownedI) auto

text \<open>Both together, and their rules.\<close>

definition sound_userdata :: "'s runtime \<Rightarrow> (string \<times> cpp_class) list \<Rightarrow> cpp_class list \<Rightarrow> 's lua \<Rightarrow> bool" where
  "sound_userdata R table cs L \<longleftrightarrow> typed_userdata table L \<and> owned R cs L"

lemma stackless_sound [post_rules]: "stackless (sound_userdata R table cs)"
  using stackless_typed_userdata stackless_owned by (simp add: sound_userdata_def stackless_def)

lemmas sound_stack [simp] = stackless_sound [unfolded stackless_def, rule_format]
  stackless_push [OF stackless_sound] stackless_pop [OF stackless_sound]

lemma sound_kept:
  "sound_userdata R table cs L \<Longrightarrow> keeps_objects R f \<Longrightarrow> f (world L) = (r, s) \<Longrightarrow>
   sound_userdata R table cs (L\<lparr>world := s\<rparr>)"
  by (simp add: sound_userdata_def owned_kept)

lemma sound_perform [post_rules]:
  "sound_userdata R table cs L \<Longrightarrow> keeps_objects R f \<Longrightarrow>
   (\<And>r L. sound_userdata R table cs L \<Longrightarrow> post (sound_userdata R table cs) (k r L)) \<Longrightarrow>
   post (sound_userdata R table cs) (perform f k L)"
  by (rule post_perform) (blast intro: sound_kept)

lemma sound_invoke [post_rules]:
  "sound_userdata R table cs L \<Longrightarrow> keeps_objects R f \<Longrightarrow>
   (\<And>r L. sound_userdata R table cs L \<Longrightarrow> post (sound_userdata R table cs) (k r L)) \<Longrightarrow>
   post (sound_userdata R table cs) (invoke R' p f k L)"
  unfolding invoke_def by (rule post_on_object) (auto intro: sound_perform)

lemma sound_create_object [post_rules]:
  assumes "sound_userdata R table cs L" "makes_object_or_fails R c f" "map_of table name = Some c"
    and "\<And>a L. sound_userdata R table cs L \<Longrightarrow> post (sound_userdata R table cs) (k a L)"
    and "\<And>L. sound_userdata R table cs L \<Longrightarrow> post (sound_userdata R table cs) (none L)"
  shows "post (sound_userdata R table cs) (create_object f c name k none L)"
proof -
  obtain r s where f: "f (world L) = (r, s)" by fastforce
  have keeps: "keeps_objects R f" using assms(2) by (simp add: makes_object_or_fails_def)
  have "sound_userdata R table cs (push_object name (c, a) (L\<lparr>world := s\<rparr>))" if "r = Some a" for a
  proof -
    have "\<not> held R (c, a) (world L)" "held R (c, a) s" "\<And>q. held R q (world L) \<or> q = (c, a) \<Longrightarrow> \<not> child_of R q (c, a) s"
      using assms(2) f that unfolding makes_object_or_fails_def by (metis fst_conv snd_conv)+
    then show ?thesis
      using assms(1,3) f keeps by (auto simp: sound_userdata_def intro!: typed_push_object owned_made)
  qed
  with assms(4,5) sound_kept [OF assms(1) keeps f] f show ?thesis
    by (simp add: create_object_def split: option.splits)
qed

lemma makes_always: "makes_object R c f \<Longrightarrow> makes_object_or_fails R c (always f)"
  unfolding makes_object_def makes_object_or_fails_def keeps_objects_def by (auto simp: case_prod_beta)

text \<open>Calls that delete objects nobody owns, and userdata for such objects.\<close>

lemma sound_kept_except:
  assumes "sound_userdata R table cs L" "keeps_except R ex None f" "set ex \<inter> set cs = {}" "f (world L) = (r, s)"
  shows "sound_userdata R table cs (L\<lparr>world := s\<rparr>)"
proof -
  have "kept R q (world L) s" if "held R q (world L)" "fst q \<in> set cs" for q
    using assms(2-4) that unfolding keeps_except_def by (metis disjoint_iff option.distinct(1) snd_conv)
  then have "owned R cs (L\<lparr>world := s\<rparr>)"
    using assms(1) by (intro owned_world) (auto simp: sound_userdata_def)
  with assms(1) show ?thesis by (simp add: sound_userdata_def)
qed

lemma sound_invoke_except:
  assumes "sound_userdata R table cs L" "keeps_except R ex None f" "set ex \<inter> set cs = {}"
    and "\<And>r L. sound_userdata R table cs L \<Longrightarrow> post (sound_userdata R table cs) (k r L)"
  shows "post (sound_userdata R table cs) (invoke R' p f k L)"
  unfolding invoke_def
proof (rule post_on_object)
  show "sound_userdata R table cs L" by (rule assms(1))
  show "post (sound_userdata R table cs) (perform f k L)" if "sound_userdata R table cs L" for L
    using sound_kept_except [OF that assms(2,3)] assms(4) by (intro post_perform) blast
qed

lemma sound_push_unowned:
  "sound_userdata R table cs L \<Longrightarrow> map_of table name = Some c \<Longrightarrow> c \<notin> set cs \<Longrightarrow>
   sound_userdata R table cs (push_object name (c, a) L)"
  unfolding sound_userdata_def by (auto intro!: typed_push_object owned_push_object)

text \<open>The finalizer of an owned object.\<close>

lemma sound_delete:
  assumes "sound_userdata R table cs L" "stack L = [LUserdata u]" "userdata L u = Some (Some name, p)"
    and "map_of table name = Some c" "c \<in> set cs"
    and "\<And>v n q. userdata L v = Some (n, q) \<Longrightarrow> v \<noteq> u \<Longrightarrow> fst q \<in> set cs \<Longrightarrow> q \<noteq> p \<Longrightarrow> held R q (world L) \<Longrightarrow>
      kept R q (world L) (snd (del (snd p) (world L)))"
  shows "post (\<lambda>L'. sound_userdata R table cs (without u L'))
     (luaL_checkudata 1 name c (\<lambda>a. invoke R (c, a) (del a) (\<lambda>_. Returns n)) L)"
proof -
  have p: "fst p = c" using assms(1,3,4) unfolding sound_userdata_def typed_userdata_def by blast
  obtain r s where s: "del (snd p) (world L) = (r, s)" by fastforce
  have "owned R cs (without u (L\<lparr>world := s\<rparr>))"
    using assms(1) by (intro owned_deleted [OF _ assms(3)]) (use assms(5,6) p s in \<open>auto simp: sound_userdata_def\<close>)
  moreover have "typed_userdata table (without u (L\<lparr>world := s\<rparr>))"
    using assms(1) typed_without [of table "L\<lparr>world := s\<rparr>" u] by (simp add: sound_userdata_def)
  ultimately show ?thesis
    using p s assms(2,3)
    by (simp add: sound_userdata_def luaL_checkudata_def arg_def invoke_def on_object_def perform_def)
qed

lemma delete_returns:
  assumes "sound_userdata R table cs L" "userdata L u = Some (Some name, p)" "map_of table name = Some c" "c \<in> set cs"
  shows "\<exists>L'. luaL_checkudata 1 name c (\<lambda>a. invoke R (c, a) (del a) (\<lambda>_. Returns n)) (L\<lparr>stack := [LUserdata u]\<rparr>) = Returns n L' \<and>
     userdata L' = userdata L"
proof -
  have p: "fst p = c" using assms(1-3) unfolding sound_userdata_def typed_userdata_def by blast
  then have "held R p (world L)" using assms(1,2,4) by (intro owned_held) (auto simp: sound_userdata_def)
  then have "alive R (c, snd p) (world L)" using p by (cases p) (simp add: held_def)
  with assms(2) p show ?thesis
    by (cases p) (simp add: luaL_checkudata_def arg_def invoke_def on_object_def perform_def case_prod_beta)
qed

lemma sound_deletes:
  assumes "sound_userdata R table cs L" "stack L = [LUserdata u]" "userdata L u = Some (Some name, p)"
    and "map_of table name = Some c" "c \<in> set cs" "\<And>a. deletes_object R (c, a) (del a)"
  shows "post (\<lambda>L'. sound_userdata R table cs (without u L'))
     (luaL_checkudata 1 name c (\<lambda>a. invoke R (c, a) (del a) (\<lambda>_. Returns n)) L)"
proof (rule sound_delete [OF assms(1-5)])
  have "p = (c, snd p)" using assms(1,3,4) unfolding sound_userdata_def typed_userdata_def by (metis prod.collapse)
  then show "kept R q (world L) (snd (del (snd p) (world L)))" if "q \<noteq> p" "held R q (world L)" for q
    using assms(6) [of "snd p"] that unfolding deletes_object_def by metis
qed

lemma sound_deletes_except:
  assumes "sound_userdata R table cs L" "stack L = [LUserdata u]" "userdata L u = Some (Some name, p)"
    and "map_of table name = Some c" "c \<in> set cs" "\<And>a. keeps_except R ex (Some (c, a)) (del a)" "set ex \<inter> set cs = {}"
  shows "post (\<lambda>L'. sound_userdata R table cs (without u L'))
     (luaL_checkudata 1 name c (\<lambda>a. invoke R (c, a) (del a) (\<lambda>_. Returns n)) L)"
proof (rule sound_delete [OF assms(1-5)])
  have "p = (c, snd p)" using assms(1,3,4) unfolding sound_userdata_def typed_userdata_def by (metis prod.collapse)
  then show "kept R q (world L) (snd (del (snd p) (world L)))" if "fst q \<in> set cs" "q \<noteq> p" "held R q (world L)" for q
    using assms(6) [of "snd p"] assms(7) that unfolding keeps_except_def by (metis disjoint_iff option.inject)
qed

section \<open>Libraries\<close>

text \<open>What \<open>luaopen_*\<close> registers: the functions of the module, and for each metatable its methods and its
  finalizer \<open>__gc\<close>.\<close>

record 's lua_library =
  module_functions :: "(string \<times> 's cfun) list"
  metatables :: "(string \<times> (string \<times> 's cfun) list \<times> 's cfun option) list"

definition library_functions :: "'s lua_library \<Rightarrow> 's cfun list" where
  "library_functions lib =
     map snd (module_functions lib) @ concat (map (\<lambda>(name, methods, gc). map snd methods) (metatables lib))"

definition library_finalizer :: "'s lua_library \<Rightarrow> string \<Rightarrow> 's cfun option" where
  "library_finalizer lib name = Option.bind (map_of (metatables lib) name) snd"

lemma set_library_functions:
  "f \<in> set (library_functions lib) \<longleftrightarrow>
     f \<in> snd ` set (module_functions lib) \<or> (\<exists>name methods gc. (name, methods, gc) \<in> set (metatables lib) \<and> f \<in> snd ` set methods)"
  unfolding library_functions_def by force

section \<open>A small world for closed examples\<close>

text \<open>The fields of the \<open>LuaInterpreter\<close> of the program and the value of the Lua global \<open>interp\<close>; a world of
  libraries extends them.\<close>

record app =
  quitCalled :: bool
  retCode :: int
  interp_global :: lua_value

text \<open>Objects, which of them belong to which other one, the connections that wait, the contents of buffers,
  and of contexts whether they verify the peer and which certificates they trust.\<close>

record small_world = app +
  objects :: "pointer list"
  parents :: "(pointer \<times> pointer) list"
  pending_sockets :: "nat list"
  buffer_bytes :: "nat \<Rightarrow> string"
  verifies :: "nat \<Rightarrow> bool"
  trusted_files :: "nat \<Rightarrow> string list"

definition small_start :: small_world where
  "small_start = \<lparr>quitCalled = False, retCode = 0, interp_global = LNil, objects = [], parents = [], pending_sockets = [], buffer_bytes = (\<lambda>b. []), verifies = (\<lambda>c. False),
     trusted_files = (\<lambda>c. [])\<rparr>"

definition small_runtime :: "small_world runtime" where
  "small_runtime = \<lparr>string_number = (\<lambda>s. None), number_string = (\<lambda>x. ''0''), alive = (\<lambda>p w. p \<in> set (objects w)),
     unclaimed = (\<lambda>p w. fst p = QTcpSocket_class \<and> snd p \<in> set (pending_sockets w)),
     child_of = (\<lambda>q p w. fst q = QTcpSocket_class \<and> fst p = QTcpServer_class \<and> (q, p) \<in> set (parents w))\<rparr>"

definition fresh_id :: "small_world \<Rightarrow> nat" where
  "fresh_id w = Suc (sum_list (map snd (objects w) @ pending_sockets w @ map (\<lambda>(q, p). snd p) (parents w)))"

definition small_new :: "cpp_class \<Rightarrow> small_world \<Rightarrow> nat \<times> small_world" where
  "small_new c w = (fresh_id w, w\<lparr>objects := (c, fresh_id w) # objects w\<rparr>)"

definition small_delete :: "pointer \<Rightarrow> small_world \<Rightarrow> unit \<times> small_world" where
  "small_delete p w = ((), w\<lparr>objects := filter (\<lambda>q. q \<noteq> p) (objects w)\<rparr>)"

lemma fresh_id:
  "(c, fresh_id w) \<notin> set (objects w)" "fresh_id w \<notin> set (pending_sockets w)" "(q, (c, fresh_id w)) \<notin> set (parents w)"
proof -
  have "x \<noteq> fresh_id w" if "x \<in> set (map snd (objects w) @ pending_sockets w @ map (\<lambda>(q, p). snd p) (parents w))" for x
    using member_le_sum_list [OF that] unfolding fresh_id_def by linarith
  then show "(c, fresh_id w) \<notin> set (objects w)" "fresh_id w \<notin> set (pending_sockets w)" "(q, (c, fresh_id w)) \<notin> set (parents w)"
    by force+
qed

lemma small_held: "held small_runtime p w \<longleftrightarrow>
   p \<in> set (objects w) \<and> \<not> (fst p = QTcpSocket_class \<and> snd p \<in> set (pending_sockets w))"
  by (auto simp: held_def small_runtime_def)

lemma small_kept:
  "kept small_runtime p w w' \<longleftrightarrow> held small_runtime p w' \<and>
     (\<forall>q. fst p = QTcpSocket_class \<longrightarrow> fst q = QTcpServer_class \<longrightarrow> (p, q) \<in> set (parents w') \<longrightarrow> (p, q) \<in> set (parents w))"
  by (auto simp: kept_def small_runtime_def)

lemma small_keeps: "(\<And>w. snd (f w) = w) \<Longrightarrow> keeps_objects small_runtime f"
  by (simp add: keeps_objects_def kept_same)

lemma small_makes: "makes_object small_runtime c (small_new c)"
  by (auto simp: makes_object_def keeps_objects_def small_held small_kept small_new_def fresh_id)
    (auto simp: small_runtime_def fresh_id)

lemma small_deletes: "deletes_object small_runtime p (small_delete p)"
  by (auto simp: deletes_object_def small_held small_kept small_delete_def)

end
