(* ===== verification/Lua_Network.thy ===== *)
theory Lua_Network
  imports Lua_Runtime
begin

text \<open>
  The Lua bindings of Qt's TCP sockets, TCP servers and web sockets (\<open>network.cc\<close>). Qt is a parameter
  over the state of the libraries. Two functions wait in a loop, \<open>wait_loop\<close>, that may never end.
\<close>

section \<open>Qt\<close>

text \<open>A cipher, a certificate and a key are kept as texts; an unknown cipher has the empty name.\<close>

record ssl_configuration =
  protocol :: int
  ciphers :: "string list"
  verify_peer :: bool
  ca_certificates :: "string list"
  local_certificate :: string
  private_key :: string

record 's network_api =
  new_QTcpSocket :: "'s \<Rightarrow> nat \<times> 's"
  bind_address :: "nat \<Rightarrow> string \<Rightarrow> 's \<Rightarrow> unit \<times> 's"
  connectToHost :: "nat \<Rightarrow> string \<Rightarrow> int \<Rightarrow> 's \<Rightarrow> unit \<times> 's"
  waitForConnected :: "nat \<Rightarrow> 's \<Rightarrow> bool \<times> 's"
  isOpen :: "nat \<Rightarrow> 's \<Rightarrow> bool \<times> 's"
  read_bytes :: "nat \<Rightarrow> int \<Rightarrow> 's \<Rightarrow> string \<times> 's"
  readAll :: "nat \<Rightarrow> 's \<Rightarrow> string \<times> 's"
  write_bytes :: "nat \<Rightarrow> string \<Rightarrow> 's \<Rightarrow> int \<times> 's"
  close_socket :: "nat \<Rightarrow> 's \<Rightarrow> unit \<times> 's"
  delete_QTcpSocket :: "nat \<Rightarrow> 's \<Rightarrow> unit \<times> 's"
  new_QTcpServer :: "'s \<Rightarrow> nat \<times> 's"
  listen_any :: "nat \<Rightarrow> int \<Rightarrow> 's \<Rightarrow> bool \<times> 's"
  nextPendingConnection :: "nat \<Rightarrow> 's \<Rightarrow> nat option \<times> 's"
  delete_QTcpServer :: "nat \<Rightarrow> 's \<Rightarrow> unit \<times> 's"
  new_QWebSocket :: "'s \<Rightarrow> nat \<times> 's"
  is_connected_state :: "nat \<Rightarrow> 's \<Rightarrow> bool \<times> 's"
  open_url :: "nat \<Rightarrow> string \<Rightarrow> int \<Rightarrow> 's \<Rightarrow> unit \<times> 's"
  run_event_loop :: "nat \<Rightarrow> 's \<Rightarrow> unit \<times> 's"
  sleep_usec :: "int \<Rightarrow> 's \<Rightarrow> unit \<times> 's"
  setSslConfiguration :: "nat \<Rightarrow> ssl_configuration \<Rightarrow> 's \<Rightarrow> unit \<times> 's"
  close_web_socket :: "nat \<Rightarrow> 's \<Rightarrow> unit \<times> 's"
  sendTextMessage :: "nat \<Rightarrow> string \<Rightarrow> 's \<Rightarrow> int \<times> 's"
  sendBinaryMessage :: "nat \<Rightarrow> string \<Rightarrow> 's \<Rightarrow> int \<times> 's"
  delete_QWebSocket :: "nat \<Rightarrow> 's \<Rightarrow> unit \<times> 's"
  QTime_start :: "'s \<Rightarrow> int \<times> 's"
  QTime_elapsed :: "int \<Rightarrow> 's \<Rightarrow> int \<times> 's"
  supportedCiphers :: "string list"
  cipher_name :: "string \<Rightarrow> string"
  read_certificate :: "string \<Rightarrow> 's \<Rightarrow> string \<times> 's"
  read_rsa_key :: "string \<Rightarrow> 's \<Rightarrow> string \<times> 's"

abbreviation TcpSocket_name :: string where "TcpSocket_name \<equiv> ''network.TcpSocket''"
abbreviation TcpServer_name :: string where "TcpServer_name \<equiv> ''network.TcpServer''"
abbreviation WebSocket_name :: string where "WebSocket_name \<equiv> ''network.WebSocket''"

abbreviation checksocket :: "(nat \<Rightarrow> 's cfun) \<Rightarrow> 's cfun" where
  "checksocket \<equiv> luaL_checkudata 1 TcpSocket_name QTcpSocket_class"
abbreviation checkserver :: "(nat \<Rightarrow> 's cfun) \<Rightarrow> 's cfun" where
  "checkserver \<equiv> luaL_checkudata 1 TcpServer_name QTcpServer_class"
abbreviation checkwebsocket :: "(nat \<Rightarrow> 's cfun) \<Rightarrow> 's cfun" where
  "checkwebsocket \<equiv> luaL_checkudata 1 WebSocket_name QWebSocket_class"

section \<open>Waiting\<close>

text \<open>\<open>while (!test) { again; if (elapsed > limit) give up; }\<close>\<close>

partial_function (option) wait_loop ::
  "('s \<Rightarrow> bool \<times> 's) \<Rightarrow> ('s \<Rightarrow> int \<times> 's) \<Rightarrow> int \<Rightarrow> 's \<Rightarrow> (bool \<times> 's) option" where
  "wait_loop test again limit s =
     (case test s of (ok, s1) \<Rightarrow>
        if ok then Some (True, s1)
        else (case again s1 of (elapsed, s2) \<Rightarrow>
                if elapsed > limit then Some (False, s2) else wait_loop test again limit s2))"

definition wait_until ::
  "('s \<Rightarrow> (bool \<times> 's) option) \<Rightarrow> (bool \<Rightarrow> 's cfun) \<Rightarrow> 's cfun" where
  "wait_until loop k L = (case loop (world L) of None \<Rightarrow> Diverges | Some (ok, s) \<Rightarrow> k ok (L\<lparr>world := s\<rparr>))"

section \<open>TCP sockets\<close>

definition network_tcp_client :: "'s network_api \<Rightarrow> 's cfun" where
  "network_tcp_client N =
     create_object (always (new_QTcpSocket N)) QTcpSocket_class TcpSocket_name (\<lambda>_. Returns 1) (\<lambda>L. Ub)"

definition connect_again :: "'s network_api \<Rightarrow> nat \<Rightarrow> string \<Rightarrow> int \<Rightarrow> int \<Rightarrow> 's \<Rightarrow> int \<times> 's" where
  "connect_again N tcpSocket ip port timer s =
     (case connectToHost N tcpSocket ip port s of (_, s1) \<Rightarrow> QTime_elapsed N timer s1)"

definition tcp_socket_connect :: "'s runtime \<Rightarrow> 's network_api \<Rightarrow> 's cfun" where
  "tcp_socket_connect R N =
     checksocket (\<lambda>tcpSocket.
     luaL_checkstring R 2 (\<lambda>ip.
     luaL_checkinteger R 3 (\<lambda>port.
     lua_tointegerx R 4 (\<lambda>time_waiting_ms.
     luaL_optstring R 5 (\<lambda>source.
     on_object R (QTcpSocket_class, tcpSocket) (
       let port = to_ushort (to_int port);
           time_waiting_ms = to_int time_waiting_ms in
       perform (case source of None \<Rightarrow> Pair () | Some address \<Rightarrow> bind_address N tcpSocket address) (\<lambda>_.
       perform (connectToHost N tcpSocket ip port) (\<lambda>_.
       perform (QTime_start N) (\<lambda>timer.
       wait_until (wait_loop (waitForConnected N tcpSocket) (connect_again N tcpSocket ip port timer) time_waiting_ms)
         (\<lambda>connected. if connected then Returns 0 else Returns 1))))))))))"

text \<open>On a socket that is not open nothing is pushed, but one result is announced.\<close>

definition tcp_socket_read :: "'s runtime \<Rightarrow> 's network_api \<Rightarrow> 's cfun" where
  "tcp_socket_read R N =
     checksocket (\<lambda>tcpSocket.
     luaL_checkinteger R 2 (\<lambda>maxSize.
     invoke R (QTcpSocket_class, tcpSocket) (isOpen N tcpSocket) (\<lambda>is_open.
     if is_open then
       invoke R (QTcpSocket_class, tcpSocket) (read_bytes N tcpSocket (to_int maxSize)) (\<lambda>result L.
         Returns 1 (push (LString result) L))
     else Returns 1)))"

definition tcp_socket_read_all :: "'s runtime \<Rightarrow> 's network_api \<Rightarrow> 's cfun" where
  "tcp_socket_read_all R N =
     checksocket (\<lambda>tcpSocket.
     invoke R (QTcpSocket_class, tcpSocket) (readAll N tcpSocket) (\<lambda>result L.
       Returns 1 (push (LString result) L)))"

definition tcp_socket_write :: "'s runtime \<Rightarrow> 's network_api \<Rightarrow> 's cfun" where
  "tcp_socket_write R N =
     checksocket (\<lambda>tcpSocket.
     luaL_checklstring R 2 (\<lambda>data.
     invoke R (QTcpSocket_class, tcpSocket) (isOpen N tcpSocket) (\<lambda>is_open.
     if is_open then
       invoke R (QTcpSocket_class, tcpSocket) (write_bytes N tcpSocket data) (\<lambda>result L.
         Returns 1 (push (LNumber (of_int (to_int result))) L))
     else Returns 1)))"

definition tcp_socket_close :: "'s runtime \<Rightarrow> 's network_api \<Rightarrow> 's cfun" where
  "tcp_socket_close R N =
     checksocket (\<lambda>tcpSocket. invoke R (QTcpSocket_class, tcpSocket) (close_socket N tcpSocket) (\<lambda>_. Returns 0))"

definition tcp_socket_delete :: "'s runtime \<Rightarrow> 's network_api \<Rightarrow> 's cfun" where
  "tcp_socket_delete R N =
     checksocket (\<lambda>tcpSocket. invoke R (QTcpSocket_class, tcpSocket) (delete_QTcpSocket N tcpSocket) (\<lambda>_. Returns 0))"

section \<open>TCP servers\<close>

definition network_tcp_server :: "'s network_api \<Rightarrow> 's cfun" where
  "network_tcp_server N =
     create_object (always (new_QTcpServer N)) QTcpServer_class TcpServer_name (\<lambda>_. Returns 1) (\<lambda>L. Ub)"

text \<open>The address is read and not used: the server listens on all of them.\<close>

definition tcp_server_listen :: "'s runtime \<Rightarrow> 's network_api \<Rightarrow> 's cfun" where
  "tcp_server_listen R N =
     checkserver (\<lambda>tcpServer.
     luaL_checkstring R 2 (\<lambda>ip.
     luaL_checkinteger R 3 (\<lambda>port.
     invoke R (QTcpServer_class, tcpServer) (listen_any N tcpServer (to_ushort (to_int port))) (\<lambda>ok L.
       Returns 1 (push (LBool ok) L)))))"

definition tcp_server_get_connection :: "'s runtime \<Rightarrow> 's network_api \<Rightarrow> 's cfun" where
  "tcp_server_get_connection R N =
     checkserver (\<lambda>tcpServer.
     on_object R (QTcpServer_class, tcpServer)
       (create_object (nextPendingConnection N tcpServer) QTcpSocket_class TcpSocket_name (\<lambda>_. Returns 1)
         (\<lambda>L. Returns 1 (push LNil L))))"

definition tcp_server_delete :: "'s runtime \<Rightarrow> 's network_api \<Rightarrow> 's cfun" where
  "tcp_server_delete R N =
     checkserver (\<lambda>tcpServer. invoke R (QTcpServer_class, tcpServer) (delete_QTcpServer N tcpServer) (\<lambda>_. Returns 0))"

section \<open>Web sockets\<close>

definition network_web_socket :: "'s network_api \<Rightarrow> 's cfun" where
  "network_web_socket N =
     create_object (always (new_QWebSocket N)) QWebSocket_class WebSocket_name (\<lambda>_. Returns 1) (\<lambda>L. Ub)"

text \<open>\<open>QStringList::removeDuplicates\<close> keeps the first of equal entries.\<close>

fun removeDuplicates :: "string list \<Rightarrow> string list" where
  "removeDuplicates [] = []"
| "removeDuplicates (x # xs) = x # removeDuplicates (filter (\<lambda>y. y \<noteq> x) xs)"

fun append_cyphers :: "'s network_api \<Rightarrow> string list \<Rightarrow> string list \<Rightarrow> string list" where
  "append_cyphers N [] cyphers = cyphers"
| "append_cyphers N (it # rest) cyphers =
     append_cyphers N rest (if cipher_name N it \<noteq> [] then cyphers @ [cipher_name N it] else cyphers)"

definition setCypherList :: "'s network_api \<Rightarrow> string \<Rightarrow> ssl_configuration \<Rightarrow> ssl_configuration" where
  "setCypherList N cypherListString sslConfiguration =
     (let cypherStringsList = filter (\<lambda>w. w \<noteq> []) (split_on (CHR '':'') cypherListString);
          cypherStringsList = removeDuplicates cypherStringsList
      in if ''ALL'' \<in> set cypherStringsList then sslConfiguration\<lparr>ciphers := supportedCiphers N\<rparr>
         else sslConfiguration\<lparr>ciphers := append_cyphers N cypherStringsList []\<rparr>)"

definition empty_configuration :: ssl_configuration where
  "empty_configuration = \<lparr>protocol = 0, ciphers = [], verify_peer = False, ca_certificates = [],
     local_certificate = [], private_key = []\<rparr>"

text \<open>The table of SSL parameters, argument 5.\<close>

definition configure_ssl :: "'s runtime \<Rightarrow> 's network_api \<Rightarrow> nat \<Rightarrow> 's cfun \<Rightarrow> 's cfun" where
  "configure_ssl R N webSocket k =
     lua_getfield 5 ''protocol'' (\<lambda>v1 L1. if \<not> is_long (trunc (value_number R v1)) then Ub else
     lua_getfield 5 ''cypherListString'' (\<lambda>v2.
     lua_getfield 5 ''caCertPath'' (\<lambda>v3.
     perform (read_certificate N (value_text R v3)) (\<lambda>caCertificate.
     lua_getfield 5 ''certPath'' (\<lambda>v4.
     perform (read_certificate N (value_text R v4)) (\<lambda>certificate.
     lua_getfield 5 ''keyPath'' (\<lambda>v5.
     perform (read_rsa_key N (value_text R v5)) (\<lambda>sslKey.
       let sslConfiguration = empty_configuration;
           sslConfiguration = sslConfiguration\<lparr>protocol := to_int (trunc (value_number R v1))\<rparr>;
           sslConfiguration = setCypherList N (value_text R v2) sslConfiguration;
           sslConfiguration = sslConfiguration\<lparr>verify_peer := True\<rparr>;
           sslConfiguration = sslConfiguration\<lparr>ca_certificates := [caCertificate]\<rparr>;
           sslConfiguration = sslConfiguration\<lparr>local_certificate := certificate\<rparr>;
           sslConfiguration = sslConfiguration\<lparr>private_key := sslKey\<rparr>
       in invoke R (QWebSocket_class, webSocket) (setSslConfiguration N webSocket sslConfiguration) (\<lambda>_. k)))))))) L1)"

text \<open>One round of the loop of \<open>web_socket_open\<close>; the event loop ends when the socket connects or disconnects.\<close>

definition open_again :: "'s network_api \<Rightarrow> nat \<Rightarrow> string \<Rightarrow> int \<Rightarrow> int \<Rightarrow> 's \<Rightarrow> int \<times> 's" where
  "open_again N webSocket url port timer s =
     (case open_url N webSocket url port s of (_, s1) \<Rightarrow>
      case run_event_loop N webSocket s1 of (_, s2) \<Rightarrow>
      case sleep_usec N 100 s2 of (_, s3) \<Rightarrow> QTime_elapsed N timer s3)"

definition web_socket_open :: "'s runtime \<Rightarrow> 's network_api \<Rightarrow> 's cfun" where
  "web_socket_open R N =
     checkwebsocket (\<lambda>webSocket.
     luaL_checkstring R 2 (\<lambda>url.
     lua_tointegerx R 3 (\<lambda>port.
     lua_tointegerx R 4 (\<lambda>time_waiting_ms L.
       let rest = on_object R (QWebSocket_class, webSocket) (
             perform (QTime_start N) (\<lambda>timer.
             wait_until (wait_loop (is_connected_state N webSocket) (open_again N webSocket url (to_int port) timer)
                 (to_int time_waiting_ms))
               (\<lambda>connected. Returns 0)))
       in if \<not> lua_isnoneornil 5 L then configure_ssl R N webSocket rest L else rest L))))"

definition web_socket_close :: "'s runtime \<Rightarrow> 's network_api \<Rightarrow> 's cfun" where
  "web_socket_close R N =
     checkwebsocket (\<lambda>webSocket.
     invoke R (QWebSocket_class, webSocket) (close_web_socket N webSocket) (\<lambda>_. Returns 0))"

text \<open>\<open>sendTextMessage\<close> takes a \<open>QString\<close>, which ends at the first NUL byte of the data.\<close>

definition web_socket_write :: "'s runtime \<Rightarrow> 's network_api \<Rightarrow> 's cfun" where
  "web_socket_write R N =
     checkwebsocket (\<lambda>webSocket.
     luaL_checklstring R 2 (\<lambda>data.
     invoke R (QWebSocket_class, webSocket) (sendTextMessage N webSocket (c_str data)) (\<lambda>res L.
       Returns 1 (push (LNumber (of_int (to_int res))) L))))"

definition web_socket_binarywrite :: "'s runtime \<Rightarrow> 's network_api \<Rightarrow> 's cfun" where
  "web_socket_binarywrite R N =
     checkwebsocket (\<lambda>webSocket.
     luaL_checklstring R 2 (\<lambda>data.
     invoke R (QWebSocket_class, webSocket) (sendBinaryMessage N webSocket data) (\<lambda>res L.
       Returns 1 (push (LNumber (of_int (to_int res))) L))))"

definition web_socket_delete :: "'s runtime \<Rightarrow> 's network_api \<Rightarrow> 's cfun" where
  "web_socket_delete R N =
     checkwebsocket (\<lambda>webSocket.
     invoke R (QWebSocket_class, webSocket) (delete_QWebSocket N webSocket) (\<lambda>_. Returns 0))"

definition luaopen_network :: "'s runtime \<Rightarrow> 's network_api \<Rightarrow> 's lua_library" where
  "luaopen_network R N = \<lparr>
     module_functions =
       [(''TcpClient'', network_tcp_client N), (''TcpServer'', network_tcp_server N),
        (''WebSocket'', network_web_socket N)],
     metatables =
       [(TcpServer_name,
          [(''listen'', tcp_server_listen R N), (''get_connection'', tcp_server_get_connection R N)],
          Some (tcp_server_delete R N)),
        (TcpSocket_name,
          [(''connect'', tcp_socket_connect R N), (''read'', tcp_socket_read R N),
           (''read_all'', tcp_socket_read_all R N), (''write'', tcp_socket_write R N),
           (''close'', tcp_socket_close R N)],
          Some (tcp_socket_delete R N)),
        (WebSocket_name,
          [(''open'', web_socket_open R N), (''close'', web_socket_close R N),
           (''write'', web_socket_write R N), (''binary_write'', web_socket_binarywrite R N)],
          Some (web_socket_delete R N))] \<rparr>"

section \<open>What the bindings rely on\<close>

text \<open>Qt keeps the objects it is called on; a pending connection is not held by anyone before it is handed
  out, and it is a child of its server, which deletes its children with itself.\<close>

definition network_api_ok :: "'s runtime \<Rightarrow> 's network_api \<Rightarrow> bool" where
  "network_api_ok R N \<longleftrightarrow>
     makes_object R QTcpSocket_class (new_QTcpSocket N) \<and> makes_object R QTcpServer_class (new_QTcpServer N) \<and>
     makes_object R QWebSocket_class (new_QWebSocket N) \<and>
     (\<forall>a. makes_object_or_fails R QTcpSocket_class (nextPendingConnection N a)) \<and>
     (\<forall>a x. keeps_objects R (bind_address N a x)) \<and> (\<forall>a x n. keeps_objects R (connectToHost N a x n)) \<and>
     (\<forall>a. keeps_objects R (waitForConnected N a)) \<and> (\<forall>a. keeps_objects R (isOpen N a)) \<and>
     (\<forall>a n. keeps_objects R (read_bytes N a n)) \<and> (\<forall>a. keeps_objects R (readAll N a)) \<and>
     (\<forall>a x. keeps_objects R (write_bytes N a x)) \<and> (\<forall>a. keeps_objects R (close_socket N a)) \<and>
     (\<forall>a n. keeps_objects R (listen_any N a n)) \<and> (\<forall>a. keeps_objects R (is_connected_state N a)) \<and>
     (\<forall>a x n. keeps_objects R (open_url N a x n)) \<and> (\<forall>a. keeps_objects R (run_event_loop N a)) \<and>
     (\<forall>n. keeps_objects R (sleep_usec N n)) \<and> (\<forall>a c. keeps_objects R (setSslConfiguration N a c)) \<and>
     (\<forall>a. keeps_objects R (close_web_socket N a)) \<and> (\<forall>a x. keeps_objects R (sendTextMessage N a x)) \<and>
     (\<forall>a x. keeps_objects R (sendBinaryMessage N a x)) \<and> keeps_objects R (QTime_start N) \<and>
     (\<forall>n. keeps_objects R (QTime_elapsed N n)) \<and> (\<forall>x. keeps_objects R (read_certificate N x)) \<and>
     (\<forall>x. keeps_objects R (read_rsa_key N x)) \<and>
     (\<forall>a. deletes_object R (QTcpSocket_class, a) (delete_QTcpSocket N a)) \<and>
     (\<forall>a. deletes_object R (QWebSocket_class, a) (delete_QWebSocket N a)) \<and>
     (\<forall>a s p. held R p s \<longrightarrow> p \<noteq> (QTcpServer_class, a) \<longrightarrow> \<not> child_of R p (QTcpServer_class, a) s \<longrightarrow>
        kept R p s (snd (delete_QTcpServer N a s))) \<and>
     (\<forall>a s p. child_of R p (QTcpServer_class, a) s \<longrightarrow> \<not> alive R p (snd (delete_QTcpServer N a s)))"

lemma network_api_okD:
  assumes "network_api_ok R N"
  shows "makes_object_or_fails R QTcpSocket_class (always (new_QTcpSocket N))"
    "makes_object_or_fails R QTcpServer_class (always (new_QTcpServer N))"
    "makes_object_or_fails R QWebSocket_class (always (new_QWebSocket N))"
    "makes_object_or_fails R QTcpSocket_class (nextPendingConnection N a)"
    "keeps_objects R (bind_address N a x)" "keeps_objects R (connectToHost N a x n)"
    "keeps_objects R (waitForConnected N a)" "keeps_objects R (isOpen N a)" "keeps_objects R (read_bytes N a n)"
    "keeps_objects R (readAll N a)" "keeps_objects R (write_bytes N a x)" "keeps_objects R (close_socket N a)"
    "keeps_objects R (listen_any N a n)" "keeps_objects R (is_connected_state N a)"
    "keeps_objects R (open_url N a x n)" "keeps_objects R (run_event_loop N a)" "keeps_objects R (sleep_usec N n)"
    "keeps_objects R (setSslConfiguration N a conf)" "keeps_objects R (close_web_socket N a)"
    "keeps_objects R (sendTextMessage N a x)" "keeps_objects R (sendBinaryMessage N a x)"
    "keeps_objects R (QTime_start N)" "keeps_objects R (QTime_elapsed N n)" "keeps_objects R (read_certificate N x)"
    "keeps_objects R (read_rsa_key N x)" "deletes_object R (QTcpSocket_class, a) (delete_QTcpSocket N a)"
    "deletes_object R (QWebSocket_class, a) (delete_QWebSocket N a)"
  using assms by (simp_all add: network_api_ok_def makes_always)

text \<open>Calls in a row, and a loop of calls, keep what each call keeps.\<close>

lemma keeps_Pair: "keeps_objects R (Pair ())"
  by (simp add: keeps_objects_def kept_same)

lemma keeps_then:
  "keeps_objects R f \<Longrightarrow> (\<And>r. keeps_objects R (g r)) \<Longrightarrow> keeps_objects R (\<lambda>s. case f s of (r, s1) \<Rightarrow> g r s1)"
  unfolding keeps_objects_def case_prod_beta by (blast intro: kept_trans kept_held)

lemma keeps_wait_loop:
  "wait_loop test again limit s = Some r \<Longrightarrow> keeps_objects R test \<Longrightarrow> keeps_objects R again \<Longrightarrow> held R p s \<Longrightarrow>
   kept R p s (snd r)"
proof (induction arbitrary: R p rule: wait_loop.raw_induct [rotated, consumes 1])
  case (1 loop test again limit s r)
  obtain ok s1 where t: "test s = (ok, s1)" by fastforce
  obtain e s2 where a: "again s1 = (e, s2)" by fastforce
  have s1: "kept R p s s1" using 1(3,5) t unfolding keeps_objects_def by (metis snd_conv)
  moreover have "kept R p s1 s2" using 1(4) a kept_held [OF s1] unfolding keeps_objects_def by (metis snd_conv)
  ultimately have s2: "kept R p s s2" by (rule kept_trans)
  have "r = (True, s1) \<or> r = (False, s2) \<or> loop test again limit s2 = Some r"
    using 1(2) t a by (auto split: if_splits)
  with s1 s2 show ?case using 1(1) [of test again limit s2 r R p] 1(3,4) kept_held [OF s2] kept_trans [OF s2] by auto
qed

lemma sound_wait_until:
  assumes "sound_userdata R table cs L" "keeps_objects R test" "keeps_objects R again"
    and "\<And>ok L. sound_userdata R table cs L \<Longrightarrow> post (sound_userdata R table cs) (k ok L)"
  shows "post (sound_userdata R table cs) (wait_until (wait_loop test again limit) k L)"
proof (cases "wait_loop test again limit (world L)")
  case (Some r)
  have "sound_userdata R table cs (L\<lparr>world := snd r\<rparr>)"
    using assms(1) keeps_wait_loop [OF Some assms(2,3)] owned_world [of R cs L "snd r"]
    by (simp add: sound_userdata_def)
  then show ?thesis using assms(4) Some by (simp add: wait_until_def case_prod_beta)
qed (simp add: wait_until_def)

lemmas network_defs = network_tcp_client_def tcp_socket_connect_def tcp_socket_read_def tcp_socket_read_all_def
  tcp_socket_write_def tcp_socket_close_def network_tcp_server_def tcp_server_listen_def
  tcp_server_get_connection_def network_web_socket_def configure_ssl_def web_socket_open_def
  web_socket_close_def web_socket_write_def web_socket_binarywrite_def

lemma luaopen_network_sound:
  assumes "network_api_ok R N" "f \<in> set (library_functions (luaopen_network R N))"
    and "map_of table TcpSocket_name = Some QTcpSocket_class" "map_of table TcpServer_name = Some QTcpServer_class"
    and "map_of table WebSocket_name = Some QWebSocket_class" "sound_userdata R table cs L"
  shows "post (sound_userdata R table cs) (f L)"
proof -
  note api = network_api_okD [OF assms(1)]
  have again: "keeps_objects R (connect_again N a x n t)" "keeps_objects R (open_again N a x n t)" for a x n t
    unfolding connect_again_def open_again_def by (intro keeps_then api)+
  have source: "keeps_objects R (case source of None \<Rightarrow> Pair () | Some address \<Rightarrow> bind_address N a address)" for source a
    by (cases source) (simp_all add: keeps_Pair api)
  have "f \<in> {network_tcp_client N, network_tcp_server N, network_web_socket N, tcp_server_listen R N,
      tcp_server_get_connection R N, tcp_socket_connect R N, tcp_socket_read R N, tcp_socket_read_all R N,
      tcp_socket_write R N, tcp_socket_close R N, web_socket_open R N, web_socket_close R N, web_socket_write R N,
      web_socket_binarywrite R N}"
    using assms(2) by (auto simp: set_library_functions luaopen_network_def)
  then show ?thesis
    using assms(3-6)
    by (elim insertE emptyE)
      (auto simp: network_defs Let_def intro!: post_rules sound_wait_until api again source)
qed

lemma luaopen_network_finalizers:
  assumes "network_api_ok R N" "library_finalizer (luaopen_network R N) name = Some f"
    and "map_of table TcpSocket_name = Some QTcpSocket_class" "map_of table TcpServer_name = Some QTcpServer_class"
    and "map_of table WebSocket_name = Some QWebSocket_class"
    and "{QTcpSocket_class, QTcpServer_class, QWebSocket_class} \<subseteq> set cs"
    and "sound_userdata R table cs L" "stack L = [LUserdata u]" "userdata L u = Some (Some name, p)"
    and "name = TcpServer_name \<Longrightarrow> childless R cs L u"
  shows "post (\<lambda>L'. sound_userdata R table cs (without u L')) (f L)"
proof -
  consider "name = TcpServer_name" "f = tcp_server_delete R N" | "name = TcpSocket_name" "f = tcp_socket_delete R N"
    | "name = WebSocket_name" "f = web_socket_delete R N"
    using assms(2) by (auto simp: library_finalizer_def luaopen_network_def split: if_splits)
  then show ?thesis
  proof cases
    case 1
    have p: "p = (QTcpServer_class, snd p)"
      using assms(4,7,9) 1(1) unfolding sound_userdata_def typed_userdata_def by (metis prod.collapse)
    have ow: "owned R cs L" using assms(7) by (simp add: sound_userdata_def)
    have "kept R q (world L) (snd (delete_QTcpServer N (snd p) (world L)))"
      if q: "userdata L v = Some (n, q)" "fst q \<in> set cs" "q \<noteq> p" "held R q (world L)" for v n q
      using childlessD [OF assms(10) [OF 1(1)] assms(9) ow q(1,2)] p q(3,4) assms(1) unfolding network_api_ok_def by metis
    then show ?thesis
      unfolding 1(2) tcp_server_delete_def
      using assms(4,6) 1(1) by (intro sound_delete [OF assms(7,8) assms(9) [unfolded 1(1)]]) auto
  next
    case 2
    show ?thesis
      unfolding 2(2) tcp_socket_delete_def
      using assms(3,6) network_api_okD(26) [OF assms(1)]
      by (intro sound_deletes [OF assms(7,8) assms(9) [unfolded 2(1)]]) auto
  next
    case 3
    show ?thesis
      unfolding 3(2) web_socket_delete_def
      using assms(5,6) network_api_okD(27) [OF assms(1)]
      by (intro sound_deletes [OF assms(7,8) assms(9) [unfolded 3(1)]]) auto
  qed
qed

section \<open>Waiting ends\<close>

text \<open>If every round takes a millisecond on the clock, the loop ends.\<close>

lemma wait_loop_ends:
  fixes clock :: "'s \<Rightarrow> int"
  assumes "\<And>s. clock s + 1 \<le> clock (snd (again (snd (test s))))" "\<And>s. fst (again s) = clock (snd (again s)) - start"
  shows "\<exists>ok s'. wait_loop test again limit s = Some (ok, s') \<and> (\<not> ok \<longrightarrow> limit < clock s' - start)"
proof (induction "nat (limit + start + 1 - clock s)" arbitrary: s rule: less_induct)
  case less
  obtain ok s1 where t: "test s = (ok, s1)" by fastforce
  obtain e s2 where a: "again s1 = (e, s2)" by fastforce
  note step = wait_loop.simps [of test again limit s]
  have e: "e = clock s2 - start" using assms(2) [of s1] a by simp
  show ?case
  proof (cases "ok \<or> limit < e")
    case True
    then show ?thesis by (subst step) (auto simp: t a e)
  next
    case False
    have "clock s + 1 \<le> clock s2" using assms(1) [of s] t a by simp
    with False e have "nat (limit + start + 1 - clock s2) < nat (limit + start + 1 - clock s)" by linarith
    from less [OF this] False show ?thesis by (subst step) (simp add: t a)
  qed
qed

section \<open>Qt in the small world\<close>

definition accept_pending :: "nat \<Rightarrow> small_world \<Rightarrow> nat option \<times> small_world" where
  "accept_pending a w =
     (case filter (\<lambda>c. ((QTcpSocket_class, c), (QTcpServer_class, a)) \<in> set (parents w) \<and> (QTcpSocket_class, c) \<in> set (objects w)) (pending_sockets w) of
        [] \<Rightarrow> (None, w)
      | c # cs \<Rightarrow> (Some c, w\<lparr>pending_sockets := filter (\<lambda>d. d \<noteq> c) (pending_sockets w)\<rparr>))"

definition delete_server :: "nat \<Rightarrow> small_world \<Rightarrow> unit \<times> small_world" where
  "delete_server a w = ((), w\<lparr>objects := filter (\<lambda>p. p \<noteq> (QTcpServer_class, a) \<and>
     \<not> (fst p = QTcpSocket_class \<and> (p, (QTcpServer_class, a)) \<in> set (parents w))) (objects w)\<rparr>)"

definition small_network :: "small_world network_api" where
  "small_network = \<lparr>new_QTcpSocket = small_new QTcpSocket_class, bind_address = (\<lambda>a x. Pair ()),
     connectToHost = (\<lambda>a x n. Pair ()), waitForConnected = (\<lambda>a. Pair True), isOpen = (\<lambda>a. Pair False),
     read_bytes = (\<lambda>a n. Pair []), readAll = (\<lambda>a. Pair []), write_bytes = (\<lambda>a x. Pair 0), close_socket = (\<lambda>a. Pair ()),
     delete_QTcpSocket = (\<lambda>a. small_delete (QTcpSocket_class, a)), new_QTcpServer = small_new QTcpServer_class,
     listen_any = (\<lambda>a n. Pair True), nextPendingConnection = accept_pending, delete_QTcpServer = delete_server,
     new_QWebSocket = small_new QWebSocket_class,
     is_connected_state = (\<lambda>a. Pair True), open_url = (\<lambda>a x n. Pair ()), run_event_loop = (\<lambda>a. Pair ()),
     sleep_usec = (\<lambda>n. Pair ()), setSslConfiguration = (\<lambda>a c. Pair ()), close_web_socket = (\<lambda>a. Pair ()),
     sendTextMessage = (\<lambda>a x. Pair 0), sendBinaryMessage = (\<lambda>a x. Pair 0),
     delete_QWebSocket = (\<lambda>a. small_delete (QWebSocket_class, a)), QTime_start = Pair 0, QTime_elapsed = (\<lambda>n. Pair 0),
     supportedCiphers = [], cipher_name = (\<lambda>x. x), read_certificate = (\<lambda>x. Pair []), read_rsa_key = (\<lambda>x. Pair [])\<rparr>"

lemma accept_pending_Some:
  assumes "accept_pending a w = (Some c, w')"
  shows "(QTcpSocket_class, c) \<in> set (objects w)" "c \<in> set (pending_sockets w)"
    "w' = w\<lparr>pending_sockets := filter (\<lambda>d. d \<noteq> c) (pending_sockets w)\<rparr>"
proof -
  let ?waiting = "filter (\<lambda>c. ((QTcpSocket_class, c), (QTcpServer_class, a)) \<in> set (parents w) \<and>
      (QTcpSocket_class, c) \<in> set (objects w)) (pending_sockets w)"
  obtain cs where cs: "?waiting = c # cs" "w' = w\<lparr>pending_sockets := filter (\<lambda>d. d \<noteq> c) (pending_sockets w)\<rparr>"
    using assms by (auto simp: accept_pending_def split: list.splits)
  then show "w' = w\<lparr>pending_sockets := filter (\<lambda>d. d \<noteq> c) (pending_sockets w)\<rparr>" by simp
  have "c \<in> set ?waiting" unfolding cs(1) by simp
  then show "(QTcpSocket_class, c) \<in> set (objects w)" "c \<in> set (pending_sockets w)" by simp_all
qed

lemma accept_pending_makes: "makes_object_or_fails small_runtime QTcpSocket_class (accept_pending a)"
proof -
  have "kept small_runtime p w (snd (accept_pending a w))" if "held small_runtime p w" for p w
    using that by (auto simp: small_held small_kept accept_pending_def split: list.split)
  moreover have "\<not> held small_runtime (QTcpSocket_class, c) w \<and> held small_runtime (QTcpSocket_class, c) (snd (accept_pending a w)) \<and>
      \<not> child_of small_runtime q (QTcpSocket_class, c) (snd (accept_pending a w))" if made: "fst (accept_pending a w) = Some c" for c q w
  proof -
    obtain w' where w': "accept_pending a w = (Some c, w')" using made by (cases "accept_pending a w") simp
    show ?thesis using accept_pending_Some [OF w'] by (simp add: w' small_held) (simp add: small_runtime_def)
  qed
  ultimately show ?thesis unfolding makes_object_or_fails_def keeps_objects_def by blast
qed

lemma small_network_ok: "network_api_ok small_runtime small_network"
proof -
  have "kept small_runtime p w (snd (delete_server a w))"
    if "held small_runtime p w" "p \<noteq> (QTcpServer_class, a)" "\<not> child_of small_runtime p (QTcpServer_class, a) w" for a w p
    using that by (auto simp: small_held small_kept delete_server_def) (simp add: small_runtime_def)
  moreover have "\<not> alive small_runtime p (snd (delete_server a w))" if "child_of small_runtime p (QTcpServer_class, a) w"
    for a w p
    using that by (simp add: small_runtime_def delete_server_def)
  ultimately show ?thesis
    unfolding network_api_ok_def small_network_def network_api.simps
    using accept_pending_makes small_makes small_deletes by (intro conjI allI impI small_keeps) simp_all
qed

section \<open>Properties\<close>

text \<open>The stack of a call \<open>socket:connect(ip, port, ms)\<close>.\<close>

abbreviation connect_args :: "nat \<Rightarrow> string \<Rightarrow> int \<Rightarrow> int \<Rightarrow> lua_value list" where
  "connect_args u ip port ms \<equiv> [LUserdata u, LString ip, LNumber (of_int port), LNumber (of_int ms)]"

text \<open>The clock of the libraries in milliseconds, and that every attempt on the socket \<open>a\<close> takes at least one.\<close>

definition attempts_take_time :: "'s network_api \<Rightarrow> ('s \<Rightarrow> int) \<Rightarrow> nat \<Rightarrow> bool" where
  "attempts_take_time N clock a \<longleftrightarrow>
     (\<forall>s. fst (QTime_start N s) = clock (snd (QTime_start N s))) \<and>
     (\<forall>t s. fst (QTime_elapsed N t s) = clock (snd (QTime_elapsed N t s)) - t) \<and>
     (\<forall>ip port t s. clock s + 1 \<le> clock (snd (connect_again N a ip port t (snd (waitForConnected N a s)))))"


text \<open>Reading from a socket that is not open gives the script back the size it asked for, as a number,
  instead of data or an error.\<close>

theorem read_closed_returns_size:
  assumes "userdata L u = Some (Some TcpSocket_name, (QTcpSocket_class, a))" "alive R (QTcpSocket_class, a) (world L)"
    and "\<not> fst (isOpen N a (world L))" "is_long n"
  shows "returned (tcp_socket_read R N (L\<lparr>stack := [LUserdata u, LNumber (of_int n)]\<rparr>)) = Some [LNumber (of_int n)]"
  using assms
  by (simp add: tcp_socket_read_def luaL_checkudata_def luaL_checkinteger_def luaL_checknumber_def number_at_def
      arg_def invoke_def on_object_def perform_def case_prod_beta)

text \<open>A server must not be collected before its connections: once it is, the finalizer of a connection
  deletes an object that its server has deleted already.\<close>

theorem server_collected_first:
  assumes "network_api_ok R N" "child_of R (QTcpSocket_class, c) (QTcpServer_class, a) (world L)" "alive R (QTcpServer_class, a) (world L)" "u \<noteq> v"
    and "userdata L u = Some (Some TcpServer_name, (QTcpServer_class, a))"
    and "userdata L v = Some (Some TcpSocket_name, (QTcpSocket_class, c))"
  shows "\<exists>L'. tcp_server_delete R N (L\<lparr>stack := [LUserdata u]\<rparr>) = Returns 0 L' \<and>
     tcp_socket_delete R N ((without u L')\<lparr>stack := [LUserdata v]\<rparr>) = Ub"
proof -
  obtain s where s: "delete_QTcpServer N a (world L) = ((), s)" by (cases "delete_QTcpServer N a (world L)") simp
  then have "\<not> alive R (QTcpSocket_class, c) s"
    using assms(1,2) unfolding network_api_ok_def by (metis snd_conv)
  with s assms(3-6) show ?thesis
    by (simp add: tcp_server_delete_def tcp_socket_delete_def luaL_checkudata_def arg_def invoke_def on_object_def
        perform_def)
qed

lemma removeDuplicates_eq: "removeDuplicates xs = rev (remdups (rev xs))"
proof (induction xs rule: removeDuplicates.induct)
  case (2 x xs)
  have "rev (remdups (rev (x # xs))) = x # filter (\<lambda>y. y \<noteq> x) (rev (remdups (rev xs)))"
    by (induction xs rule: rev_induct) (auto simp: filter_id_conv)
  moreover have "filter (\<lambda>y. y \<noteq> x) (rev (remdups (rev xs))) = rev (remdups (rev (filter (\<lambda>y. y \<noteq> x) xs)))"
    by (simp add: rev_filter remdups_filter)
  ultimately show ?case using 2 by simp
qed simp

lemma append_cyphers_eq:
  "append_cyphers N names cyphers = cyphers @ filter (\<lambda>n. n \<noteq> []) (map (cipher_name N) names)"
  by (induction names arbitrary: cyphers) auto


text \<open>A network that never connects, over a clock.\<close>

definition dead_network :: "int network_api" where
  "dead_network = \<lparr>new_QTcpSocket = Pair 0, bind_address = (\<lambda>a x. Pair ()),
     connectToHost = (\<lambda>a x n s. ((), s + 500)), waitForConnected = (\<lambda>a. Pair False), isOpen = (\<lambda>a. Pair False),
     read_bytes = (\<lambda>a n. Pair []), readAll = (\<lambda>a. Pair []), write_bytes = (\<lambda>a x. Pair 0), close_socket = (\<lambda>a. Pair ()),
     delete_QTcpSocket = (\<lambda>a. Pair ()), new_QTcpServer = Pair 0,
     listen_any = (\<lambda>a n. Pair True), nextPendingConnection = (\<lambda>a. Pair None), delete_QTcpServer = (\<lambda>a. Pair ()),
     new_QWebSocket = Pair 0,
     is_connected_state = (\<lambda>a. Pair True), open_url = (\<lambda>a x n. Pair ()), run_event_loop = (\<lambda>a. Pair ()),
     sleep_usec = (\<lambda>n. Pair ()), setSslConfiguration = (\<lambda>a c. Pair ()), close_web_socket = (\<lambda>a. Pair ()),
     sendTextMessage = (\<lambda>a x. Pair 0), sendBinaryMessage = (\<lambda>a x. Pair 0),
     delete_QWebSocket = (\<lambda>a. Pair ()), QTime_start = (\<lambda>s. (s, s)), QTime_elapsed = (\<lambda>t s. (s - t, s)),
     supportedCiphers = [], cipher_name = (\<lambda>x. x), read_certificate = (\<lambda>x. Pair []), read_rsa_key = (\<lambda>x. Pair [])\<rparr>"

definition clock_runtime :: "int runtime" where
  "clock_runtime = \<lparr>string_number = (\<lambda>s. None), number_string = (\<lambda>x. ''0''), alive = (\<lambda>p w. True),
     unclaimed = (\<lambda>p w. False), child_of = (\<lambda>q p w. False)\<rparr>"

definition one_socket :: "'s \<Rightarrow> 's lua" where
  "one_socket s = \<lparr>stack = [], userdata = [0 \<mapsto> (Some TcpSocket_name, (QTcpSocket_class, 0))], next_userdata = 1, world = s\<rparr>"


theorem read_closed_returns_size_witness:
  "returned (tcp_socket_read clock_runtime dead_network ((one_socket 0)\<lparr>stack := [LUserdata 0, LNumber (of_int 1024)]\<rparr>)) =
     Some [LNumber (of_int 1024)]"
  by (rule read_closed_returns_size [where a = 0])
    (simp_all add: one_socket_def clock_runtime_def dead_network_def is_long_def)

text \<open>A server and one of its connections.\<close>

definition server_and_socket :: "small_world lua" where
  "server_and_socket = \<lparr>stack = [], userdata = [0 \<mapsto> (Some TcpServer_name, (QTcpServer_class, 5)),
       1 \<mapsto> (Some TcpSocket_name, (QTcpSocket_class, 6))], next_userdata = 2,
     world = small_start\<lparr>objects := [(QTcpServer_class, 5), (QTcpSocket_class, 6)], parents := [((QTcpSocket_class, 6), (QTcpServer_class, 5))]\<rparr>\<rparr>"

theorem server_collected_first_witness:
  "\<exists>L'. tcp_server_delete small_runtime small_network (server_and_socket\<lparr>stack := [LUserdata 0]\<rparr>) = Returns 0 L' \<and>
     tcp_socket_delete small_runtime small_network ((without 0 L')\<lparr>stack := [LUserdata 1]\<rparr>) = Ub"
  by (rule server_collected_first [OF small_network_ok, where a = 5 and c = 6])
    (simp_all add: server_and_socket_def small_network_def small_runtime_def)

end
