(* ===== verification/Lua_Timers.thy ===== *)
theory Lua_Timers
  imports Lua_Runtime
begin

text \<open>
  The Lua bindings of Qt's timers and clock (\<open>timers.cc\<close>, \<open>qdatetime.cc\<close>). \<open>QTimer\<close> and \<open>QDateTime\<close> are
  parameters over the state of the libraries.
\<close>

section \<open>Timers\<close>

record 's timer_api =
  new_QTimer :: "'s \<Rightarrow> nat \<times> 's"
  setTimerType_precise :: "nat \<Rightarrow> 's \<Rightarrow> unit \<times> 's"
  start_msec :: "nat \<Rightarrow> int \<Rightarrow> 's \<Rightarrow> unit \<times> 's"
  start_again :: "nat \<Rightarrow> 's \<Rightarrow> unit \<times> 's"
  stop_timer :: "nat \<Rightarrow> 's \<Rightarrow> unit \<times> 's"
  get_interval :: "nat \<Rightarrow> 's \<Rightarrow> int \<times> 's"
  setInterval :: "nat \<Rightarrow> int \<Rightarrow> 's \<Rightarrow> unit \<times> 's"
  setSingleShot :: "nat \<Rightarrow> bool \<Rightarrow> 's \<Rightarrow> unit \<times> 's"
  delete_QTimer :: "nat \<Rightarrow> 's \<Rightarrow> unit \<times> 's"

abbreviation Timer_name :: string where
  "Timer_name \<equiv> ''timers.Timer''"

abbreviation checktimer :: "(nat \<Rightarrow> 's cfun) \<Rightarrow> 's cfun" where
  "checktimer \<equiv> luaL_checkudata 1 Timer_name QTimer_class"

definition timer_create :: "'s runtime \<Rightarrow> 's timer_api \<Rightarrow> 's cfun" where
  "timer_create R T =
     create_object (always (new_QTimer T)) QTimer_class Timer_name
       (\<lambda>timer. invoke R (QTimer_class, timer) (setTimerType_precise T timer) (\<lambda>_. Returns 1)) (\<lambda>L. Ub)"

definition timer_start :: "'s runtime \<Rightarrow> 's timer_api \<Rightarrow> 's cfun" where
  "timer_start R T =
     checktimer (\<lambda>timer L.
       if lua_isnumber R 2 L then
         as_int (lua_tonumberx R 2 L) (\<lambda>msec.
           invoke R (QTimer_class, timer) (start_msec T timer msec) (\<lambda>_. Returns 0)) L
       else invoke R (QTimer_class, timer) (start_again T timer) (\<lambda>_. Returns 0) L)"

definition timer_stop :: "'s runtime \<Rightarrow> 's timer_api \<Rightarrow> 's cfun" where
  "timer_stop R T =
     checktimer (\<lambda>timer. invoke R (QTimer_class, timer) (stop_timer T timer) (\<lambda>_. Returns 0))"

definition timer_reset :: "'s runtime \<Rightarrow> 's timer_api \<Rightarrow> 's cfun" where
  "timer_reset R T =
     checktimer (\<lambda>timer.
       invoke R (QTimer_class, timer) (stop_timer T timer) (\<lambda>_.
       invoke R (QTimer_class, timer) (start_again T timer) (\<lambda>_. Returns 0)))"

definition timer_interval :: "'s runtime \<Rightarrow> 's timer_api \<Rightarrow> 's cfun" where
  "timer_interval R T =
     checktimer (\<lambda>timer. invoke R (QTimer_class, timer) (get_interval T timer) (\<lambda>n L.
       Returns 1 (push (LNumber (of_int n)) L)))"

definition timer_set_interval :: "'s runtime \<Rightarrow> 's timer_api \<Rightarrow> 's cfun" where
  "timer_set_interval R T =
     checktimer (\<lambda>timer. luaL_checknumber R 2 (\<lambda>x. as_int x (\<lambda>msec.
       invoke R (QTimer_class, timer) (setInterval T timer msec) (\<lambda>_. Returns 0))))"

definition timer_set_single_shot :: "'s runtime \<Rightarrow> 's timer_api \<Rightarrow> 's cfun" where
  "timer_set_single_shot R T =
     checktimer (\<lambda>timer L.
       invoke R (QTimer_class, timer) (setSingleShot T timer (lua_toboolean 2 L)) (\<lambda>_. Returns 0) L)"

definition timer_delete :: "'s runtime \<Rightarrow> 's timer_api \<Rightarrow> 's cfun" where
  "timer_delete R T =
     checktimer (\<lambda>timer. invoke R (QTimer_class, timer) (delete_QTimer T timer) (\<lambda>_. Returns 0))"

definition luaopen_timers :: "'s runtime \<Rightarrow> 's timer_api \<Rightarrow> 's lua_library" where
  "luaopen_timers R T = \<lparr>
     module_functions = [(''Timer'', timer_create R T)],
     metatables = [(Timer_name,
       [(''start'', timer_start R T), (''interval'', timer_interval R T), (''stop'', timer_stop R T),
        (''reset'', timer_reset R T), (''setInterval'', timer_set_interval R T),
        (''setSingleShot'', timer_set_single_shot R T)],
       Some (timer_delete R T))] \<rparr>"

section \<open>Date and time\<close>

text \<open>\<open>now\<close> formats the current time; \<open>qPrintable\<close> gives its C string.\<close>

definition qdatetime_get_datetime :: "'s runtime \<Rightarrow> (string \<Rightarrow> 's \<Rightarrow> string) \<Rightarrow> 's cfun" where
  "qdatetime_get_datetime R now =
     luaL_checkstring R 1 (\<lambda>format_raw L. Returns 1 (push (LString (c_str (now format_raw (world L)))) L))"

definition luaopen_qdatetime :: "'s runtime \<Rightarrow> (string \<Rightarrow> 's \<Rightarrow> string) \<Rightarrow> 's lua_library" where
  "luaopen_qdatetime R now =
     \<lparr>module_functions = [(''get_datetime'', qdatetime_get_datetime R now)], metatables = []\<rparr>"

section \<open>What the bindings rely on\<close>

definition timer_api_ok :: "'s runtime \<Rightarrow> 's timer_api \<Rightarrow> bool" where
  "timer_api_ok R T \<longleftrightarrow>
     makes_object R QTimer_class (new_QTimer T) \<and>
     (\<forall>a. keeps_objects R (setTimerType_precise T a)) \<and> (\<forall>a n. keeps_objects R (start_msec T a n)) \<and>
     (\<forall>a. keeps_objects R (start_again T a)) \<and> (\<forall>a. keeps_objects R (stop_timer T a)) \<and>
     (\<forall>a. keeps_objects R (get_interval T a)) \<and> (\<forall>a n. keeps_objects R (setInterval T a n)) \<and>
     (\<forall>a b. keeps_objects R (setSingleShot T a b)) \<and>
     (\<forall>a. deletes_object R (QTimer_class, a) (delete_QTimer T a))"

lemmas timer_defs = timer_create_def timer_start_def timer_stop_def timer_reset_def timer_interval_def
  timer_set_interval_def timer_set_single_shot_def

lemma luaopen_timers_sound:
  assumes "timer_api_ok R T" "f \<in> set (library_functions (luaopen_timers R T))"
    and "map_of table Timer_name = Some QTimer_class" "sound_userdata R table cs L"
  shows "post (sound_userdata R table cs) (f L)"
proof -
  have api: "makes_object_or_fails R QTimer_class (always (new_QTimer T))"
    "keeps_objects R (setTimerType_precise T a)" "keeps_objects R (start_msec T a n)"
    "keeps_objects R (start_again T a)" "keeps_objects R (stop_timer T a)" "keeps_objects R (get_interval T a)"
    "keeps_objects R (setInterval T a n)" "keeps_objects R (setSingleShot T a b)" for a n b
    using assms(1) by (auto simp: timer_api_ok_def makes_always)
  have "f \<in> {timer_create R T, timer_start R T, timer_interval R T, timer_stop R T, timer_reset R T,
      timer_set_interval R T, timer_set_single_shot R T}"
    using assms(2) by (auto simp: set_library_functions luaopen_timers_def)
  then show ?thesis
    using assms(3,4) by (elim insertE emptyE) (auto simp: timer_defs intro!: post_rules api)
qed

lemma timer_delete_sound:
  assumes "timer_api_ok R T" "map_of table Timer_name = Some QTimer_class" "QTimer_class \<in> set cs"
    and "sound_userdata R table cs L" "stack L = [LUserdata u]" "userdata L u = Some (Some Timer_name, p)"
  shows "post (\<lambda>L'. sound_userdata R table cs (without u L')) (timer_delete R T L)"
  unfolding timer_delete_def
  by (rule sound_deletes [OF assms(4-6,2,3)]) (use assms(1) in \<open>simp add: timer_api_ok_def\<close>)

end
