(* ===== verification/Lua_OpenSSL.thy ===== *)
theory Lua_OpenSSL
  imports Lua_Runtime
begin

text \<open>
  The Lua bindings of OpenSSL (\<open>luaopenssl/lua_openssl.cc\<close>): contexts, connections and memory buffers
  (BIOs). OpenSSL is a parameter over the state of the libraries; its build options are fields of the
  parameter. What is printed for the user is not modelled, except the lines of the info callback.
\<close>

section \<open>OpenSSL\<close>

datatype ssl_method = SSLv23_method | TLSv1_2_method | TLS_method | SSLv3_method | DTLS_method
datatype bio_method = BIO_s_mem | BIO_f_ssl
datatype verify_mode = SSL_VERIFY_NONE | SSL_VERIFY_PEER
datatype info_role = Server_info | Client_info

record 's ssl_api =
  openssl_1_1 :: bool
  no_ssl3 :: bool
  ssl_cb_loop :: int
  ssl_cb_handshake_start :: int
  ssl_cb_handshake_done :: int
  SSL_library_init :: "'s \<Rightarrow> unit \<times> 's"
  SSL_load_error_strings :: "'s \<Rightarrow> unit \<times> 's"
  ERR_load_BIO_strings :: "'s \<Rightarrow> unit \<times> 's"
  OpenSSL_add_all_algorithms :: "'s \<Rightarrow> unit \<times> 's"
  EVP_cleanup :: "'s \<Rightarrow> unit \<times> 's"
  ERR_free_strings :: "'s \<Rightarrow> unit \<times> 's"
  ERR_print_errors :: "'s \<Rightarrow> unit \<times> 's"
  SSL_CTX_new :: "ssl_method \<Rightarrow> 's \<Rightarrow> nat option \<times> 's"
  SSL_CTX_set_cipher_list :: "nat \<Rightarrow> string \<Rightarrow> 's \<Rightarrow> int \<times> 's"
  SSL_CTX_use_certificate_file :: "nat \<Rightarrow> string \<Rightarrow> 's \<Rightarrow> int \<times> 's"
  SSL_CTX_use_PrivateKey_file :: "nat \<Rightarrow> string \<Rightarrow> 's \<Rightarrow> int \<times> 's"
  SSL_CTX_check_private_key :: "nat \<Rightarrow> 's \<Rightarrow> int \<times> 's"
  SSL_CTX_load_verify_locations :: "nat \<Rightarrow> string \<Rightarrow> 's \<Rightarrow> int \<times> 's"
  SSL_CTX_set_verify :: "nat \<Rightarrow> verify_mode \<Rightarrow> 's \<Rightarrow> unit \<times> 's"
  SSL_CTX_free :: "nat \<Rightarrow> 's \<Rightarrow> unit \<times> 's"
  SSL_new :: "nat \<Rightarrow> 's \<Rightarrow> nat option \<times> 's"
  SSL_free :: "nat \<Rightarrow> 's \<Rightarrow> unit \<times> 's"
  BIO_new :: "bio_method \<Rightarrow> 's \<Rightarrow> nat option \<times> 's"
  BIO_set_mem_eof_return :: "nat \<Rightarrow> int \<Rightarrow> 's \<Rightarrow> unit \<times> 's"
  SSL_set_info_callback :: "nat \<Rightarrow> info_role \<Rightarrow> 's \<Rightarrow> unit \<times> 's"
  SSL_set_bio :: "nat \<Rightarrow> nat \<Rightarrow> nat \<Rightarrow> 's \<Rightarrow> unit \<times> 's"
  SSL_set_accept_state :: "nat \<Rightarrow> 's \<Rightarrow> unit \<times> 's"
  SSL_set_connect_state :: "nat \<Rightarrow> 's \<Rightarrow> unit \<times> 's"
  SSL_is_init_finished :: "nat \<Rightarrow> 's \<Rightarrow> int \<times> 's"
  SSL_do_handshake :: "nat \<Rightarrow> 's \<Rightarrow> int \<times> 's"
  SSL_get_error :: "nat \<Rightarrow> int \<Rightarrow> 's \<Rightarrow> int \<times> 's"
  SSL_read :: "nat \<Rightarrow> int \<Rightarrow> 's \<Rightarrow> (int \<times> string) \<times> 's"
  SSL_pending :: "nat \<Rightarrow> 's \<Rightarrow> int \<times> 's"
  SSL_write :: "nat \<Rightarrow> string \<Rightarrow> int \<Rightarrow> 's \<Rightarrow> int \<times> 's"
  SSL_get_peer_certificate :: "nat \<Rightarrow> 's \<Rightarrow> (string \<times> string) option \<times> 's"
  BIO_ctrl_pending :: "nat \<Rightarrow> 's \<Rightarrow> int \<times> 's"
  BIO_read :: "nat \<Rightarrow> int \<Rightarrow> 's \<Rightarrow> (int \<times> string) \<times> 's"
  BIO_write :: "nat \<Rightarrow> string \<Rightarrow> int \<Rightarrow> 's \<Rightarrow> int \<times> 's"

text \<open>One call after the other.\<close>

definition then_call :: "('s \<Rightarrow> 'r \<times> 's) \<Rightarrow> ('r \<Rightarrow> 's \<Rightarrow> 'q \<times> 's) \<Rightarrow> 's \<Rightarrow> 'q \<times> 's" where
  "then_call f g s = (case f s of (r, s1) \<Rightarrow> g r s1)"

section \<open>Contexts\<close>

definition initOpensslLib :: "'s ssl_api \<Rightarrow> 's \<Rightarrow> unit \<times> 's" where
  "initOpensslLib S =
     then_call (SSL_library_init S) (\<lambda>_. then_call (SSL_load_error_strings S) (\<lambda>_.
     then_call (ERR_load_BIO_strings S) (\<lambda>_. OpenSSL_add_all_algorithms S)))"

definition cleanupOpensslLib :: "'s ssl_api \<Rightarrow> 's \<Rightarrow> unit \<times> 's" where
  "cleanupOpensslLib S = then_call (EVP_cleanup S) (\<lambda>_. ERR_free_strings S)"

text \<open>The security protocols 0 to 3 are automatic, SSL, TLS and DTLS.\<close>

datatype SecurityProtocols = SP_AUTO | SP_SSL | SP_TLS | SP_DTLS

definition SecurityProtocols_of :: "int \<Rightarrow> SecurityProtocols option" where
  "SecurityProtocols_of type =
     (if type = 0 then Some SP_AUTO else if type = 1 then Some SP_SSL else if type = 2 then Some SP_TLS
      else if type = 3 then Some SP_DTLS else None)"

definition protocol_method :: "'s ssl_api \<Rightarrow> int \<Rightarrow> ssl_method option" where
  "protocol_method S type =
     (case SecurityProtocols_of type of
        Some SP_AUTO \<Rightarrow> Some SSLv23_method
      | Some SP_TLS \<Rightarrow> Some (if openssl_1_1 S then TLS_method else TLSv1_2_method)
      | Some SP_SSL \<Rightarrow> if no_ssl3 S then None else Some SSLv3_method
      | Some SP_DTLS \<Rightarrow> Some DTLS_method
      | None \<Rightarrow> None)"

definition newSSLContext :: "'s ssl_api \<Rightarrow> int \<Rightarrow> 's \<Rightarrow> nat option \<times> 's" where
  "newSSLContext S type s =
     (case protocol_method S type of
        None \<Rightarrow> (None, s)
      | Some method \<Rightarrow>
          (case SSL_CTX_new S method s of
             (None, s1) \<Rightarrow> (None, snd (ERR_print_errors S s1))
           | (Some ctx, s1) \<Rightarrow> (Some ctx, s1)))"

text \<open>A call whose result is not 1 has its errors printed.\<close>

definition reported :: "'s ssl_api \<Rightarrow> ('s \<Rightarrow> int \<times> 's) \<Rightarrow> 's \<Rightarrow> int \<times> 's" where
  "reported S f s = (case f s of (res, s1) \<Rightarrow> (res, if res \<noteq> 1 then snd (ERR_print_errors S s1) else s1))"

definition setCipherListIntoSSLContext :: "'s ssl_api \<Rightarrow> nat \<Rightarrow> string \<Rightarrow> 's \<Rightarrow> int \<times> 's" where
  "setCipherListIntoSSLContext S ctx cipherListStr = reported S (SSL_CTX_set_cipher_list S ctx cipherListStr)"

definition addCertificateIntoSSLContext :: "'s ssl_api \<Rightarrow> nat \<Rightarrow> string \<Rightarrow> 's \<Rightarrow> int \<times> 's" where
  "addCertificateIntoSSLContext S ctx certfile = reported S (SSL_CTX_use_certificate_file S ctx certfile)"

definition addPrivateKeyIntoSSLContext :: "'s ssl_api \<Rightarrow> nat \<Rightarrow> string \<Rightarrow> 's \<Rightarrow> int \<times> 's" where
  "addPrivateKeyIntoSSLContext S ctx keyfile = reported S (SSL_CTX_use_PrivateKey_file S ctx keyfile)"

definition checkPrivateKeyFromSSLContext :: "'s ssl_api \<Rightarrow> nat \<Rightarrow> 's \<Rightarrow> int \<times> 's" where
  "checkPrivateKeyFromSSLContext S ctx = reported S (SSL_CTX_check_private_key S ctx)"

definition loadTrustedCACertificates :: "'s ssl_api \<Rightarrow> nat \<Rightarrow> string \<Rightarrow> 's \<Rightarrow> int \<times> 's" where
  "loadTrustedCACertificates S ctx CAfile = reported S (SSL_CTX_load_verify_locations S ctx CAfile)"

text \<open>The callback for the verification of the peer keeps the result OpenSSL came to.\<close>

definition sslVerifyPeer :: "int \<Rightarrow> int" where
  "sslVerifyPeer isPreverifyOk = isPreverifyOk"

definition setVerifyCallbackIntoSSLContext :: "'s ssl_api \<Rightarrow> nat \<Rightarrow> int \<Rightarrow> 's \<Rightarrow> unit \<times> 's" where
  "setVerifyCallbackIntoSSLContext S ctx isCheckClientCertificate =
     (let mode = SSL_VERIFY_PEER;
          mode = (if isCheckClientCertificate = 0 then SSL_VERIFY_NONE else mode)
      in SSL_CTX_set_verify S ctx mode)"

text \<open>\<open>if (res != 1) return 0;\<close> between the steps.\<close>

definition or_fail :: "('s \<Rightarrow> int \<times> 's) \<Rightarrow> ('s \<Rightarrow> int \<times> 's) \<Rightarrow> 's \<Rightarrow> int \<times> 's" where
  "or_fail f g = then_call f (\<lambda>res s1. if res \<noteq> 1 then (0, s1) else g s1)"

definition initSSLContext ::
  "'s ssl_api \<Rightarrow> nat \<Rightarrow> string \<Rightarrow> string \<Rightarrow> string \<Rightarrow> int \<Rightarrow> string \<Rightarrow> 's \<Rightarrow> int \<times> 's" where
  "initSSLContext S ctx cipherListStr certFile keyFile isCheckClientCertificate CAfile =
     or_fail (setCipherListIntoSSLContext S ctx cipherListStr) (
     or_fail (addCertificateIntoSSLContext S ctx certFile) (
     or_fail (addPrivateKeyIntoSSLContext S ctx keyFile) (
     or_fail (checkPrivateKeyFromSSLContext S ctx) (
     let rest = then_call (setVerifyCallbackIntoSSLContext S ctx isCheckClientCertificate) (\<lambda>_. Pair 1)
     in if isCheckClientCertificate = 1 then or_fail (loadTrustedCACertificates S ctx CAfile) rest else rest))))"

definition freeSSLContext :: "'s ssl_api \<Rightarrow> nat \<Rightarrow> 's \<Rightarrow> unit \<times> 's" where
  [simp]: "freeSSLContext S = SSL_CTX_free S"

section \<open>Connections and buffers\<close>

definition newSSL :: "'s ssl_api \<Rightarrow> nat \<Rightarrow> 's \<Rightarrow> nat option \<times> 's" where
  [simp]: "newSSL S = SSL_new S"

definition freeSSL :: "'s ssl_api \<Rightarrow> nat \<Rightarrow> 's \<Rightarrow> unit \<times> 's" where
  [simp]: "freeSSL S = SSL_free S"

datatype BIOTypes = BIO_SOURCE | BIO_FILTER

definition BIOTypes_of :: "int \<Rightarrow> BIOTypes option" where
  "BIOTypes_of type = (if type = 0 then Some BIO_SOURCE else if type = 1 then Some BIO_FILTER else None)"

definition newBIO :: "'s ssl_api \<Rightarrow> int \<Rightarrow> 's \<Rightarrow> nat option \<times> 's" where
  "newBIO S type s =
     (case (case BIOTypes_of type of
              Some BIO_SOURCE \<Rightarrow> BIO_new S BIO_s_mem s | Some BIO_FILTER \<Rightarrow> BIO_new S BIO_f_ssl s | None \<Rightarrow> (None, s)) of
        (None, s1) \<Rightarrow> (None, s1)
      | (Some bio, s1) \<Rightarrow>
          (Some bio, if BIOTypes_of type = Some BIO_SOURCE then snd (BIO_set_mem_eof_return S bio (-1) s1) else s1))"

text \<open>The lines the info callback prints: role and message.\<close>

definition sslInfo :: "int \<Rightarrow> int \<Rightarrow> string \<Rightarrow> string \<Rightarrow> (string \<times> string) list" where
  "sslInfo wher flag name msg = (if and wher flag \<noteq> 0 then [(name, msg)] else [])"

definition sslInfoCallback :: "'s ssl_api \<Rightarrow> int \<Rightarrow> int \<Rightarrow> string \<Rightarrow> (string \<times> string) list" where
  "sslInfoCallback S wher ret name =
     (if ret = 0 then [(''--'', ''SSL Info Callback: error occured.'')]
      else sslInfo wher (ssl_cb_loop S) name ''LOOP'' @
           sslInfo wher (ssl_cb_handshake_start S) name ''HANDSHAKE START'' @
           sslInfo wher (ssl_cb_handshake_done S) name ''HANDSHAKE DONE'')"

definition sslServerInfoCallback :: "'s ssl_api \<Rightarrow> int \<Rightarrow> int \<Rightarrow> (string \<times> string) list" where
  "sslServerInfoCallback S wher ret = sslInfoCallback S wher ret ''server''"

definition sslClientInfoCallback :: "'s ssl_api \<Rightarrow> int \<Rightarrow> int \<Rightarrow> (string \<times> string) list" where
  "sslClientInfoCallback S wher ret = sslInfoCallback S wher ret ''client''"

definition setInfoCallbackForSSL :: "'s ssl_api \<Rightarrow> nat \<Rightarrow> info_role \<Rightarrow> 's \<Rightarrow> unit \<times> 's" where
  [simp]: "setInfoCallbackForSSL S = SSL_set_info_callback S"

definition setBIOSForSSL :: "'s ssl_api \<Rightarrow> nat \<Rightarrow> nat \<Rightarrow> nat \<Rightarrow> 's \<Rightarrow> unit \<times> 's" where
  [simp]: "setBIOSForSSL S = SSL_set_bio S"

definition prepareSSLToHandshake :: "'s ssl_api \<Rightarrow> nat \<Rightarrow> int \<Rightarrow> 's \<Rightarrow> unit \<times> 's" where
  "prepareSSLToHandshake S ssl isServer =
     (if isServer = 1 then SSL_set_accept_state S ssl else SSL_set_connect_state S ssl)"

definition isHandshakeFinished :: "'s ssl_api \<Rightarrow> nat \<Rightarrow> 's \<Rightarrow> int \<times> 's" where
  [simp]: "isHandshakeFinished S = SSL_is_init_finished S"

definition doHandshake :: "'s ssl_api \<Rightarrow> nat \<Rightarrow> 's \<Rightarrow> int \<times> 's" where
  [simp]: "doHandshake S = SSL_do_handshake S"

definition getSSLErrorInfo :: "'s ssl_api \<Rightarrow> nat \<Rightarrow> int \<Rightarrow> 's \<Rightarrow> int \<times> 's" where
  [simp]: "getSSLErrorInfo S = SSL_get_error S"

definition readDecryptedDataFromSSL :: "'s ssl_api \<Rightarrow> nat \<Rightarrow> int \<Rightarrow> 's \<Rightarrow> (int \<times> string) \<times> 's" where
  [simp]: "readDecryptedDataFromSSL S = SSL_read S"

definition checkDecryptedDataInSSL :: "'s ssl_api \<Rightarrow> nat \<Rightarrow> 's \<Rightarrow> int \<times> 's" where
  "checkDecryptedDataInSSL S ssl = then_call (readDecryptedDataFromSSL S ssl 0) (\<lambda>_. SSL_pending S ssl)"

definition writeEncryptedDataIntoSSL :: "'s ssl_api \<Rightarrow> nat \<Rightarrow> string \<Rightarrow> int \<Rightarrow> 's \<Rightarrow> int \<times> 's" where
  [simp]: "writeEncryptedDataIntoSSL S = SSL_write S"

text \<open>The lines printed about the certificate of the peer: its subject and its issuer.\<close>

definition printCertificatesInfoFromSSL :: "'s ssl_api \<Rightarrow> nat \<Rightarrow> 's \<Rightarrow> string list \<times> 's" where
  "printCertificatesInfoFromSSL S ssl =
     then_call (SSL_get_peer_certificate S ssl) (\<lambda>cert. Pair (case cert of
         Some (subject, issuer) \<Rightarrow> [''Certificates:'', ''Subject: '' @ subject, ''Issuer: '' @ issuer]
       | None \<Rightarrow> [''No certificates.'']))"

definition checkDataToReadInBIO :: "'s ssl_api \<Rightarrow> nat \<Rightarrow> 's \<Rightarrow> int \<times> 's" where
  "checkDataToReadInBIO S bio = then_call (BIO_ctrl_pending S bio) (\<lambda>n. Pair (to_int n))"

definition readDatafromBIO :: "'s ssl_api \<Rightarrow> nat \<Rightarrow> int \<Rightarrow> 's \<Rightarrow> (int \<times> string) \<times> 's" where
  [simp]: "readDatafromBIO S = BIO_read S"

definition writeDataIntoBIO :: "'s ssl_api \<Rightarrow> nat \<Rightarrow> string \<Rightarrow> int \<Rightarrow> 's \<Rightarrow> int \<times> 's" where
  [simp]: "writeDataIntoBIO S = BIO_write S"

section \<open>Lua functions\<close>

abbreviation ctx_name :: string where "ctx_name \<equiv> ''openssl.ssl_ctx''"
abbreviation ssl_name :: string where "ssl_name \<equiv> ''openssl.ssl''"
abbreviation bio_name :: string where "bio_name \<equiv> ''openssl.bio''"

abbreviation checkctx :: "(nat \<Rightarrow> 's cfun) \<Rightarrow> 's cfun" where
  "checkctx \<equiv> luaL_checkudata 1 ctx_name SSL_CTX_class"
abbreviation checkssl :: "(nat \<Rightarrow> 's cfun) \<Rightarrow> 's cfun" where
  "checkssl \<equiv> luaL_checkudata 1 ssl_name SSL_class"
abbreviation checkbio :: "nat \<Rightarrow> (nat \<Rightarrow> 's cfun) \<Rightarrow> 's cfun" where
  "checkbio i \<equiv> luaL_checkudata i bio_name BIO_class"

definition openssl_initSslLib :: "'s ssl_api \<Rightarrow> 's cfun" where
  "openssl_initSslLib S = perform (initOpensslLib S) (\<lambda>_. Returns 0)"

definition openssl_cleanupSslLib :: "'s ssl_api \<Rightarrow> 's cfun" where
  "openssl_cleanupSslLib S = perform (cleanupOpensslLib S) (\<lambda>_. Returns 0)"

definition openssl_newSslContext :: "'s runtime \<Rightarrow> 's ssl_api \<Rightarrow> 's cfun" where
  "openssl_newSslContext R S =
     luaL_checknumber R 1 (\<lambda>x. as_int x (\<lambda>type.
       create_object (newSSLContext S type) SSL_CTX_class ctx_name (\<lambda>_. Returns 1)
         (Raises (Message ''Cannot create SSL context with Openssl''))))"

definition openssl_newBio :: "'s runtime \<Rightarrow> 's ssl_api \<Rightarrow> 's cfun" where
  "openssl_newBio R S =
     luaL_checkinteger R 1 (\<lambda>type.
       create_object (newBIO S (to_int type)) BIO_class bio_name (\<lambda>_. Returns 1)
         (perform (ERR_print_errors S) (\<lambda>_. Raises (Message ''Cannot create BIO with Openssl''))))"

definition ctx_initSslContext :: "'s runtime \<Rightarrow> 's ssl_api \<Rightarrow> 's cfun" where
  "ctx_initSslContext R S =
     checkctx (\<lambda>ctx.
     luaL_checkstring R 2 (\<lambda>cipherListStr.
     luaL_checkstring R 3 (\<lambda>certFile.
     luaL_checkstring R 4 (\<lambda>keyFile.
     luaL_checkstring R 5 (\<lambda>CAfile L.
       let isCheckClientCertificate = (if lua_toboolean 6 L then 1 else 0) in
       invoke R (SSL_CTX_class, ctx)
         (initSSLContext S ctx cipherListStr certFile keyFile isCheckClientCertificate CAfile)
         (\<lambda>isSuccess L. Returns 1 (push (LBool (isSuccess \<noteq> 0)) L)) L)))))"

definition ctx_newSsl :: "'s runtime \<Rightarrow> 's ssl_api \<Rightarrow> 's cfun" where
  "ctx_newSsl R S =
     checkctx (\<lambda>ctx.
     on_object R (SSL_CTX_class, ctx)
       (create_object (newSSL S ctx) SSL_class ssl_name (\<lambda>_. Returns 1)
         (perform (ERR_print_errors S) (\<lambda>_. Raises (Message ''Cannot create SSL with Openssl'')))))"

definition ctx_addCertificate :: "'s runtime \<Rightarrow> 's ssl_api \<Rightarrow> 's cfun" where
  "ctx_addCertificate R S =
     checkctx (\<lambda>ctx.
     luaL_checklstring R 2 (\<lambda>certfile.
     invoke R (SSL_CTX_class, ctx) (addCertificateIntoSSLContext S ctx (c_str certfile)) (\<lambda>_. Returns 0)))"

definition ctx_free :: "'s runtime \<Rightarrow> 's ssl_api \<Rightarrow> 's cfun" where
  "ctx_free R S = checkctx (\<lambda>ctx. invoke R (SSL_CTX_class, ctx) (freeSSLContext S ctx) (\<lambda>_. Returns 0))"

definition ssl_setInfoCallback :: "'s runtime \<Rightarrow> 's ssl_api \<Rightarrow> 's cfun" where
  "ssl_setInfoCallback R S =
     checkssl (\<lambda>ssl.
     luaL_checknumber R 2 (\<lambda>x. as_int x (\<lambda>isServer.
     invoke R (SSL_class, ssl)
       (setInfoCallbackForSSL S ssl (if isServer = 1 then Server_info else Client_info)) (\<lambda>_. Returns 0))))"

definition ssl_setBios :: "'s runtime \<Rightarrow> 's ssl_api \<Rightarrow> 's cfun" where
  "ssl_setBios R S =
     checkssl (\<lambda>ssl.
     checkbio 2 (\<lambda>bioIn.
     checkbio 3 (\<lambda>bioOut.
     on_object R (BIO_class, bioIn) (on_object R (BIO_class, bioOut)
       (invoke R (SSL_class, ssl) (setBIOSForSSL S ssl bioIn bioOut) (\<lambda>_. Returns 0))))))"

definition ssl_prepareToHandshake :: "'s runtime \<Rightarrow> 's ssl_api \<Rightarrow> 's cfun" where
  "ssl_prepareToHandshake R S =
     checkssl (\<lambda>ssl.
     luaL_checknumber R 2 (\<lambda>x. as_int x (\<lambda>isServer.
     invoke R (SSL_class, ssl) (prepareSSLToHandshake S ssl isServer) (\<lambda>_. Returns 0))))"

definition ssl_isHandshakeFinished :: "'s runtime \<Rightarrow> 's ssl_api \<Rightarrow> 's cfun" where
  "ssl_isHandshakeFinished R S =
     checkssl (\<lambda>ssl. invoke R (SSL_class, ssl) (isHandshakeFinished S ssl) (\<lambda>isFinished L.
       Returns 1 (push (LBool (isFinished \<noteq> 0)) L)))"

definition ssl_performHandshake :: "'s runtime \<Rightarrow> 's ssl_api \<Rightarrow> 's cfun" where
  "ssl_performHandshake R S =
     checkssl (\<lambda>ssl.
     invoke R (SSL_class, ssl) (doHandshake S ssl) (\<lambda>result.
     invoke R (SSL_class, ssl) (getSSLErrorInfo S ssl result) (\<lambda>info L.
       Returns 2 (push (LNumber (of_int info)) (push (LNumber (of_int result)) L)))))"

definition ssl_checkDataToDecrypt :: "'s runtime \<Rightarrow> 's ssl_api \<Rightarrow> 's cfun" where
  "ssl_checkDataToDecrypt R S =
     checkssl (\<lambda>ssl. invoke R (SSL_class, ssl) (checkDecryptedDataInSSL S ssl) (\<lambda>dataSize L.
       Returns 1 (push (LNumber (of_int dataSize)) L)))"

text \<open>A buffer of negative size throws; the exception would leave through the Lua library.\<close>

definition ssl_decrypt :: "'s runtime \<Rightarrow> 's ssl_api \<Rightarrow> 's cfun" where
  "ssl_decrypt R S =
     checkssl (\<lambda>ssl.
     luaL_checknumber R 2 (\<lambda>x. as_int x (\<lambda>size L.
       if size < 0 then Ub
       else invoke R (SSL_class, ssl) (readDecryptedDataFromSSL S ssl size) (\<lambda>(readSize, buffer) L.
              if readSize \<le> 0 then Raises (Message ''Error occurred during data decryption with Openssl SSL'') L
              else Returns 1 (push (LString (take (nat readSize) buffer)) L)) L)))"

definition ssl_encrypt :: "'s runtime \<Rightarrow> 's ssl_api \<Rightarrow> 's cfun" where
  "ssl_encrypt R S =
     checkssl (\<lambda>ssl.
     luaL_checklstring R 2 (\<lambda>data.
     invoke R (SSL_class, ssl) (writeEncryptedDataIntoSSL S ssl data (to_int (int (length data)))) (\<lambda>writeSize L.
       if writeSize \<le> 0 then Raises (Message ''Error occurred during data encryption with Openssl SSL'') L
       else Returns 0 L)))"

definition ssl_printCertificatesInfo :: "'s runtime \<Rightarrow> 's ssl_api \<Rightarrow> 's cfun" where
  "ssl_printCertificatesInfo R S =
     checkssl (\<lambda>ssl. invoke R (SSL_class, ssl) (printCertificatesInfoFromSSL S ssl) (\<lambda>_. Returns 0))"

definition ssl_free :: "'s runtime \<Rightarrow> 's ssl_api \<Rightarrow> 's cfun" where
  "ssl_free R S = checkssl (\<lambda>ssl. invoke R (SSL_class, ssl) (freeSSL S ssl) (\<lambda>_. Returns 0))"

definition bio_checkDataToRead :: "'s runtime \<Rightarrow> 's ssl_api \<Rightarrow> 's cfun" where
  "bio_checkDataToRead R S =
     checkbio 1 (\<lambda>bio. invoke R (BIO_class, bio) (checkDataToReadInBIO S bio) (\<lambda>datSize L.
       Returns 1 (push (LNumber (of_int datSize)) L)))"

definition bio_readData :: "'s runtime \<Rightarrow> 's ssl_api \<Rightarrow> 's cfun" where
  "bio_readData R S =
     checkbio 1 (\<lambda>bio.
     luaL_checknumber R 2 (\<lambda>x. as_int x (\<lambda>size L.
       if size < 0 then Ub
       else invoke R (BIO_class, bio) (readDatafromBIO S bio size) (\<lambda>(readSize, buffer) L.
              if readSize < 0 then Raises (Message ''Error occurred during reading data from Openssl BIO'') L
              else Returns 1 (push (LString (take (nat readSize) buffer)) L)) L)))"

definition bio_writeData :: "'s runtime \<Rightarrow> 's ssl_api \<Rightarrow> 's cfun" where
  "bio_writeData R S =
     checkbio 1 (\<lambda>bio.
     luaL_checklstring R 2 (\<lambda>data.
     invoke R (BIO_class, bio) (writeDataIntoBIO S bio data (to_int (int (length data)))) (\<lambda>writeSize L.
       if writeSize < 0 then Raises (Message ''Error occurred during writing data to Openssl BIO'') L
       else Returns 0 L)))"

text \<open>The metatable \<open>openssl.main\<close> belongs to the table of the module itself.\<close>

definition luaopen_luaopenssl :: "'s runtime \<Rightarrow> 's ssl_api \<Rightarrow> 's lua_library" where
  "luaopen_luaopenssl R S = \<lparr>
     module_functions =
       [(''initSslLibrary'', openssl_initSslLib S), (''newSslContext'', openssl_newSslContext R S),
        (''newBio'', openssl_newBio R S)],
     metatables =
       [(ctx_name,
          [(''initSslContext'', ctx_initSslContext R S), (''newSsl'', ctx_newSsl R S),
           (''addCertificate'', ctx_addCertificate R S)],
          Some (ctx_free R S)),
        (ssl_name,
          [(''setInfoCallback'', ssl_setInfoCallback R S), (''setBios'', ssl_setBios R S),
           (''prepareToHandshake'', ssl_prepareToHandshake R S), (''performHandshake'', ssl_performHandshake R S),
           (''isHandshakeFinished'', ssl_isHandshakeFinished R S),
           (''printCertificatesInfo'', ssl_printCertificatesInfo R S), (''checkData'', ssl_checkDataToDecrypt R S),
           (''decrypt'', ssl_decrypt R S), (''encrypt'', ssl_encrypt R S)],
          Some (ssl_free R S)),
        (bio_name,
          [(''checkData'', bio_checkDataToRead R S), (''read'', bio_readData R S), (''write'', bio_writeData R S)],
          None),
        (''openssl.main'', [], Some (openssl_cleanupSslLib S))] \<rparr>"

section \<open>What the bindings rely on\<close>

definition ssl_api_ok :: "'s runtime \<Rightarrow> 's ssl_api \<Rightarrow> bool" where
  "ssl_api_ok R S \<longleftrightarrow>
     (\<forall>m. makes_object_or_fails R SSL_CTX_class (SSL_CTX_new S m)) \<and>
     (\<forall>a. makes_object_or_fails R SSL_class (SSL_new S a)) \<and>
     (\<forall>m. makes_object_or_fails R BIO_class (BIO_new S m)) \<and>
     keeps_objects R (SSL_library_init S) \<and> keeps_objects R (SSL_load_error_strings S) \<and>
     keeps_objects R (ERR_load_BIO_strings S) \<and> keeps_objects R (OpenSSL_add_all_algorithms S) \<and>
     keeps_objects R (ERR_print_errors S) \<and> keeps_objects R (EVP_cleanup S) \<and> keeps_objects R (ERR_free_strings S) \<and>
     (\<forall>a x. keeps_objects R (SSL_CTX_set_cipher_list S a x)) \<and>
     (\<forall>a x. keeps_objects R (SSL_CTX_use_certificate_file S a x)) \<and>
     (\<forall>a x. keeps_objects R (SSL_CTX_use_PrivateKey_file S a x)) \<and>
     (\<forall>a. keeps_objects R (SSL_CTX_check_private_key S a)) \<and>
     (\<forall>a x. keeps_objects R (SSL_CTX_load_verify_locations S a x)) \<and>
     (\<forall>a m. keeps_objects R (SSL_CTX_set_verify S a m)) \<and>
     (\<forall>a n. keeps_objects R (BIO_set_mem_eof_return S a n)) \<and>
     (\<forall>a c. keeps_objects R (SSL_set_info_callback S a c)) \<and>
     (\<forall>a. keeps_objects R (SSL_set_accept_state S a)) \<and> (\<forall>a. keeps_objects R (SSL_set_connect_state S a)) \<and>
     (\<forall>a. keeps_objects R (SSL_is_init_finished S a)) \<and> (\<forall>a. keeps_objects R (SSL_do_handshake S a)) \<and>
     (\<forall>a n. keeps_objects R (SSL_get_error S a n)) \<and> (\<forall>a n. keeps_objects R (SSL_read S a n)) \<and>
     (\<forall>a. keeps_objects R (SSL_pending S a)) \<and> (\<forall>a x n. keeps_objects R (SSL_write S a x n)) \<and>
     (\<forall>a. keeps_objects R (SSL_get_peer_certificate S a)) \<and> (\<forall>a. keeps_objects R (BIO_ctrl_pending S a)) \<and>
     (\<forall>a n. keeps_objects R (BIO_read S a n)) \<and> (\<forall>a x n. keeps_objects R (BIO_write S a x n)) \<and>
     (\<forall>a b c. keeps_except R [BIO_class] None (SSL_set_bio S a b c)) \<and>
     (\<forall>a. keeps_except R [BIO_class] (Some (SSL_class, a)) (SSL_free S a)) \<and>
     (\<forall>a. deletes_object R (SSL_CTX_class, a) (SSL_CTX_free S a))"

lemma ssl_api_okD:
  assumes "ssl_api_ok R S"
  shows "makes_object_or_fails R SSL_CTX_class (SSL_CTX_new S m)" "makes_object_or_fails R SSL_class (SSL_new S a)"
    "makes_object_or_fails R BIO_class (BIO_new S bm)" "keeps_objects R (SSL_library_init S)"
    "keeps_objects R (SSL_load_error_strings S)" "keeps_objects R (ERR_load_BIO_strings S)"
    "keeps_objects R (OpenSSL_add_all_algorithms S)" "keeps_objects R (ERR_print_errors S)"
    "keeps_objects R (SSL_CTX_set_cipher_list S a x)" "keeps_objects R (SSL_CTX_use_certificate_file S a x)"
    "keeps_objects R (SSL_CTX_use_PrivateKey_file S a x)" "keeps_objects R (SSL_CTX_check_private_key S a)"
    "keeps_objects R (SSL_CTX_load_verify_locations S a x)" "keeps_objects R (SSL_CTX_set_verify S a vm)"
    "keeps_objects R (BIO_set_mem_eof_return S a n)" "keeps_objects R (SSL_set_info_callback S a role)"
    "keeps_objects R (SSL_set_accept_state S a)" "keeps_objects R (SSL_set_connect_state S a)"
    "keeps_objects R (SSL_is_init_finished S a)" "keeps_objects R (SSL_do_handshake S a)"
    "keeps_objects R (SSL_get_error S a n)" "keeps_objects R (SSL_read S a n)" "keeps_objects R (SSL_pending S a)"
    "keeps_objects R (SSL_write S a x n)" "keeps_objects R (SSL_get_peer_certificate S a)"
    "keeps_objects R (BIO_ctrl_pending S a)" "keeps_objects R (BIO_read S a n)" "keeps_objects R (BIO_write S a x n)"
    "keeps_except R [BIO_class] None (SSL_set_bio S a b c)" "keeps_except R [BIO_class] (Some (SSL_class, a)) (SSL_free S a)"
    "deletes_object R (SSL_CTX_class, a) (SSL_CTX_free S a)" "keeps_objects R (EVP_cleanup S)"
    "keeps_objects R (ERR_free_strings S)"
  using assms by (simp_all add: ssl_api_ok_def)

lemma keeps_then_call:
  "keeps_objects R f \<Longrightarrow> (\<And>r. keeps_objects R (g r)) \<Longrightarrow> keeps_objects R (then_call f g)"
  unfolding keeps_objects_def then_call_def case_prod_beta by (blast intro: kept_trans kept_held)

lemma keeps_or_fail: "keeps_objects R f \<Longrightarrow> keeps_objects R g \<Longrightarrow> keeps_objects R (or_fail f g)"
  unfolding or_fail_def by (rule keeps_then_call) (simp_all add: keeps_objects_def kept_same)

lemma keeps_reported:
  assumes "ssl_api_ok R S" "keeps_objects R f"
  shows "keeps_objects R (reported S f)"
proof -
  have "kept R p s (snd (f s)) \<and> kept R p s (snd (ERR_print_errors S (snd (f s))))" if "held R p s" for p s
    using keeps_objectsD [OF assms(2) that] keeps_objectsD [OF ssl_api_okD(8) [OF assms(1)]]
    by (blast intro: kept_trans kept_held)
  then show ?thesis by (simp add: keeps_objects_def reported_def case_prod_beta)
qed

lemma keeps_result: "keeps_objects R (Pair x)"
  by (simp add: keeps_objects_def kept_same)

lemmas keeps_calls = keeps_then_call keeps_or_fail keeps_reported keeps_result

lemma keeps_initSSLContext:
  assumes "ssl_api_ok R S"
  shows "keeps_objects R (initSSLContext S ctx a b c n d)"
  unfolding initSSLContext_def setCipherListIntoSSLContext_def addCertificateIntoSSLContext_def
    addPrivateKeyIntoSSLContext_def checkPrivateKeyFromSSLContext_def loadTrustedCACertificates_def
    setVerifyCallbackIntoSSLContext_def Let_def
  by (auto intro!: keeps_calls ssl_api_okD [OF assms] assms)

text \<open>A call that makes an object, followed by one that keeps all objects, or none at all.\<close>

lemma makes_then_keeps:
  assumes "makes_object_or_fails R c f" "\<And>r. keeps_objects R (g r)"
  shows "makes_object_or_fails R c (\<lambda>s. (fst (f s), snd (g (fst (f s)) (snd (f s)))))"
proof -
  have f: "kept R p s (snd (f s))" if "held R p s" for p s
    using assms(1) that by (intro keeps_objectsD) (simp_all add: makes_object_or_fails_def)
  have g: "kept R p s (snd (g r s))" if "held R p s" for p r s using assms(2) that by (rule keeps_objectsD)
  have "\<not> held R (c, a) s \<and> held R (c, a) (snd (g r (snd (f s)))) \<and>
      (held R q s \<or> q = (c, a) \<longrightarrow> \<not> child_of R q (c, a) (snd (g r (snd (f s)))))" if "fst (f s) = Some a" for s a q r
  proof -
    have m: "\<not> held R (c, a) s" "held R (c, a) (snd (f s))"
        "held R q s \<or> q = (c, a) \<Longrightarrow> \<not> child_of R q (c, a) (snd (f s))"
      using assms(1) that unfolding makes_object_or_fails_def by blast+
    then have "held R q (snd (f s))" if "held R q s \<or> q = (c, a)" using that kept_held [OF f] by blast
    with g m show ?thesis unfolding kept_def by blast
  qed
  moreover have "kept R p s (snd (g r (snd (f s))))" if "held R p s" for p r s
    using f [OF that] by (rule kept_trans) (rule g, rule kept_held, rule f, rule that)
  ultimately show ?thesis unfolding makes_object_or_fails_def keeps_objects_def by simp
qed

lemma makes_nothing: "makes_object_or_fails R c (Pair None)"
  by (simp add: makes_object_or_fails_def keeps_objects_def kept_same)

lemma makes_newSSLContext:
  assumes "ssl_api_ok R S"
  shows "makes_object_or_fails R SSL_CTX_class (newSSLContext S type)"
proof (cases "protocol_method S type")
  case None
  then have "newSSLContext S type = Pair None" by (simp add: fun_eq_iff newSSLContext_def)
  then show ?thesis by (simp add: makes_nothing)
next
  case (Some m)
  have "newSSLContext S type = (\<lambda>s. (fst (SSL_CTX_new S m s),
      snd ((if fst (SSL_CTX_new S m s) = None then ERR_print_errors S else Pair ()) (snd (SSL_CTX_new S m s)))))"
    by (auto simp: fun_eq_iff newSSLContext_def Some split: option.splits prod.splits)
  moreover have "keeps_objects R (if r = None then ERR_print_errors S else Pair ())" for r :: "nat option"
    by (simp add: ssl_api_okD [OF assms] keeps_result)
  ultimately show ?thesis
    using makes_then_keeps [OF ssl_api_okD(1) [OF assms], of "\<lambda>r. if r = None then ERR_print_errors S else Pair ()" m]
    by simp
qed

lemma makes_newBIO:
  assumes "ssl_api_ok R S"
  shows "makes_object_or_fails R BIO_class (newBIO S type)"
proof -
  define eof where "eof r = (case r of Some bio \<Rightarrow> if type = 0 then BIO_set_mem_eof_return S bio (-1) else Pair () | None \<Rightarrow> Pair ())"
    for r
  have "keeps_objects R (eof r)" for r
    by (simp add: eof_def ssl_api_okD [OF assms] keeps_result split: option.split)
  moreover define f where "f = (if type = 0 then BIO_new S BIO_s_mem else if type = 1 then BIO_new S BIO_f_ssl else Pair None)"
  moreover have "makes_object_or_fails R BIO_class f"
    by (simp add: f_def ssl_api_okD [OF assms] makes_nothing)
  moreover have "newBIO S type = (\<lambda>s. (fst (f s), snd (eof (fst (f s)) (snd (f s)))))"
    by (auto simp: fun_eq_iff newBIO_def BIOTypes_of_def f_def eof_def split: option.splits prod.splits)
  ultimately show ?thesis using makes_then_keeps [of R BIO_class f eof] by simp
qed

lemmas openssl_defs = openssl_initSslLib_def initOpensslLib_def openssl_newSslContext_def openssl_newBio_def
  ctx_initSslContext_def ctx_newSsl_def ctx_addCertificate_def addCertificateIntoSSLContext_def
  ssl_setInfoCallback_def ssl_setBios_def ssl_prepareToHandshake_def prepareSSLToHandshake_def
  ssl_isHandshakeFinished_def ssl_performHandshake_def ssl_checkDataToDecrypt_def checkDecryptedDataInSSL_def
  ssl_decrypt_def ssl_encrypt_def ssl_printCertificatesInfo_def bio_checkDataToRead_def bio_readData_def
  bio_writeData_def printCertificatesInfoFromSSL_def checkDataToReadInBIO_def

lemma luaopen_luaopenssl_sound:
  assumes "ssl_api_ok R S" "f \<in> set (library_functions (luaopen_luaopenssl R S))"
    and "map_of table ctx_name = Some SSL_CTX_class" "map_of table ssl_name = Some SSL_class"
    and "map_of table bio_name = Some BIO_class" "BIO_class \<notin> set cs" "sound_userdata R table cs L"
  shows "post (sound_userdata R table cs) (f L)"
proof -
  note rules = ssl_api_okD [OF assms(1)] keeps_then_call keeps_result keeps_reported [OF assms(1)] keeps_initSSLContext [OF assms(1)]
    makes_newSSLContext [OF assms(1)] makes_newBIO [OF assms(1)]
    sound_invoke_except [OF _ ssl_api_okD(29) [OF assms(1)]]
  have "f \<in> {openssl_initSslLib S, openssl_newSslContext R S, openssl_newBio R S, ctx_initSslContext R S,
      ctx_newSsl R S, ctx_addCertificate R S, ssl_setInfoCallback R S, ssl_setBios R S, ssl_prepareToHandshake R S,
      ssl_performHandshake R S, ssl_isHandshakeFinished R S, ssl_printCertificatesInfo R S, ssl_checkDataToDecrypt R S,
      ssl_decrypt R S, ssl_encrypt R S, bio_checkDataToRead R S, bio_readData R S, bio_writeData R S}"
    using assms(2) by (auto simp: set_library_functions luaopen_luaopenssl_def)
  then show ?thesis
    using assms(3-7)
    by (elim insertE emptyE) (auto simp: openssl_defs Let_def intro!: post_rules rules)
qed

text \<open>The finalizers, where buffers are nobody's own.\<close>

lemma luaopen_luaopenssl_finalizers:
  assumes "ssl_api_ok R S" "library_finalizer (luaopen_luaopenssl R S) name = Some f"
    and "map_of table ctx_name = Some SSL_CTX_class" "map_of table ssl_name = Some SSL_class"
    and "{SSL_CTX_class, SSL_class} \<subseteq> set cs" "BIO_class \<notin> set cs"
    and "sound_userdata R table cs L" "stack L = [LUserdata u]" "userdata L u = Some (Some name, p)"
  shows "post (\<lambda>L'. sound_userdata R table cs (without u L')) (f L)"
proof -
  note api = ssl_api_okD [OF assms(1)]
  consider "name = ctx_name" "f = ctx_free R S" | "name = ssl_name" "f = ssl_free R S"
    | "f = openssl_cleanupSslLib S"
    using assms(2) by (auto simp: library_finalizer_def luaopen_luaopenssl_def split: if_splits)
  then show ?thesis
  proof cases
    case 1
    show ?thesis
      unfolding 1(2) ctx_free_def freeSSLContext_def
      using assms(3,5) api(31) by (intro sound_deletes [OF assms(7,8) assms(9) [unfolded 1(1)]]) auto
  next
    case 2
    show ?thesis
      unfolding 2(2) ssl_free_def freeSSL_def
      using assms(4-6) by (intro sound_deletes_except [OF assms(7,8) assms(9) [unfolded 2(1)] _ _ api(30)]) auto
  next
    case 3
    have "post (sound_userdata R table cs) (f L)"
      unfolding 3 openssl_cleanupSslLib_def cleanupOpensslLib_def
      using assms(7) by (auto intro!: post_rules keeps_then_call api)
    then show ?thesis
      by (rule post_mono) (simp add: sound_userdata_def typed_without owned_without)
  qed
qed

section \<open>OpenSSL in the small world\<close>

definition small_make :: "cpp_class \<Rightarrow> small_world \<Rightarrow> nat option \<times> small_world" where
  "small_make c = always (small_new c)"

text \<open>Attaching buffers records whose they are; freeing a connection frees them.\<close>

definition small_attach :: "nat \<Rightarrow> nat \<Rightarrow> nat \<Rightarrow> small_world \<Rightarrow> unit \<times> small_world" where
  "small_attach ssl b c w = ((), w\<lparr>parents := ((BIO_class, b), (SSL_class, ssl)) # ((BIO_class, c), (SSL_class, ssl)) # parents w\<rparr>)"

definition small_free :: "nat \<Rightarrow> small_world \<Rightarrow> unit \<times> small_world" where
  "small_free ssl w = ((), w\<lparr>objects := filter (\<lambda>p. p \<noteq> (SSL_class, ssl) \<and>
     \<not> (fst p = BIO_class \<and> (p, (SSL_class, ssl)) \<in> set (parents w))) (objects w)\<rparr>)"

definition small_read :: "nat \<Rightarrow> int \<Rightarrow> small_world \<Rightarrow> (int \<times> string) \<times> small_world" where
  "small_read b n w =
     (let k = min (nat n) (length (buffer_bytes w b)) in
      if k = 0 then ((-1, []), w)
      else ((int k, take k (buffer_bytes w b)),
            w\<lparr>buffer_bytes := (buffer_bytes w)(b := drop k (buffer_bytes w b))\<rparr>))"

definition small_write :: "nat \<Rightarrow> string \<Rightarrow> int \<Rightarrow> small_world \<Rightarrow> int \<times> small_world" where
  "small_write b d n w =
     (n, w\<lparr>buffer_bytes := (buffer_bytes w)(b := buffer_bytes w b @ take (nat n) d)\<rparr>)"

definition small_ssl :: "small_world ssl_api" where
  "small_ssl = \<lparr>openssl_1_1 = True, no_ssl3 = True, ssl_cb_loop = 1, ssl_cb_handshake_start = 16,
     ssl_cb_handshake_done = 32, SSL_library_init = Pair (), SSL_load_error_strings = Pair (),
     ERR_load_BIO_strings = Pair (), OpenSSL_add_all_algorithms = Pair (), EVP_cleanup = Pair (),
     ERR_free_strings = Pair (), ERR_print_errors = Pair (), SSL_CTX_new = (\<lambda>m. small_make SSL_CTX_class),
     SSL_CTX_set_cipher_list = (\<lambda>c x. Pair 1), SSL_CTX_use_certificate_file = (\<lambda>c x. Pair (if x = [] then 0 else 1)),
     SSL_CTX_use_PrivateKey_file = (\<lambda>c x. Pair 1), SSL_CTX_check_private_key = (\<lambda>c. Pair 1),
     SSL_CTX_load_verify_locations = (\<lambda>c x w. (1, w\<lparr>trusted_files := (trusted_files w)(c := x # trusted_files w c)\<rparr>)),
     SSL_CTX_set_verify = (\<lambda>c m w. ((), w\<lparr>verifies := (verifies w)(c := m = SSL_VERIFY_PEER)\<rparr>)),
     SSL_CTX_free = (\<lambda>c. small_delete (SSL_CTX_class, c)), SSL_new = (\<lambda>c. small_make SSL_class),
     SSL_free = small_free, BIO_new = (\<lambda>m. small_make BIO_class), BIO_set_mem_eof_return = (\<lambda>b n. Pair ()),
     SSL_set_info_callback = (\<lambda>s r. Pair ()), SSL_set_bio = small_attach, SSL_set_accept_state = (\<lambda>s. Pair ()),
     SSL_set_connect_state = (\<lambda>s. Pair ()), SSL_is_init_finished = (\<lambda>s. Pair 0), SSL_do_handshake = (\<lambda>s. Pair 0),
     SSL_get_error = (\<lambda>s n. Pair 0), SSL_read = (\<lambda>s n. Pair (0, [])), SSL_pending = (\<lambda>s. Pair 0),
     SSL_write = (\<lambda>s d n. Pair n), SSL_get_peer_certificate = (\<lambda>s. Pair None),
     BIO_ctrl_pending = (\<lambda>b w. (int (length (buffer_bytes w b)), w)), BIO_read = small_read,
     BIO_write = small_write\<rparr>"

lemma small_keeps_objects:
  "(\<And>w. objects (snd (f w)) = objects w) \<Longrightarrow> (\<And>w. pending_sockets (snd (f w)) = pending_sockets w) \<Longrightarrow>
   (\<And>w. parents (snd (f w)) = parents w) \<Longrightarrow> keeps_objects small_runtime f"
  by (simp add: keeps_objects_def small_held small_kept)

lemma small_ssl_ok: "ssl_api_ok small_runtime small_ssl"
proof -
  have "makes_object_or_fails small_runtime c (small_make c)" for c
    unfolding small_make_def by (rule makes_always [OF small_makes])
  moreover have "keeps_except small_runtime [BIO_class] None (small_attach a b c)" for a b c
    by (simp add: keeps_except_def small_attach_def small_held small_kept)
  moreover have "keeps_except small_runtime [BIO_class] (Some (SSL_class, a)) (small_free a)" for a
    by (auto simp: keeps_except_def small_free_def small_held small_kept)
  ultimately show ?thesis
    unfolding ssl_api_ok_def small_ssl_def ssl_api.simps
    using small_deletes
    by (intro conjI allI small_keeps_objects) (simp_all add: small_read_def small_write_def Let_def)
qed

section \<open>Buffers as streams\<close>

text \<open>What OpenSSL documents of a memory buffer: writing appends, reading takes from the front, and reading
  an empty one gives the value set with \<open>BIO_set_mem_eof_return\<close>.\<close>

definition memory_bio :: "'s runtime \<Rightarrow> 's ssl_api \<Rightarrow> (nat \<Rightarrow> 's \<Rightarrow> string) \<Rightarrow> nat \<Rightarrow> bool" where
  "memory_bio R S bytes b \<longleftrightarrow>
     (\<forall>d s. let (r, s') = BIO_write S b d (int (length d)) s in
        r = int (length d) \<and> bytes b s' = bytes b s @ d \<and> (alive R (BIO_class, b) s \<longrightarrow> alive R (BIO_class, b) s')) \<and>
     (\<forall>n s. 0 < n \<longrightarrow> (let ((r, x), s') = BIO_read S b n s; k = min (nat n) (length (bytes b s)) in
        r = (if k = 0 then -1 else int k) \<and> take k x = take k (bytes b s) \<and> bytes b s' = drop k (bytes b s) \<and>
        (alive R (BIO_class, b) s \<longrightarrow> alive R (BIO_class, b) s')))"

lemma min_nat_0: "0 < n \<Longrightarrow> min (nat n) (length xs) = 0 \<longleftrightarrow> xs = []"
  by (cases xs) (auto simp: min_def)

lemma memory_bio_write:
  assumes "memory_bio R S bytes b" "alive R (BIO_class, b) s"
  obtains s' where "BIO_write S b d (int (length d)) s = (int (length d), s')" "bytes b s' = bytes b s @ d"
    "alive R (BIO_class, b) s'"
  using assms unfolding memory_bio_def Let_def case_prod_beta by (metis prod.collapse)

lemma memory_bio_read:
  assumes "memory_bio R S bytes b" "alive R (BIO_class, b) s" "0 < n"
  obtains x s' where "BIO_read S b n s = ((if bytes b s = [] then -1 else int (min (nat n) (length (bytes b s))), x), s')"
    "take (min (nat n) (length (bytes b s))) x = take (nat n) (bytes b s)"
    "bytes b s' = drop (nat n) (bytes b s)" "alive R (BIO_class, b) s'"
proof -
  obtain r x s' where r: "BIO_read S b n s = ((r, x), s')" by (metis prod.collapse)
  let ?k = "min (nat n) (length (bytes b s))"
  have "r = (if ?k = 0 then -1 else int ?k) \<and> take ?k x = take ?k (bytes b s) \<and> bytes b s' = drop ?k (bytes b s) \<and>
      alive R (BIO_class, b) s'"
    using assms r unfolding memory_bio_def Let_def by fastforce
  moreover have "?k = 0 \<longleftrightarrow> bytes b s = []" using assms(3) by (rule min_nat_0)
  moreover have "take ?k (bytes b s) = take (nat n) (bytes b s)" "drop ?k (bytes b s) = drop (nat n) (bytes b s)"
    by (simp_all add: min_def)
  ultimately show thesis using r by (intro that [of x s']) auto
qed

text \<open>A script that writes to and reads from a buffer, protected calls all of them: what the reads gave,
  \<open>None\<close> for an error, and the final state.\<close>

datatype bio_use = Write_data string | Read_data int

fun bio_script :: "'s runtime \<Rightarrow> 's ssl_api \<Rightarrow> nat \<Rightarrow> bio_use list \<Rightarrow> 's lua \<Rightarrow> (string option list \<times> 's lua) option" where
  "bio_script R S u [] L = Some ([], L)"
| "bio_script R S u (Write_data d # ops) L =
     (case bio_writeData R S (L\<lparr>stack := [LUserdata u, LString d]\<rparr>) of
        Returns n L' \<Rightarrow> if n = 0 then bio_script R S u ops L' else None
      | _ \<Rightarrow> None)"
| "bio_script R S u (Read_data n # ops) L =
     (case bio_readData R S (L\<lparr>stack := [LUserdata u, LNumber (of_int n)]\<rparr>) of
        Returns k L' \<Rightarrow>
          (case returned (Returns k L') of
             Some [LString x] \<Rightarrow> map_option (apfst (Cons (Some x))) (bio_script R S u ops L')
           | _ \<Rightarrow> None)
      | Raises e L' \<Rightarrow> map_option (apfst (Cons None)) (bio_script R S u ops L')
      | _ \<Rightarrow> None)"

text \<open>A queue of bytes as the specification.\<close>

fun stream_script :: "bio_use list \<Rightarrow> string \<Rightarrow> string option list \<times> string" where
  "stream_script [] q = ([], q)"
| "stream_script (Write_data d # ops) q = stream_script ops (q @ d)"
| "stream_script (Read_data n # ops) q =
     apfst (Cons (if q = [] then None else Some (take (nat n) q))) (stream_script ops (drop (nat n) q))"

definition proper_use :: "bio_use \<Rightarrow> bool" where
  "proper_use op = (case op of Write_data d \<Rightarrow> is_int (int (length d)) | Read_data n \<Rightarrow> 0 < n \<and> is_int n)"

abbreviation bio_userdata :: "nat \<Rightarrow> nat \<Rightarrow> 's lua \<Rightarrow> bool" where
  "bio_userdata u b L \<equiv> userdata L u = Some (Some bio_name, (BIO_class, b))"

lemmas call_defs = luaL_checkudata_def arg_def luaL_checklstring_def luaL_checknumber_def number_at_def as_int_def
  invoke_def on_object_def perform_def

lemma bio_write_step:
  assumes "memory_bio R S bytes b" "alive R (BIO_class, b) (world L)" "bio_userdata u b L" "is_int (int (length d))"
  obtains s' where "bio_writeData R S (L\<lparr>stack := [LUserdata u, LString d]\<rparr>) =
      Returns 0 (L\<lparr>stack := [LUserdata u, LString d], world := s'\<rparr>)"
    "bytes b s' = bytes b (world L) @ d" "alive R (BIO_class, b) s'"
proof -
  obtain s' where s': "BIO_write S b d (int (length d)) (world L) = (int (length d), s')"
      "bytes b s' = bytes b (world L) @ d" "alive R (BIO_class, b) s'"
    using memory_bio_write [OF assms(1,2)] by blast
  have "to_int (int (length d)) = int (length d)" using assms(4) by (rule to_int_id)
  with s' assms show thesis by (intro that [of s']) (simp_all add: bio_writeData_def call_defs)
qed

lemma bio_read_step:
  assumes "memory_bio R S bytes b" "alive R (BIO_class, b) (world L)" "bio_userdata u b L" "0 < n" "is_int n"
  obtains L' where "userdata L' = userdata L" "bytes b (world L') = drop (nat n) (bytes b (world L))"
    "alive R (BIO_class, b) (world L')"
    "if bytes b (world L) = []
     then \<exists>e. bio_readData R S (L\<lparr>stack := [LUserdata u, LNumber (of_int n)]\<rparr>) = Raises e L'
     else bio_readData R S (L\<lparr>stack := [LUserdata u, LNumber (of_int n)]\<rparr>) = Returns 1 L' \<and>
       returned (Returns 1 L') = Some [LString (take (nat n) (bytes b (world L)))]"
proof -
  obtain x s' where s': "BIO_read S b n (world L) =
        ((if bytes b (world L) = [] then -1 else int (min (nat n) (length (bytes b (world L)))), x), s')"
      "take (min (nat n) (length (bytes b (world L)))) x = take (nat n) (bytes b (world L))"
      "bytes b s' = drop (nat n) (bytes b (world L))" "alive R (BIO_class, b) s'"
    using memory_bio_read [OF assms(1,2,4)] by blast
  let ?L = "L\<lparr>stack := [LUserdata u, LNumber (of_int n)], world := s'\<rparr>"
  show thesis
  proof (cases "bytes b (world L) = []")
    case True
    with s' assms show thesis by (intro that [of ?L]) (simp_all add: bio_readData_def call_defs)
  next
    case False
    with s' assms show thesis
      by (intro that [of "push (LString (take (nat n) (bytes b (world L)))) ?L"])
        (simp_all add: bio_readData_def call_defs push_def)
  qed
qed

text \<open>C16: a memory buffer is a byte queue for the scripts: whatever is written to it and read from it in
  whatever pieces, no call goes wrong, each read gives the next bytes, at most as many as it asked for,
  reading an empty buffer raises an error, and in the end the buffer holds what was not read.\<close>

theorem bio_is_stream:
  assumes "memory_bio R S bytes b" "alive R (BIO_class, b) (world L)" "bio_userdata u b L" "\<forall>op \<in> set ops. proper_use op"
  shows "\<exists>L'. bio_script R S u ops L = Some (fst (stream_script ops (bytes b (world L))), L') \<and>
     bytes b (world L') = snd (stream_script ops (bytes b (world L)))"
  using assms(2-4)
proof (induction ops arbitrary: L)
  case Nil
  then show ?case by simp
next
  case (Cons op ops)
  have ops: "\<forall>op \<in> set ops. proper_use op" using Cons.prems(3) by simp
  show ?case
  proof (cases op)
    case (Write_data d)
    then have "is_int (int (length d))" using Cons.prems(3) by (simp add: proper_use_def)
    then obtain s' where s': "bio_writeData R S (L\<lparr>stack := [LUserdata u, LString d]\<rparr>) =
          Returns 0 (L\<lparr>stack := [LUserdata u, LString d], world := s'\<rparr>)"
        "bytes b s' = bytes b (world L) @ d" "alive R (BIO_class, b) s'"
      using bio_write_step [OF assms(1) Cons.prems(1,2)] by blast
    with Cons.IH [of "L\<lparr>stack := [LUserdata u, LString d], world := s'\<rparr>"] Cons.prems(2) ops Write_data
    show ?thesis by simp
  next
    case (Read_data n)
    then have n: "0 < n" "is_int n" using Cons.prems(3) by (simp_all add: proper_use_def)
    from bio_read_step [OF assms(1) Cons.prems(1,2) n]
    obtain L' where L': "userdata L' = userdata L" "bytes b (world L') = drop (nat n) (bytes b (world L))"
      "alive R (BIO_class, b) (world L')"
      "if bytes b (world L) = []
       then \<exists>e. bio_readData R S (L\<lparr>stack := [LUserdata u, LNumber (of_int n)]\<rparr>) = Raises e L'
       else bio_readData R S (L\<lparr>stack := [LUserdata u, LNumber (of_int n)]\<rparr>) = Returns 1 L' \<and>
         returned (Returns 1 L') = Some [LString (take (nat n) (bytes b (world L)))]" by blast
    moreover from this obtain L'' where
      "bio_script R S u ops L' = Some (fst (stream_script ops (drop (nat n) (bytes b (world L)))), L'')"
      "bytes b (world L'') = snd (stream_script ops (drop (nat n) (bytes b (world L))))"
      using Cons.IH [of L'] Cons.prems(2) ops by auto
    ultimately show ?thesis using Read_data
      by (cases "bytes b (world L) = []") (auto simp del: returned.simps)
  qed
qed

definition one_bio :: "small_world lua" where
  "one_bio = \<lparr>stack = [], userdata = [0 \<mapsto> (Some bio_name, (BIO_class, 3))], next_userdata = 1,
     world = small_start\<lparr>objects := [(BIO_class, 3)]\<rparr>\<rparr>"

theorem bio_is_stream_witness:
  "\<exists>L'. bio_script small_runtime small_ssl 0 [Write_data ''abc'', Read_data 2, Write_data ''d'', Read_data 9, Read_data 1]
       one_bio = Some ([Some ''ab'', Some ''cd'', None], L') \<and> buffer_bytes (world L') 3 = []"
proof -
  have "memory_bio small_runtime small_ssl (\<lambda>b w. buffer_bytes w b) 3"
    by (simp add: memory_bio_def small_ssl_def small_write_def small_read_def small_runtime_def Let_def min_nat_0)
  from bio_is_stream [OF this, of one_bio 0
      "[Write_data ''abc'', Read_data 2, Write_data ''d'', Read_data 9, Read_data 1]"]
  show ?thesis by (simp add: one_bio_def small_runtime_def small_start_def proper_use_def is_int_def)
qed

section \<open>Contexts and freed buffers\<close>

text \<open>What OpenSSL documents of a context: only \<open>SSL_CTX_set_verify\<close> changes whether the peer is verified, and
  loading certificates successfully makes them trusted, which they stay.\<close>

definition keeps_context :: "(nat \<Rightarrow> 's \<Rightarrow> verify_mode) \<Rightarrow> (nat \<Rightarrow> 's \<Rightarrow> string set) \<Rightarrow> ('s \<Rightarrow> 'r \<times> 's) \<Rightarrow> bool" where
  "keeps_context mode trusted f \<longleftrightarrow>
     (\<forall>s c. mode c (snd (f s)) = mode c s \<and> trusted c s \<subseteq> trusted c (snd (f s)))"

definition context_laws :: "'s ssl_api \<Rightarrow> (nat \<Rightarrow> 's \<Rightarrow> verify_mode) \<Rightarrow> (nat \<Rightarrow> 's \<Rightarrow> string set) \<Rightarrow> bool" where
  "context_laws S mode trusted \<longleftrightarrow>
     keeps_context mode trusted (ERR_print_errors S) \<and>
     (\<forall>c x. keeps_context mode trusted (SSL_CTX_set_cipher_list S c x)) \<and>
     (\<forall>c x. keeps_context mode trusted (SSL_CTX_use_certificate_file S c x)) \<and>
     (\<forall>c x. keeps_context mode trusted (SSL_CTX_use_PrivateKey_file S c x)) \<and>
     (\<forall>c. keeps_context mode trusted (SSL_CTX_check_private_key S c)) \<and>
     (\<forall>c x. keeps_context mode trusted (SSL_CTX_load_verify_locations S c x)) \<and>
     (\<forall>c x s. fst (SSL_CTX_load_verify_locations S c x s) = 1 \<longrightarrow>
        x \<in> trusted c (snd (SSL_CTX_load_verify_locations S c x s))) \<and>
     (\<forall>c m s. mode c (snd (SSL_CTX_set_verify S c m s)) = m \<and>
        trusted c s \<subseteq> trusted c (snd (SSL_CTX_set_verify S c m s)))"

lemma keeps_context_reported:
  "keeps_context mode trusted (ERR_print_errors S) \<Longrightarrow> keeps_context mode trusted f \<Longrightarrow>
   keeps_context mode trusted (reported S f)"
  unfolding keeps_context_def reported_def by (fastforce simp: case_prod_beta)

lemma fst_reported [simp]: "fst (reported S f s) = fst (f s)"
  by (simp add: reported_def case_prod_beta)

text \<open>A step that must succeed before the rest: either it fails, and the result is 0, or the rest decides.\<close>

lemma or_fail_cases:
  assumes "keeps_context mode trusted f"
  obtains s1 where "or_fail f g s = (0, s1)" "mode c s1 = mode c s" "fst (f s) \<noteq> 1"
  | s1 where "or_fail f g s = g s1" "mode c s1 = mode c s" "trusted c s \<subseteq> trusted c s1" "fst (f s) = 1" "s1 = snd (f s)"
proof (cases "fst (f s) = 1")
  case True
  then show ?thesis
    using assms that(2) [of "snd (f s)"] by (simp add: keeps_context_def or_fail_def then_call_def case_prod_beta)
next
  case False
  then show ?thesis
    using assms that(1) [of "snd (f s)"] by (simp add: keeps_context_def or_fail_def then_call_def case_prod_beta)
qed

lemma set_verify_step:
  assumes "context_laws S mode trusted"
  shows "\<exists>s1. then_call (setVerifyCallbackIntoSSLContext S c check) (\<lambda>_. Pair (1::int)) s = (1, s1) \<and>
    mode c s1 = (if check = 0 then SSL_VERIFY_NONE else SSL_VERIFY_PEER) \<and> trusted c s \<subseteq> trusted c s1"
  using assms
  by (simp add: context_laws_def then_call_def setVerifyCallbackIntoSSLContext_def Let_def case_prod_beta)

lemma init_steps_keep:
  assumes "context_laws S mode trusted"
  shows "keeps_context mode trusted (setCipherListIntoSSLContext S c ciphers)"
    "keeps_context mode trusted (addCertificateIntoSSLContext S c cert)"
    "keeps_context mode trusted (addPrivateKeyIntoSSLContext S c key)"
    "keeps_context mode trusted (checkPrivateKeyFromSSLContext S c)"
    "keeps_context mode trusted (loadTrustedCACertificates S c ca)"
  using assms [unfolded context_laws_def]
  by (simp_all add: setCipherListIntoSSLContext_def addCertificateIntoSSLContext_def
      addPrivateKeyIntoSSLContext_def checkPrivateKeyFromSSLContext_def loadTrustedCACertificates_def
      keeps_context_reported)

lemma initSSLContext_outcome:
  assumes "context_laws S mode trusted" "check = 0 \<or> check = 1"
  shows "\<exists>r s1. initSSLContext S c ciphers cert key check ca s = (r, s1) \<and> (r = 0 \<or> r = 1) \<and>
     (r = 1 \<longrightarrow> mode c s1 = (if check = 0 then SSL_VERIFY_NONE else SSL_VERIFY_PEER) \<and> (check = 1 \<longrightarrow> ca \<in> trusted c s1)) \<and>
     (r = 0 \<longrightarrow> mode c s1 = mode c s)"
proof -
  note laws = assms(1) [unfolded context_laws_def]
  note keeps = init_steps_keep [OF assms(1)]
  let ?verify = "then_call (setVerifyCallbackIntoSSLContext S c check) (\<lambda>_. Pair (1::int))"
  define Q where "Q res \<longleftrightarrow> (case res of (r, s1) \<Rightarrow> (r = 0 \<or> r = (1::int)) \<and>
     (r = 1 \<longrightarrow> mode c s1 = (if check = 0 then SSL_VERIFY_NONE else SSL_VERIFY_PEER) \<and> (check = 1 \<longrightarrow> ca \<in> trusted c s1)) \<and>
     (r = 0 \<longrightarrow> mode c s1 = mode c s))" for res
  have step: "Q (or_fail f g s1)"
    if "keeps_context mode trusted f" "mode c s1 = mode c s" "\<And>s2. mode c s2 = mode c s \<Longrightarrow> Q (g s2)" for f g s1
    using that(1)
  proof (rule or_fail_cases [of mode trusted f g s1 c])
    show "Q (or_fail f g s1)" if "or_fail f g s1 = (0, s2)" "mode c s2 = mode c s1" for s2
      using that \<open>mode c s1 = mode c s\<close> by (simp add: Q_def)
    show "Q (or_fail f g s1)" if "or_fail f g s1 = g s2" "mode c s2 = mode c s1" for s2
      using that \<open>mode c s1 = mode c s\<close> \<open>\<And>s2. mode c s2 = mode c s \<Longrightarrow> Q (g s2)\<close> by simp
  qed
  have plain: "Q (?verify s1)" if "check = 0" for s1
    using set_verify_step [OF assms(1), of c check s1] that by (auto simp: Q_def)
  have checked: "Q (or_fail (loadTrustedCACertificates S c ca) ?verify s1)" if "mode c s1 = mode c s" "check = 1" for s1
  proof (rule or_fail_cases [OF init_steps_keep(5) [OF assms(1), of c ca], of ?verify s1 c])
    fix s2 assume s2: "or_fail (loadTrustedCACertificates S c ca) ?verify s1 = (0, s2)" "mode c s2 = mode c s1"
    then show ?thesis using that by (simp add: Q_def)
  next
    fix s2 assume s2: "or_fail (loadTrustedCACertificates S c ca) ?verify s1 = ?verify s2"
      "fst (loadTrustedCACertificates S c ca s1) = 1" "s2 = snd (loadTrustedCACertificates S c ca s1)"
    obtain s3 where s3: "?verify s2 = (1, s3)" "mode c s3 = SSL_VERIFY_PEER" "trusted c s2 \<subseteq> trusted c s3"
      using set_verify_step [OF assms(1), of c check s2] \<open>check = 1\<close> by auto
    have "ca \<in> trusted c s2"
      using laws s2(2,3) by (simp add: loadTrustedCACertificates_def reported_def case_prod_beta)
    with s2(1) s3 that(2) show ?thesis by (auto simp: Q_def)
  qed
  have rest: "Q ((if check = 1 then or_fail (loadTrustedCACertificates S c ca) ?verify else ?verify) s1)"
    if "mode c s1 = mode c s" for s1
    using assms(2) checked [OF that] plain by auto
  have "Q (initSSLContext S c ciphers cert key check ca s)"
    unfolding initSSLContext_def Let_def by (intro step keeps refl rest)
  then show ?thesis by (cases "initSSLContext S c ciphers cert key check ca s") (simp add: Q_def)
qed

text \<open>C17: \<open>initSslContext\<close> answers true only when the context verifies its peers exactly as the script asked, with
  the given certificate authorities loaded where it asked for verification, and an answer false leaves
  the verification as it was: no error path switches it off.\<close>

theorem context_verifies_as_asked:
  assumes "context_laws S mode trusted" "userdata L u = Some (Some ctx_name, (SSL_CTX_class, c))"
    and "alive R (SSL_CTX_class, c) (world L)"
  shows "\<exists>ok L'. ctx_initSslContext R S
         (L\<lparr>stack := [LUserdata u, LString ciphers, LString cert, LString key, LString ca, LBool check]\<rparr>) = Returns 1 L' \<and>
       last (stack L') = LBool ok \<and> userdata L' = userdata L \<and>
       (ok \<longrightarrow> mode c (world L') = (if check then SSL_VERIFY_PEER else SSL_VERIFY_NONE) \<and>
              (check \<longrightarrow> c_str ca \<in> trusted c (world L'))) \<and>
       (\<not> ok \<longrightarrow> mode c (world L') = mode c (world L))"
proof -
  obtain r s1 where r: "initSSLContext S c (c_str ciphers) (c_str cert) (c_str key) (if check then 1 else 0) (c_str ca)
        (world L) = (r, s1)" "r = 0 \<or> r = 1"
      "r = 1 \<longrightarrow> mode c s1 = (if check then SSL_VERIFY_PEER else SSL_VERIFY_NONE) \<and> (check \<longrightarrow> c_str ca \<in> trusted c s1)"
      "r = 0 \<longrightarrow> mode c s1 = mode c (world L)"
    using initSSLContext_outcome [OF assms(1), of "if check then 1 else 0" c "c_str ciphers" "c_str cert" "c_str key"
        "c_str ca" "world L"] by (cases check) (simp_all, blast+)
  let ?args = "[LUserdata u, LString ciphers, LString cert, LString key, LString ca, LBool check]"
  have "ctx_initSslContext R S (L\<lparr>stack := ?args\<rparr>) =
      Returns 1 (L\<lparr>stack := ?args @ [LBool (r \<noteq> 0)], world := s1\<rparr>)"
    using assms(2,3) r(1)
    by (cases check)
      (simp_all add: ctx_initSslContext_def luaL_checkstring_def lua_toboolean_def push_def call_defs)
  with r(2-4) show ?thesis by auto
qed

theorem context_verifies_as_asked_witness:
  "let L = \<lparr>stack = [], userdata = [0 \<mapsto> (Some ctx_name, (SSL_CTX_class, 4))], next_userdata = 1,
         world = small_start\<lparr>objects := [(SSL_CTX_class, 4)]\<rparr>\<rparr>;
       mode = (\<lambda>c w. if verifies w c then SSL_VERIFY_PEER else SSL_VERIFY_NONE)
   in \<exists>ok L'. ctx_initSslContext small_runtime small_ssl
         (L\<lparr>stack := [LUserdata 0, LString ''ALL'', LString ''c.pem'', LString ''k.pem'', LString ''ca.pem'', LBool True]\<rparr>) =
           Returns 1 L' \<and>
       last (stack L') = LBool ok \<and> userdata L' = userdata L \<and>
       (if ok then mode 4 (world L') = SSL_VERIFY_PEER \<and> c_str ''ca.pem'' \<in> set (trusted_files (world L') 4)
        else mode 4 (world L') = mode 4 (world L))"
proof -
  have laws: "context_laws small_ssl (\<lambda>c w. if verifies w c then SSL_VERIFY_PEER else SSL_VERIFY_NONE)
      (\<lambda>c w. set (trusted_files w c))"
    by (auto simp: context_laws_def keeps_context_def small_ssl_def split: verify_mode.split)
      (metis verify_mode.exhaust)
  let ?L = "\<lparr>stack = [], userdata = [0 \<mapsto> (Some ctx_name, (SSL_CTX_class, 4))], next_userdata = 1,
         world = small_start\<lparr>objects := [(SSL_CTX_class, 4)]\<rparr>\<rparr>"
  obtain ok L' where "ctx_initSslContext small_runtime small_ssl
         (?L\<lparr>stack := [LUserdata 0, LString ''ALL'', LString ''c.pem'', LString ''k.pem'', LString ''ca.pem'', LBool True]\<rparr>) =
           Returns 1 L'" "last (stack L') = LBool ok" "userdata L' = userdata ?L"
      "ok \<longrightarrow> (if verifies (world L') 4 then SSL_VERIFY_PEER else SSL_VERIFY_NONE) = SSL_VERIFY_PEER \<and>
         c_str ''ca.pem'' \<in> set (trusted_files (world L') 4)"
      "\<not> ok \<longrightarrow> (if verifies (world L') 4 then SSL_VERIFY_PEER else SSL_VERIFY_NONE) =
         (if verifies (world ?L) 4 then SSL_VERIFY_PEER else SSL_VERIFY_NONE)"
    using context_verifies_as_asked [OF laws, of ?L 0 4 small_runtime "''ALL''" "''c.pem''" "''k.pem''" "''ca.pem''" True]
    by (auto simp: small_runtime_def)
  then show ?thesis unfolding Let_def by (intro exI [of _ ok] exI [of _ L']) simp
qed

text \<open>What OpenSSL documents of attached buffers: \<open>SSL_free\<close> frees them.\<close>

definition frees_attached :: "'s runtime \<Rightarrow> 's ssl_api \<Rightarrow> (nat \<Rightarrow> nat \<Rightarrow> 's \<Rightarrow> bool) \<Rightarrow> bool" where
  "frees_attached R S attached \<longleftrightarrow>
     (\<forall>a b c s. attached b a (snd (SSL_set_bio S a b c s)) \<and> attached c a (snd (SSL_set_bio S a b c s)) \<and>
        (alive R (SSL_class, a) s \<longrightarrow> alive R (SSL_class, a) (snd (SSL_set_bio S a b c s)))) \<and>
     (\<forall>a b s. attached b a s \<longrightarrow> \<not> alive R (BIO_class, b) (snd (SSL_free S a s)))"

text \<open>A buffer that a script has attached to a connection must not be used once the connection has been
  collected: the connection has freed it, and the userdata of the buffer still points to it.\<close>

theorem buffer_freed_with_connection:
  assumes "frees_attached R S attached" "userdata L u = Some (Some ssl_name, (SSL_class, a))"
    and "bio_userdata v b L" "bio_userdata w c L" "u \<noteq> v"
    and "alive R (SSL_class, a) (world L)" "alive R (BIO_class, b) (world L)" "alive R (BIO_class, c) (world L)"
    and "is_int n" "0 \<le> n"
  shows "\<exists>L1 L2. ssl_setBios R S (L\<lparr>stack := [LUserdata u, LUserdata v, LUserdata w]\<rparr>) = Returns 0 L1 \<and>
     ssl_free R S (L1\<lparr>stack := [LUserdata u]\<rparr>) = Returns 0 L2 \<and>
     bio_readData R S ((without u L2)\<lparr>stack := [LUserdata v, LNumber (of_int n)]\<rparr>) = Ub"
proof -
  obtain s1 where s1: "SSL_set_bio S a b c (world L) = ((), s1)" by (cases "SSL_set_bio S a b c (world L)") simp
  obtain s2 where s2: "SSL_free S a s1 = ((), s2)" by (cases "SSL_free S a s1") simp
  have "attached b a s1" "alive R (SSL_class, a) s1"
    using assms(1,6) s1 unfolding frees_attached_def by (metis snd_conv)+
  moreover have "\<not> alive R (BIO_class, b) s2"
    using assms(1) s2 \<open>attached b a s1\<close> unfolding frees_attached_def by (metis snd_conv)
  ultimately show ?thesis
    using assms(2-10) s1 s2 by (simp add: ssl_setBios_def ssl_free_def bio_readData_def call_defs)
qed

definition connection_and_buffers :: "small_world lua" where
  "connection_and_buffers = \<lparr>stack = [], userdata = [0 \<mapsto> (Some ssl_name, (SSL_class, 7)),
       1 \<mapsto> (Some bio_name, (BIO_class, 8)), 2 \<mapsto> (Some bio_name, (BIO_class, 9))], next_userdata = 3,
     world = small_start\<lparr>objects := [(SSL_class, 7), (BIO_class, 8), (BIO_class, 9)]\<rparr>\<rparr>"

theorem buffer_freed_with_connection_witness:
  "\<exists>L1 L2. ssl_setBios small_runtime small_ssl
       (connection_and_buffers\<lparr>stack := [LUserdata 0, LUserdata 1, LUserdata 2]\<rparr>) = Returns 0 L1 \<and>
     ssl_free small_runtime small_ssl (L1\<lparr>stack := [LUserdata 0]\<rparr>) = Returns 0 L2 \<and>
     bio_readData small_runtime small_ssl ((without 0 L2)\<lparr>stack := [LUserdata 1, LNumber (of_int 16)]\<rparr>) = Ub"
proof (rule buffer_freed_with_connection [where a = 7 and b = 8 and c = 9])
  show "frees_attached small_runtime small_ssl (\<lambda>b a w. ((BIO_class, b), (SSL_class, a)) \<in> set (parents w))"
    by (simp add: frees_attached_def small_ssl_def small_attach_def small_free_def small_runtime_def)
qed (simp_all add: connection_and_buffers_def small_runtime_def is_int_def)

end
