(* ===== verification/Lua_XML.thy ===== *)
theory Lua_XML
  imports Lua_Runtime
begin

text \<open>
  The Lua bindings of libxml2 (\<open>luaxml/lua_xml.cc\<close>): documents and their nodes. The library is a parameter over
  the state of the libraries; the fields of its structures that the binding reads are an observation
  \<open>xml_node\<close>. A call that may report an error gives \<open>Inl\<close> of it: the handler the binding installs raises a Lua
  error from within the library.
\<close>

section \<open>Error handlers\<close>

datatype error_domain = XML_FROM_XPATH | XML_FROM_PARSER | Other_domain

record xml_error =
  domain :: error_domain
  err_file :: "string option"
  err_line :: int
  err_message :: "string option"
  str1 :: "string option"
  str2 :: "string option"
  str3 :: "string option"

text \<open>\<open>snprintf\<close> at a position of a buffer with some room: the text is cut to fit, a NUL follows it, and the result
  is the length of the whole text, -1 if that is no \<open>int\<close>. \<open>None\<close> is undefined behaviour: a write outside the
  buffer, or a position that overflows.\<close>

definition snprintf_at :: "int \<Rightarrow> nat \<Rightarrow> string \<Rightarrow> string \<Rightarrow> (int \<times> string) option" where
  "snprintf_at pos room text buf =
     (let n = (if is_int (int (length text)) then int (length text) else -1);
          out = (if room = 0 then [] else take (room - 1) text @ [NUL])
      in if 0 \<le> pos \<and> nat pos + length out \<le> length buf \<and> is_int (pos + n)
         then Some (pos + n, take (nat pos) buf @ out @ drop (nat pos + length out) buf)
         else None)"

definition msg_size :: nat where
  "msg_size = 1024"

text \<open>\<open>if (part && pos < msg_size) pos += snprintf(msg + pos, msg_size - pos, ...)\<close>\<close>

definition append_part :: "string option \<Rightarrow> int \<times> string \<Rightarrow> (int \<times> string) option" where
  "append_part part st =
     (case (part, st) of
        (Some text, (pos, buf)) \<Rightarrow>
          if to_ulong pos < int msg_size then snprintf_at pos (nat (int msg_size - pos)) text buf else Some (pos, buf)
      | (None, _) \<Rightarrow> Some st)"

definition domain_text :: "error_domain \<Rightarrow> string" where
  "domain_text d =
     (case d of
        XML_FROM_XPATH \<Rightarrow> ''Error evaluating xpath query:'' @ [CHR 0x0A]
      | XML_FROM_PARSER \<Rightarrow> ''Error parsing xml file:'' @ [CHR 0x0A]
      | Other_domain \<Rightarrow> ''Other error:'' @ [CHR 0x0A])"

text \<open>The texts that follow: place, message, details.\<close>

definition error_parts :: "xml_error \<Rightarrow> string option list" where
  "error_parts err =
     [map_option (\<lambda>f. f @ '':'' @ to_string (err_line err) @ '': '') (err_file err), err_message err,
      map_option (\<lambda>s. '': '' @ s) (str1 err), map_option (\<lambda>s. '': '' @ s) (str2 err),
      map_option (\<lambda>s. '': '' @ s) (str3 err)]"

fun append_parts :: "string option list \<Rightarrow> int \<times> string \<Rightarrow> (int \<times> string) option" where
  "append_parts [] st = Some st"
| "append_parts (p # ps) st = Option.bind (append_part p st) (append_parts ps)"

text \<open>The text of the Lua error; \<open>msg\<close> are the bytes the buffer happens to hold.\<close>

definition structuredErrorHandler :: "string \<Rightarrow> xml_error \<Rightarrow> string option" where
  "structuredErrorHandler msg err = do {
     st \<leftarrow> snprintf_at 0 msg_size (domain_text (domain err)) msg;
     (pos, buf) \<leftarrow> append_parts (error_parts err) st;
     buf_str buf }"

text \<open>The handler for other messages passes its \<open>va_list\<close> on as if it were the arguments: only a format without
  conversions is safe.\<close>

definition genericErrorHandler :: "string \<Rightarrow> string option" where
  "genericErrorHandler message =
     (if CHR ''%'' \<in> set message then None else Some (take 1022 message))"

section \<open>libxml2\<close>

datatype node_type = XML_ELEMENT_NODE | XML_TEXT_NODE | XML_ATTRIBUTE_NODE | Other_node

record xml_node =
  type_of :: node_type
  name_of :: "string option"
  content_of :: "string option"
  children_of :: "nat option"
  next_of :: "nat option"
  parent_of :: "nat option"
  properties_of :: "nat option"
  doc_of :: "nat option"

datatype xpath_object = XPATH_NODESET "nat list option" | XPATH_BOOLEAN bool | XPATH_NUMBER real
  | XPATH_STRING string | Other_object

record 's xml_api =
  uninitialized :: string
  xmlReadFile :: "string \<Rightarrow> 's \<Rightarrow> (xml_error + nat option) \<times> 's"
  xmlNewDoc :: "'s \<Rightarrow> nat \<times> 's"
  xmlXPathNewContext :: "nat \<Rightarrow> 's \<Rightarrow> nat option \<times> 's"
  xmlXPathSetContextNode :: "nat \<Rightarrow> nat \<Rightarrow> 's \<Rightarrow> unit \<times> 's"
  xmlXPathEvalExpression :: "string \<Rightarrow> nat \<Rightarrow> 's \<Rightarrow> (xml_error + xpath_object option) \<times> 's"
  xmlXPathFreeContext :: "nat \<Rightarrow> 's \<Rightarrow> unit \<times> 's"
  xmlSaveToFilename :: "string \<Rightarrow> bool \<Rightarrow> 's \<Rightarrow> (xml_error + nat option) \<times> 's"
  xmlSaveDoc :: "nat option \<Rightarrow> nat \<Rightarrow> 's \<Rightarrow> (xml_error + unit) \<times> 's"
  xmlSaveClose :: "nat option \<Rightarrow> 's \<Rightarrow> (xml_error + unit) \<times> 's"
  xmlNewDocNode :: "nat \<Rightarrow> string \<Rightarrow> string option \<Rightarrow> 's \<Rightarrow> nat \<times> 's"
  xmlDocSetRootElement :: "nat \<Rightarrow> nat \<Rightarrow> 's \<Rightarrow> unit \<times> 's"
  xmlNewNode :: "string \<Rightarrow> 's \<Rightarrow> nat \<times> 's"
  xmlAddChild :: "nat \<Rightarrow> nat \<Rightarrow> 's \<Rightarrow> unit \<times> 's"
  xmlFreeDoc :: "nat \<Rightarrow> 's \<Rightarrow> unit \<times> 's"
  xmlNodeSetContent :: "nat \<Rightarrow> string \<Rightarrow> 's \<Rightarrow> unit \<times> 's"
  xmlNodeGetContent :: "nat \<Rightarrow> 's \<Rightarrow> string option \<times> 's"
  xmlGetProp :: "nat \<Rightarrow> string \<Rightarrow> 's \<Rightarrow> string option \<times> 's"
  xmlSetProp :: "nat \<Rightarrow> string \<Rightarrow> string \<Rightarrow> 's \<Rightarrow> unit \<times> 's"
  xmlUnsetProp :: "nat \<Rightarrow> string \<Rightarrow> 's \<Rightarrow> unit \<times> 's"
  xmlUnlinkNode :: "nat \<Rightarrow> 's \<Rightarrow> unit \<times> 's"
  xmlFreeNode :: "nat \<Rightarrow> 's \<Rightarrow> unit \<times> 's"
  doc_children :: "nat \<Rightarrow> 's \<Rightarrow> nat option"
  node_at :: "nat \<Rightarrow> 's \<Rightarrow> xml_node"

text \<open>A call that may report an error through the handler.\<close>

definition xml_call :: "'s xml_api \<Rightarrow> ('s \<Rightarrow> (xml_error + 'r) \<times> 's) \<Rightarrow> ('r \<Rightarrow> 's cfun) \<Rightarrow> 's cfun" where
  "xml_call X f k =
     perform f (\<lambda>r L.
       case r of
         Inl err \<Rightarrow>
           (case structuredErrorHandler (uninitialized X) err of None \<Rightarrow> Ub | Some m \<Rightarrow> Raises (Message m) L)
       | Inr x \<Rightarrow> k x L)"

text \<open>\<open>lua_pushstring\<close> of a pointer that may be null.\<close>

definition text_value :: "string option \<Rightarrow> lua_value" where
  "text_value t = (case t of None \<Rightarrow> LNil | Some s \<Rightarrow> LString (c_str s))"

abbreviation doc_name :: string where "doc_name \<equiv> ''xml.Document''"
abbreviation node_mt :: string where "node_mt \<equiv> ''xml.Node''"

abbreviation checkdoc :: "(nat \<Rightarrow> 's cfun) \<Rightarrow> 's cfun" where
  "checkdoc \<equiv> luaL_checkudata 1 doc_name xmlDoc_class"
abbreviation checknode :: "nat \<Rightarrow> (nat \<Rightarrow> 's cfun) \<Rightarrow> 's cfun" where
  "checknode i \<equiv> luaL_checkudata i node_mt xmlNode_class"

definition push_node :: "nat \<Rightarrow> 's lua \<Rightarrow> 's lua" where
  "push_node n = push_object node_mt (xmlNode_class, n)"

text \<open>A node as a value for a table.\<close>

definition new_node :: "nat \<Rightarrow> 's lua \<Rightarrow> lua_value \<times> 's lua" where
  "new_node n L = (LUserdata (next_userdata L), lua_pop 1 (push_node n L))"

section \<open>Documents\<close>

definition xml_open :: "'s runtime \<Rightarrow> 's xml_api \<Rightarrow> 's cfun" where
  "xml_open R X =
     luaL_checkstring R 1 (\<lambda>filename.
     xml_call X (xmlReadFile X filename) (\<lambda>doc L.
       case doc of
         None \<Rightarrow> Returns 2 (push (LString ''Invalid xml file'') (push LNil L))
       | Some d \<Rightarrow> Returns 1 (push_object doc_name (xmlDoc_class, d) L)))"

definition xml_new :: "'s xml_api \<Rightarrow> 's cfun" where
  "xml_new X = create_object (always (xmlNewDoc X)) xmlDoc_class doc_name (\<lambda>_. Returns 1) (\<lambda>L. Ub)"

text \<open>The nodes a query found, from the index \<open>i\<close> on: elements as nodes, texts and attributes as texts, others
  left out. \<open>None\<close> is a failed assertion on an attribute.\<close>

fun xpath_items :: "'s xml_api \<Rightarrow> nat \<Rightarrow> nat list \<Rightarrow> 's lua \<Rightarrow> ((lua_value \<times> lua_value) list \<times> 's lua) option" where
  "xpath_items X i [] L = Some ([], L)"
| "xpath_items X i (n # ns) L =
     (let nd = node_at X n (world L); key = LNumber (of_nat i) in
      case type_of nd of
        XML_ELEMENT_NODE \<Rightarrow>
          (case new_node n L of (v, L1) \<Rightarrow> map_option (apfst (Cons (key, v))) (xpath_items X (Suc i) ns L1))
      | XML_TEXT_NODE \<Rightarrow> map_option (apfst (Cons (key, text_value (content_of nd)))) (xpath_items X (Suc i) ns L)
      | XML_ATTRIBUTE_NODE \<Rightarrow>
          (case children_of nd of
             None \<Rightarrow> None
           | Some c \<Rightarrow>
               if type_of (node_at X c (world L)) \<noteq> XML_TEXT_NODE then None
               else map_option (apfst (Cons (key, text_value (content_of (node_at X c (world L))))))
                 (xpath_items X (Suc i) ns L))
      | Other_node \<Rightarrow> xpath_items X (Suc i) ns L)"

definition xpath_result :: "'s xml_api \<Rightarrow> xpath_object \<Rightarrow> 's cfun" where
  "xpath_result X obj L =
     (case obj of
        XPATH_NODESET None \<Rightarrow> Returns 1 (push LNil L)
      | XPATH_NODESET (Some ns) \<Rightarrow>
          (case xpath_items X 1 ns L of
             None \<Rightarrow> Ub | Some (entries, L1) \<Rightarrow> Returns 1 (push (LTable entries) L1))
      | XPATH_BOOLEAN b \<Rightarrow> Returns 1 (push (LBool b) L)
      | XPATH_NUMBER x \<Rightarrow> Returns 1 (push (LNumber x) L)
      | XPATH_STRING s \<Rightarrow> Returns 1 (push (LString (c_str s)) L)
      | Other_object \<Rightarrow> Returns 1 (push LNil L))"

definition xpath_answer :: "'s xml_api \<Rightarrow> string \<Rightarrow> xpath_object option \<Rightarrow> 's cfun" where
  "xpath_answer X query result L =
     (case result of
        None \<Rightarrow>
          Returns 2 (push (LString (''Error evaluating xpath query: '' @ [CHR 0x22] @ query @ [CHR 0x22])) (push LNil L))
      | Some obj \<Rightarrow> xpath_result X obj L)"

definition eval_xpath :: "'s xml_api \<Rightarrow> nat \<Rightarrow> nat option \<Rightarrow> string \<Rightarrow> 's cfun" where
  "eval_xpath X doc node query =
     perform (xmlXPathNewContext X doc) (\<lambda>ctx L.
       case ctx of
         None \<Rightarrow> Returns 2 (push (LString ''Error creating xpath context'') (push LNil L))
       | Some c \<Rightarrow>
           perform (case node of None \<Rightarrow> Pair () | Some n \<Rightarrow> xmlXPathSetContextNode X n c) (\<lambda>_.
           xml_call X (xmlXPathEvalExpression X query c) (\<lambda>result.
           perform (xmlXPathFreeContext X c) (\<lambda>_. xpath_answer X query result))) L)"

definition doc_xpath :: "'s runtime \<Rightarrow> 's xml_api \<Rightarrow> 's cfun" where
  "doc_xpath R X =
     checkdoc (\<lambda>doc. luaL_checkstring R 2 (\<lambda>query. on_object R (xmlDoc_class, doc) (eval_xpath X doc None query)))"

text \<open>The first element in a chain of siblings.\<close>

partial_function (option) first_element :: "'s xml_api \<Rightarrow> 's \<Rightarrow> nat option \<Rightarrow> nat option option" where
  "first_element X s c =
     (case c of
        None \<Rightarrow> Some None
      | Some n \<Rightarrow>
          if type_of (node_at X n s) = XML_ELEMENT_NODE then Some (Some n)
          else first_element X s (next_of (node_at X n s)))"

definition doc_rootNode :: "'s runtime \<Rightarrow> 's xml_api \<Rightarrow> 's cfun" where
  "doc_rootNode R X =
     checkdoc (\<lambda>doc. on_object R (xmlDoc_class, doc) (\<lambda>L.
       case first_element X (world L) (doc_children X doc (world L)) of
         None \<Rightarrow> Diverges
       | Some None \<Rightarrow> Returns 1 (push LNil L)
       | Some (Some c) \<Rightarrow> Returns 1 (push_node c L)))"

definition doc_write :: "'s runtime \<Rightarrow> 's xml_api \<Rightarrow> 's cfun" where
  "doc_write R X =
     checkdoc (\<lambda>doc. luaL_checkstring R 2 (\<lambda>filename L.
       let format = (lua_gettop L = 2 \<or> lua_toboolean 3 L) in
       xml_call X (xmlSaveToFilename X filename format) (\<lambda>ctx.
       on_object R (xmlDoc_class, doc) (
       xml_call X (xmlSaveDoc X ctx doc) (\<lambda>_.
       xml_call X (xmlSaveClose X ctx) (\<lambda>_. Returns 0)))) L))"

definition doc_createRootNode :: "'s runtime \<Rightarrow> 's xml_api \<Rightarrow> 's cfun" where
  "doc_createRootNode R X =
     checkdoc (\<lambda>doc. luaL_checkstring R 2 (\<lambda>name L.
       let create = (\<lambda>content.
             invoke R (xmlDoc_class, doc) (xmlNewDocNode X doc name content) (\<lambda>node.
             invoke R (xmlDoc_class, doc) (xmlDocSetRootElement X doc node) (\<lambda>_ L. Returns 1 (push_node node L))))
       in if lua_gettop L > 2 then luaL_checkstring R 3 (\<lambda>content. create (Some content)) L else create None L))"

definition xml_close :: "'s runtime \<Rightarrow> 's xml_api \<Rightarrow> 's cfun" where
  "xml_close R X = checkdoc (\<lambda>doc. invoke R (xmlDoc_class, doc) (xmlFreeDoc X doc) (\<lambda>_. Returns 0))"

section \<open>Nodes\<close>

text \<open>The function has no \<open>return\<close>: its result is undefined.\<close>

definition node_addChild :: "'s runtime \<Rightarrow> 's xml_api \<Rightarrow> 's cfun" where
  "node_addChild R X =
     checknode 1 (\<lambda>parent. luaL_checkstring R 2 (\<lambda>name.
     perform (xmlNewNode X name) (\<lambda>node.
     invoke R (xmlNode_class, parent) (xmlAddChild X parent node) (\<lambda>_ L. Ub))))"

definition node_text :: "'s runtime \<Rightarrow> 's xml_api \<Rightarrow> 's cfun" where
  "node_text R X =
     checknode 1 (\<lambda>node L.
       if lua_gettop L > 1 then
         luaL_checkstring R 2 (\<lambda>text.
         invoke R (xmlNode_class, node) (xmlNodeSetContent X node text) (\<lambda>_ L. Returns 1 (lua_pop 1 L))) L
       else
         invoke R (xmlNode_class, node) (xmlNodeGetContent X node) (\<lambda>text L.
           Returns 1 (push (LString (case text of Some t \<Rightarrow> c_str t | None \<Rightarrow> ''<nil>'')) L)) L)"

definition node_name :: "'s runtime \<Rightarrow> 's xml_api \<Rightarrow> 's cfun" where
  "node_name R X =
     checknode 1 (\<lambda>node. on_object R (xmlNode_class, node) (\<lambda>L.
       Returns 1 (push (LString (case name_of (node_at X node (world L)) of
         Some t \<Rightarrow> c_str t | None \<Rightarrow> ''<nil>'')) L)))"

definition node_attr :: "'s runtime \<Rightarrow> 's xml_api \<Rightarrow> 's cfun" where
  "node_attr R X =
     checknode 1 (\<lambda>node. luaL_checkstring R 2 (\<lambda>attr L.
       if lua_gettop L < 3 then
         invoke R (xmlNode_class, node) (xmlGetProp X node attr) (\<lambda>text L. Returns 1 (push (text_value text) L)) L
       else if arg 3 L = Some LNil then
         invoke R (xmlNode_class, node) (xmlUnsetProp X node attr) (\<lambda>_ L. Returns 1 (lua_pop 2 L)) L
       else
         luaL_checkstring R 3 (\<lambda>text.
         invoke R (xmlNode_class, node) (xmlSetProp X node attr text) (\<lambda>_ L. Returns 1 (lua_pop 2 L))) L))"

definition node_xpath :: "'s runtime \<Rightarrow> 's xml_api \<Rightarrow> 's cfun" where
  "node_xpath R X =
     checknode 1 (\<lambda>node. on_object R (xmlNode_class, node) (\<lambda>L.
       case doc_of (node_at X node (world L)) of
         None \<Rightarrow> Raises (Message ''Invalid xml.Node object: must be included in a document'') L
       | Some doc \<Rightarrow> luaL_checkstring R 2 (\<lambda>query. eval_xpath X doc (Some node) query) L))"

definition node_parent :: "'s runtime \<Rightarrow> 's xml_api \<Rightarrow> 's cfun" where
  "node_parent R X =
     checknode 1 (\<lambda>node. on_object R (xmlNode_class, node) (\<lambda>L.
       case parent_of (node_at X node (world L)) of
         Some p \<Rightarrow> Returns 1 (push_node p L)
       | None \<Rightarrow> Returns 1 (push LNil L)))"

text \<open>The loop over the children: elements, with the name if a filter is given, are numbered from 1.\<close>

definition child_matches :: "string option \<Rightarrow> xml_node \<Rightarrow> bool" where
  "child_matches filtr nd \<longleftrightarrow>
     type_of nd = XML_ELEMENT_NODE \<and> (case filtr of None \<Rightarrow> True | Some f \<Rightarrow> name_of nd = Some f)"

partial_function (option) children_loop ::
  "'s xml_api \<Rightarrow> string option \<Rightarrow> nat option \<Rightarrow> nat \<Rightarrow> 's lua \<Rightarrow> ((lua_value \<times> lua_value) list \<times> 's lua) option" where
  "children_loop X filtr c i L =
     (case c of
        None \<Rightarrow> Some ([], L)
      | Some n \<Rightarrow>
          let nd = node_at X n (world L) in
          if child_matches filtr nd then
            case new_node n L of (v, L1) \<Rightarrow>
              Option.bind (children_loop X filtr (next_of nd) (Suc i) L1)
                (\<lambda>r. Some ((LNumber (of_nat (Suc i)), v) # fst r, snd r))
          else children_loop X filtr (next_of nd) i L)"

definition filter_text :: "'s runtime \<Rightarrow> 's lua \<Rightarrow> string option" where
  "filter_text R L =
     (case arg 2 L of
        Some (LString s) \<Rightarrow> Some (c_str s) | Some (LNumber x) \<Rightarrow> Some (c_str (number_string R x)) | _ \<Rightarrow> None)"

definition node_children :: "'s runtime \<Rightarrow> 's xml_api \<Rightarrow> 's cfun" where
  "node_children R X =
     checknode 1 (\<lambda>node. on_object R (xmlNode_class, node) (\<lambda>L.
       let nd = node_at X node (world L) in
       if type_of nd = XML_ELEMENT_NODE then
         (case children_loop X (filter_text R L) (children_of nd) 0 L of
            None \<Rightarrow> Diverges | Some (entries, L1) \<Rightarrow> Returns 1 (push (LTable entries) L1))
       else Returns 1 (push LNil L)))"

definition node_remove :: "'s runtime \<Rightarrow> 's xml_api \<Rightarrow> 's cfun" where
  "node_remove R X =
     checknode 1 (\<lambda>node.
     invoke R (xmlNode_class, node) (xmlUnlinkNode X node) (\<lambda>_.
     invoke R (xmlNode_class, node) (xmlFreeNode X node) (\<lambda>_. Returns 0)))"

partial_function (option) attributes_loop ::
  "'s xml_api \<Rightarrow> nat \<Rightarrow> nat option \<Rightarrow> 's \<Rightarrow> ((lua_value \<times> lua_value) list \<times> 's) option" where
  "attributes_loop X node c s =
     (case c of
        None \<Rightarrow> Some ([], s)
      | Some n \<Rightarrow>
          let nd = node_at X n s in
          if type_of nd = XML_ATTRIBUTE_NODE then
            case xmlGetProp X node (case name_of nd of None \<Rightarrow> [] | Some t \<Rightarrow> t) s of (v, s1) \<Rightarrow>
              Option.bind (attributes_loop X node (next_of nd) s1)
                (\<lambda>r. Some ((text_value (name_of nd), text_value v) # fst r, snd r))
          else attributes_loop X node (next_of nd) s)"

definition node_attributes :: "'s runtime \<Rightarrow> 's xml_api \<Rightarrow> 's cfun" where
  "node_attributes R X =
     checknode 1 (\<lambda>node. on_object R (xmlNode_class, node) (\<lambda>L.
       let nd = node_at X node (world L) in
       if type_of nd = XML_ELEMENT_NODE then
         (case attributes_loop X node (properties_of nd) (world L) of
            None \<Rightarrow> Diverges | Some (entries, s) \<Rightarrow> Returns 1 (push (LTable entries) (L\<lparr>world := s\<rparr>)))
       else Returns 1 (push LNil L)))"

definition node_eq :: "'s cfun" where
  "node_eq = checknode 1 (\<lambda>a. checknode 2 (\<lambda>b L. Returns 1 (push (LBool (a = b)) L)))"

text \<open>\<open>__eq\<close>, which Lua calls to compare two nodes, stands with the methods.\<close>

definition luaopen_xml :: "'s runtime \<Rightarrow> 's xml_api \<Rightarrow> 's lua_library" where
  "luaopen_xml R X = \<lparr>
     module_functions = [(''open'', xml_open R X), (''new'', xml_new X)],
     metatables =
       [(doc_name,
          [(''xpath'', doc_xpath R X), (''rootNode'', doc_rootNode R X), (''write'', doc_write R X),
           (''createRootNode'', doc_createRootNode R X)],
          Some (xml_close R X)),
        (node_mt,
          [(''text'', node_text R X), (''name'', node_name R X), (''attr'', node_attr R X), (''xpath'', node_xpath R X),
           (''children'', node_children R X), (''parent'', node_parent R X), (''attributes'', node_attributes R X),
           (''addChild'', node_addChild R X), (''remove'', node_remove R X), (''__eq'', node_eq)],
          None)] \<rparr>"

section \<open>What the bindings rely on\<close>

text \<open>Calls may free nodes and documents, also those a script still has: nobody owns them. They keep all other
  objects.\<close>

abbreviation keeps_others :: "'s runtime \<Rightarrow> ('s \<Rightarrow> 'r \<times> 's) \<Rightarrow> bool" where
  "keeps_others R \<equiv> keeps_except R [xmlDoc_class, xmlNode_class] None"

definition xml_api_ok :: "'s runtime \<Rightarrow> 's xml_api \<Rightarrow> bool" where
  "xml_api_ok R X \<longleftrightarrow>
     (\<forall>x. keeps_others R (xmlReadFile X x)) \<and> keeps_others R (xmlNewDoc X) \<and>
     (\<forall>a. keeps_others R (xmlXPathNewContext X a)) \<and> (\<forall>a b. keeps_others R (xmlXPathSetContextNode X a b)) \<and>
     (\<forall>q a. keeps_others R (xmlXPathEvalExpression X q a)) \<and> (\<forall>a. keeps_others R (xmlXPathFreeContext X a)) \<and>
     (\<forall>x b. keeps_others R (xmlSaveToFilename X x b)) \<and> (\<forall>c a. keeps_others R (xmlSaveDoc X c a)) \<and>
     (\<forall>c. keeps_others R (xmlSaveClose X c)) \<and> (\<forall>a x y. keeps_others R (xmlNewDocNode X a x y)) \<and>
     (\<forall>a b. keeps_others R (xmlDocSetRootElement X a b)) \<and> (\<forall>x. keeps_others R (xmlNewNode X x)) \<and>
     (\<forall>a b. keeps_others R (xmlAddChild X a b)) \<and> (\<forall>a. keeps_others R (xmlFreeDoc X a)) \<and>
     (\<forall>a x. keeps_others R (xmlNodeSetContent X a x)) \<and> (\<forall>a. keeps_others R (xmlNodeGetContent X a)) \<and>
     (\<forall>a x. keeps_others R (xmlGetProp X a x)) \<and> (\<forall>a x y. keeps_others R (xmlSetProp X a x y)) \<and>
     (\<forall>a x. keeps_others R (xmlUnsetProp X a x)) \<and> (\<forall>a. keeps_others R (xmlUnlinkNode X a)) \<and>
     (\<forall>a. keeps_others R (xmlFreeNode X a))"

lemma xml_api_okD:
  assumes "xml_api_ok R X"
  shows "keeps_others R (xmlReadFile X x)" "keeps_others R (xmlNewDoc X)"
    "keeps_others R (xmlXPathNewContext X a)" "keeps_others R (xmlXPathSetContextNode X a b)"
    "keeps_others R (xmlXPathEvalExpression X x a)" "keeps_others R (xmlXPathFreeContext X a)"
    "keeps_others R (xmlSaveToFilename X x f)" "keeps_others R (xmlSaveDoc X c a)" "keeps_others R (xmlSaveClose X c)"
    "keeps_others R (xmlNewDocNode X a x c')" "keeps_others R (xmlDocSetRootElement X a b)" "keeps_others R (xmlNewNode X x)"
    "keeps_others R (xmlAddChild X a b)" "keeps_others R (xmlFreeDoc X a)" "keeps_others R (xmlNodeSetContent X a x)"
    "keeps_others R (xmlNodeGetContent X a)" "keeps_others R (xmlGetProp X a x)" "keeps_others R (xmlSetProp X a x y)"
    "keeps_others R (xmlUnsetProp X a x)" "keeps_others R (xmlUnlinkNode X a)" "keeps_others R (xmlFreeNode X a)"
  using assms by (simp_all add: xml_api_ok_def)

lemma keeps_others_nothing: "keeps_others R (Pair x)"
  by (simp add: keeps_except_def kept_same)

text \<open>The bindings of XML over any table and any classes that leave documents and nodes to nobody.\<close>

definition xml_classes :: "(string \<times> cpp_class) list \<Rightarrow> cpp_class list \<Rightarrow> bool" where
  "xml_classes table cs \<longleftrightarrow> map_of table doc_name = Some xmlDoc_class \<and> map_of table node_mt = Some xmlNode_class \<and>
     {xmlDoc_class, xmlNode_class} \<inter> set cs = {}"

lemma sound_xml_perform:
  assumes "sound_userdata R table cs L" "xml_classes table cs" "keeps_others R f"
    and "\<And>r L. sound_userdata R table cs L \<Longrightarrow> post (sound_userdata R table cs) (k r L)"
  shows "post (sound_userdata R table cs) (perform f k L)"
  using sound_kept_except [OF assms(1,3)] assms(2,4) by (intro post_perform) (auto simp: xml_classes_def)

lemma sound_xml_invoke:
  assumes "sound_userdata R table cs L" "xml_classes table cs" "keeps_others R f"
    and "\<And>r L. sound_userdata R table cs L \<Longrightarrow> post (sound_userdata R table cs) (k r L)"
  shows "post (sound_userdata R table cs) (invoke R' p f k L)"
  using assms sound_invoke_except [OF assms(1,3)] by (auto simp: xml_classes_def)

lemma sound_xml_call:
  assumes "sound_userdata R table cs L" "xml_classes table cs" "keeps_others R f"
    and "\<And>r L. sound_userdata R table cs L \<Longrightarrow> post (sound_userdata R table cs) (k r L)"
  shows "post (sound_userdata R table cs) (xml_call X f k L)"
  unfolding xml_call_def
  by (rule sound_xml_perform [OF assms(1-3)]) (auto simp: assms(4) split: sum.splits option.splits)

lemma sound_push_node:
  "sound_userdata R table cs L \<Longrightarrow> xml_classes table cs \<Longrightarrow> sound_userdata R table cs (push_node n L)"
  unfolding push_node_def by (rule sound_push_unowned) (auto simp: xml_classes_def)

lemma sound_new_node:
  "sound_userdata R table cs L \<Longrightarrow> xml_classes table cs \<Longrightarrow> sound_userdata R table cs (snd (new_node n L))"
  by (simp add: new_node_def sound_push_node)

lemma sound_xpath_items:
  "xpath_items X i ns L = Some (es, L') \<Longrightarrow> sound_userdata R table cs L \<Longrightarrow> xml_classes table cs \<Longrightarrow>
   sound_userdata R table cs L'"
proof (induction ns arbitrary: i L es)
  case (Cons n ns)
  then show ?case
    using sound_new_node [OF Cons.prems(2,3), of n]
    by (auto simp: Let_def case_prod_beta split: node_type.splits option.splits if_splits)
qed simp

lemma sound_children_loop:
  "children_loop X filtr c i L = Some r \<Longrightarrow> sound_userdata R table cs L \<Longrightarrow> xml_classes table cs \<Longrightarrow>
   sound_userdata R table cs (snd r)"
proof (induction arbitrary: R table cs rule: children_loop.raw_induct [rotated, consumes 1])
  case (1 loop X filtr c i L r)
  show ?case
  proof (cases c)
    case None
    with 1 show ?thesis by auto
  next
    case (Some n)
    have "sound_userdata R table cs (snd (new_node n L))" using 1(3,4) by (rule sound_new_node)
    with 1 Some show ?thesis
      by (auto simp: Let_def case_prod_beta bind_eq_Some_conv split: if_splits)
  qed
qed

lemma keeps_attributes_loop:
  "attributes_loop X node c s = Some r \<Longrightarrow> xml_api_ok R X \<Longrightarrow> held R (k, a) s \<Longrightarrow> k \<notin> {xmlDoc_class, xmlNode_class} \<Longrightarrow>
   kept R (k, a) s (snd r)"
proof (induction arbitrary: R k a rule: attributes_loop.raw_induct [rotated, consumes 1])
  case (1 loop X node c s r)
  have get: "kept R (k, a) s (snd (xmlGetProp X node x s))" for x
    using xml_api_okD(17) [OF 1(3), of node x] 1(4,5) unfolding keeps_except_def by auto
  have "kept R (k, a) s (snd r')" if "loop X node c' (snd (xmlGetProp X node x s)) = Some r'" for c' x r'
    using get [of x] 1(1) [OF that 1(3) kept_held [OF get] 1(5)] by (rule kept_trans)
  with 1 show ?case
    by (auto simp: kept_same Let_def case_prod_beta bind_eq_Some_conv split: option.splits if_splits)
qed

lemma sound_attributes_loop:
  assumes "attributes_loop X node c (world L) = Some (es, s)" "xml_api_ok R X" "sound_userdata R table cs L"
    and "xml_classes table cs"
  shows "sound_userdata R table cs (L\<lparr>world := s\<rparr>)"
proof -
  have "kept R p (world L) s" if "held R p (world L)" "fst p \<in> set cs" for p
  proof -
    have "fst p \<notin> {xmlDoc_class, xmlNode_class}" using that(2) assms(4) by (auto simp: xml_classes_def)
    with keeps_attributes_loop [OF assms(1,2), of "fst p" "snd p"] that(1) show ?thesis by simp
  qed
  then have "owned R cs (L\<lparr>world := s\<rparr>)"
    using assms(3) by (intro owned_world) (auto simp: sound_userdata_def)
  with assms(3) show ?thesis by (simp add: sound_userdata_def)
qed

lemma sound_xpath_answer:
  assumes "sound_userdata R table cs L" "xml_classes table cs"
  shows "post (sound_userdata R table cs) (xpath_answer X query result L)"
  using assms sound_xpath_items [of X 1 _ L _ _ R table cs]
  by (auto simp: xpath_answer_def xpath_result_def split: xpath_object.splits option.splits)

lemma sound_eval_xpath:
  assumes "xml_api_ok R X" "xml_classes table cs" "sound_userdata R table cs L"
  shows "post (sound_userdata R table cs) (eval_xpath X doc node query L)"
proof -
  have node: "keeps_others R (case node of None \<Rightarrow> Pair () | Some n \<Rightarrow> xmlXPathSetContextNode X n c)" for c
    by (cases node) (simp_all add: xml_api_okD [OF assms(1)] keeps_others_nothing)
  have eval: "post (sound_userdata R table cs)
      (perform (case node of None \<Rightarrow> Pair () | Some n \<Rightarrow> xmlXPathSetContextNode X n c) (\<lambda>_.
       xml_call X (xmlXPathEvalExpression X query c) (\<lambda>result.
       perform (xmlXPathFreeContext X c) (\<lambda>_. xpath_answer X query result))) L)"
    if "sound_userdata R table cs L" for c L
    by (intro sound_xml_perform sound_xml_call node sound_xpath_answer xml_api_okD [OF assms(1)] that assms(2))
  show ?thesis
    unfolding eval_xpath_def
  proof (rule sound_xml_perform [OF assms(3,2) xml_api_okD(3) [OF assms(1)]])
    fix ctx L assume L: "sound_userdata R table cs L"
    show "post (sound_userdata R table cs) (case ctx of
         None \<Rightarrow> Returns 2 (push (LString ''Error creating xpath context'') (push LNil L))
       | Some c \<Rightarrow>
           perform (case node of None \<Rightarrow> Pair () | Some n \<Rightarrow> xmlXPathSetContextNode X n c) (\<lambda>_.
           xml_call X (xmlXPathEvalExpression X query c) (\<lambda>result.
           perform (xmlXPathFreeContext X c) (\<lambda>_. xpath_answer X query result))) L)"
    proof (cases ctx)
      case None
      with L show ?thesis by simp
    next
      case (Some c)
      show ?thesis unfolding Some option.case by (rule eval [OF L])
    qed
  qed
qed

lemmas xml_defs = xml_open_def doc_xpath_def doc_rootNode_def doc_write_def
  doc_createRootNode_def node_addChild_def node_text_def node_name_def node_attr_def node_xpath_def node_parent_def
  node_remove_def node_eq_def

text \<open>All functions of the module keep userdata sound.\<close>

lemma luaopen_xml_sound:
  assumes "xml_api_ok R X" "f \<in> set (library_functions (luaopen_xml R X))" "xml_classes table cs"
    and "sound_userdata R table cs L"
  shows "post (sound_userdata R table cs) (f L)"
proof -
  note api = xml_api_okD [OF assms(1)]
  have doc: "sound_userdata R table cs (push_object doc_name (xmlDoc_class, d) L)" if "sound_userdata R table cs L" for d L
    using that assms(3) by (intro sound_push_unowned) (auto simp: xml_classes_def)
  have new: "post (sound_userdata R table cs) (xml_new X L)" if "sound_userdata R table cs L" for L
    using sound_kept_except [OF that api(2)] assms(3) doc
    by (auto simp: xml_new_def create_object_def xml_classes_def split: prod.splits)
  have children: "post (sound_userdata R table cs) (node_children R X L)" if "sound_userdata R table cs L" for L
    unfolding node_children_def using that sound_children_loop assms(3)
    by (auto simp: Let_def intro!: post_rules split: option.splits prod.splits) fastforce
  have attributes: "post (sound_userdata R table cs) (node_attributes R X L)" if "sound_userdata R table cs L" for L
    unfolding node_attributes_def using that sound_attributes_loop [OF _ assms(1) _ assms(3)]
    by (auto simp: Let_def intro!: post_rules split: option.splits prod.splits)
  note rules = post_checkudata post_checkstring post_on_object stackless_sound sound_xml_call [OF _ assms(3)]
    sound_xml_invoke [OF _ assms(3)] sound_xml_perform [OF _ assms(3)] sound_push_node [OF _ assms(3)]
    sound_eval_xpath [OF assms(1,3)] api doc
  have "f \<in> {xml_open R X, xml_new X, doc_xpath R X, doc_rootNode R X, doc_write R X, doc_createRootNode R X,
      node_text R X, node_name R X, node_attr R X, node_xpath R X, node_children R X, node_parent R X,
      node_attributes R X, node_addChild R X, node_remove R X, node_eq}"
    using assms(2) by (auto simp: set_library_functions luaopen_xml_def)
  then show ?thesis
    using assms(4) new children attributes
    by (elim insertE emptyE)
      (auto simp: xml_defs Let_def intro!: rules split: option.splits)
qed

lemma luaopen_xml_finalizer:
  assumes "xml_api_ok R X" "library_finalizer (luaopen_xml R X) name = Some f" "xml_classes table cs"
    and "sound_userdata R table cs L"
  shows "post (\<lambda>L'. sound_userdata R table cs (without u L')) (f L)"
proof -
  have "f = xml_close R X"
    using assms(2) by (auto simp: library_finalizer_def luaopen_xml_def split: if_splits)
  then have "post (sound_userdata R table cs) (f L)"
    using assms(4) unfolding xml_close_def
    by (auto intro!: post_checkudata sound_xml_invoke [OF _ assms(3)] xml_api_okD [OF assms(1)])
  then show ?thesis by (rule post_mono) (simp add: sound_userdata_def typed_without owned_without)
qed

text \<open>Freeing a document frees its nodes and no other document; documents are no children of objects.\<close>

definition documents_apart :: "'s runtime \<Rightarrow> 's xml_api \<Rightarrow> bool" where
  "documents_apart R X \<longleftrightarrow>
     (\<forall>d. keeps_except R [xmlNode_class] (Some (xmlDoc_class, d)) (xmlFreeDoc X d)) \<and>
     (\<forall>q p s. child_of R q p s \<longrightarrow> fst q \<noteq> xmlDoc_class \<and> fst p \<noteq> xmlDoc_class)"

lemma close_owned_document:
  assumes "documents_apart R X" "map_of table doc_name = Some xmlDoc_class" "xmlDoc_class \<in> set cs" "xmlNode_class \<notin> set cs"
    and "sound_userdata R table cs L" "stack L = [LUserdata u]" "userdata L u = Some (Some doc_name, p)"
  shows "post (\<lambda>L'. sound_userdata R table cs (without u L')) (xml_close R X L)"
  unfolding xml_close_def
  using assms(1,4) by (intro sound_deletes_except [OF assms(5-7,2,3)]) (auto simp: documents_apart_def)

section \<open>Error texts fit their buffer\<close>

definition part_text :: "string option \<Rightarrow> string" where
  "part_text p = (case p of None \<Rightarrow> [] | Some t \<Rightarrow> t)"

text \<open>The text of an error without any limit.\<close>

definition full_text :: "xml_error \<Rightarrow> string" where
  "full_text err = domain_text (domain err) @ concat (map part_text (error_parts err))"

text \<open>After the text \<open>T\<close> the buffer holds its beginning and a NUL, and the position is its length unless the
  buffer is full.\<close>

definition holds_text :: "string \<Rightarrow> int \<times> string \<Rightarrow> bool" where
  "holds_text T st \<longleftrightarrow> (case st of (pos, buf) \<Rightarrow>
     (\<exists>rest. buf = take 1023 T @ NUL # rest) \<and> length buf = msg_size \<and> 0 \<le> pos \<and> pos \<le> int (length T) \<and>
     (pos < int msg_size \<longrightarrow> pos = int (length T)) \<and> (int msg_size \<le> pos \<longrightarrow> msg_size \<le> length T))"

lemma snprintf_holds:
  assumes "take (length T) buf = T" "length T < msg_size" "length buf = msg_size" "int (length (T @ t)) < 2 ^ 31"
  shows "\<exists>st. snprintf_at (int (length T)) (msg_size - length T) t buf = Some st \<and> holds_text (T @ t) st"
proof -
  let ?out = "take (msg_size - length T - 1) t @ [NUL]"
  let ?buf = "T @ ?out @ drop (length T + length ?out) buf"
  have fits: "length T + length ?out \<le> msg_size" using assms(2) by simp
  have "is_int (int (length t))" "is_int (int (length T) + int (length t))" using assms(4) by (simp_all add: is_int_def)
  then have "snprintf_at (int (length T)) (msg_size - length T) t buf = Some (int (length T) + int (length t), ?buf)"
    using assms(1-3) fits by (simp add: snprintf_at_def Let_def)
  moreover have "holds_text (T @ t) (int (length T) + int (length t), ?buf)"
    unfolding holds_text_def prod.case
  proof (intro conjI)
    have "T @ take (msg_size - length T - 1) t = take 1023 (T @ t)" using assms(2) by (simp add: msg_size_def)
    then show "\<exists>rest. ?buf = take 1023 (T @ t) @ NUL # rest" by (metis append.assoc append_Cons append_Nil)
    show "length ?buf = msg_size" using fits assms(3) by simp
  qed auto
  ultimately show ?thesis by blast
qed

lemma append_part_holds:
  assumes "holds_text T st" "int (length (T @ part_text p)) < 2 ^ 31"
  shows "\<exists>st'. append_part p st = Some st' \<and> holds_text (T @ part_text p) st'"
proof (cases p)
  case None
  then show ?thesis using assms(1) by (cases st) (simp add: append_part_def part_text_def)
next
  case (Some t)
  obtain pos buf where st: "st = (pos, buf)" by fastforce
  have pos: "0 \<le> pos" "pos \<le> int (length T)" using assms(1) st by (simp_all add: holds_text_def)
  moreover have "int (length T) < 2 ^ 31" using assms(2) by simp
  ultimately have ulong: "to_ulong pos = pos" by (intro to_ulong_id) auto
  show ?thesis
  proof (cases "pos < int msg_size")
    case True
    then have T: "pos = int (length T)" "length T < msg_size" "length buf = msg_size" using assms(1) st
      by (auto simp: holds_text_def)
    moreover have "take (length T) buf = T" using assms(1) st T(2) by (auto simp: holds_text_def msg_size_def)
    moreover have "nat (int msg_size - int (length T)) = msg_size - length T" by simp
    ultimately show ?thesis
      using snprintf_holds [of T buf t] assms(2) ulong True Some st by (simp add: append_part_def part_text_def)
  next
    case False
    then show ?thesis using assms(1) ulong Some st by (auto simp: append_part_def part_text_def holds_text_def)
  qed
qed

lemma append_parts_holds:
  assumes "holds_text T st" "int (length (T @ concat (map part_text ps))) < 2 ^ 31"
  shows "\<exists>st'. append_parts ps st = Some st' \<and> holds_text (T @ concat (map part_text ps)) st'"
  using assms
proof (induction ps arbitrary: T st)
  case (Cons p ps)
  then obtain st1 where "append_part p st = Some st1" "holds_text (T @ part_text p) st1"
    using append_part_holds [of T st p] by auto
  then show ?case using Cons.IH [of "T @ part_text p" st1] Cons.prems(2) by simp
qed simp

text \<open>C21: the handler of XML errors never writes outside its buffer of 1024 bytes, and the Lua error has the first
  1023 characters of the complete text: what kind of error, the file with the line, the message and the details, in
  this order and each only if present.\<close>

theorem xml_error_text:
  assumes "length msg = msg_size" "NUL \<notin> set (full_text err)" "int (length (full_text err)) < 2 ^ 31"
  shows "structuredErrorHandler msg err = Some (take 1023 (full_text err))"
proof -
  obtain st where st: "snprintf_at 0 msg_size (domain_text (domain err)) msg = Some st"
      "holds_text (domain_text (domain err)) st"
    using snprintf_holds [of "[]" msg "domain_text (domain err)"] assms(1,3)
    by (auto simp: full_text_def msg_size_def)
  then obtain pos buf where "append_parts (error_parts err) st = Some (pos, buf)" "holds_text (full_text err) (pos, buf)"
    using append_parts_holds [OF st(2), of "error_parts err"] assms(3) unfolding full_text_def by auto
  moreover from this obtain rest where "buf = take 1023 (full_text err) @ NUL # rest" by (auto simp: holds_text_def)
  moreover have "NUL \<notin> set (take 1023 (full_text err))" using assms(2) by (meson in_set_takeD)
  ultimately show ?thesis using st(1) by (simp add: structuredErrorHandler_def buf_str_append_NUL)
qed

theorem xml_error_text_witness:
  "structuredErrorHandler (replicate 1024 CHR ''?'')
     \<lparr>domain = XML_FROM_PARSER, err_file = Some ''a.xml'', err_line = 3, err_message = Some ''bad'', str1 = None,
      str2 = Some ''b'', str3 = None\<rparr> = Some (''Error parsing xml file:'' @ [CHR 0x0A] @ ''a.xml:3: bad: b'')"
proof -
  have "to_string 3 = ''3''" by code_simp
  then show ?thesis
    by (subst xml_error_text)
      (simp_all add: msg_size_def full_text_def domain_text_def error_parts_def part_text_def)
qed

section \<open>Children in order\<close>

text \<open>A chain of siblings: the nodes \<open>ns\<close> from \<open>c\<close> on.\<close>

fun chain :: "'s xml_api \<Rightarrow> 's \<Rightarrow> nat option \<Rightarrow> nat list \<Rightarrow> bool" where
  "chain X s c [] \<longleftrightarrow> c = None"
| "chain X s c (n # ns) \<longleftrightarrow> c = Some n \<and> chain X s (next_of (node_at X n s)) ns"

text \<open>The nodes behind the entries of a table, and their keys.\<close>

definition nodes_in :: "(lua_value \<times> lua_value) list \<Rightarrow> 's lua \<Rightarrow> (string option \<times> pointer) option list" where
  "nodes_in entries L = map (\<lambda>(k, v). case v of LUserdata u \<Rightarrow> userdata L u | _ \<Rightarrow> None) entries"

definition node_userdata :: "nat \<Rightarrow> string option \<times> pointer" where
  "node_userdata n = (Some node_mt, (xmlNode_class, n))"

definition grown :: "'s lua \<Rightarrow> 's lua \<Rightarrow> bool" where
  "grown L L' \<longleftrightarrow> world L' = world L \<and> stack L' = stack L \<and> next_userdata L \<le> next_userdata L' \<and>
     (\<forall>u < next_userdata L. userdata L' u = userdata L u)"

lemma new_node_grown:
  "fst (new_node n L) = LUserdata (next_userdata L)" "grown L (snd (new_node n L))"
  "userdata (snd (new_node n L)) (next_userdata L) = Some (node_userdata n)"
  "next_userdata (snd (new_node n L)) = Suc (next_userdata L)"
  by (auto simp: new_node_def push_node_def push_object_eq lua_pop_def grown_def node_userdata_def)

lemma children_loop_exact:
  assumes "chain X (world L) c ns"
  shows "\<exists>entries L'. children_loop X filtr c i L = Some (entries, L') \<and> grown L L' \<and>
     nodes_in entries L' = map (\<lambda>n. Some (node_userdata n)) (filter (\<lambda>n. child_matches filtr (node_at X n (world L))) ns) \<and>
     map fst entries = map (\<lambda>j. LNumber (of_nat j)) [Suc i..<Suc i + length entries]"
  using assms
proof (induction ns arbitrary: c i L)
  case Nil
  then show ?case by (subst children_loop.simps) (simp add: grown_def nodes_in_def)
next
  case (Cons n ns)
  let ?nd = "node_at X n (world L)"
  have c: "c = Some n" and rest: "chain X (world L) (next_of ?nd) ns" using Cons.prems by auto
  note step = children_loop.simps [of X filtr c i L]
  show ?case
  proof (cases "child_matches filtr ?nd")
    case False
    then show ?thesis using Cons.IH [OF rest, of i] c by (subst step) simp
  next
    case True
    obtain v L1 where new: "new_node n L = (v, L1)" by fastforce
    note L1 = new_node_grown [where n = n and L = L, unfolded new fst_conv snd_conv]
    have w: "world L1 = world L" using L1(2) by (simp add: grown_def)
    obtain entries L' where IH: "children_loop X filtr (next_of ?nd) (Suc i) L1 = Some (entries, L')" "grown L1 L'"
        "nodes_in entries L' = map (\<lambda>n. Some (node_userdata n)) (filter (\<lambda>n. child_matches filtr (node_at X n (world L))) ns)"
        "map fst entries = map (\<lambda>j. LNumber (of_nat j)) [Suc (Suc i)..<Suc (Suc i) + length entries]"
      using Cons.IH [of L1 "next_of ?nd" "Suc i"] rest w by auto
    have "userdata L' (next_userdata L) = Some (node_userdata n)" using IH(2) L1(3,4) by (simp add: grown_def)
    moreover have "grown L L'" using L1(2,4) IH(2) by (auto simp: grown_def)
    moreover have "children_loop X filtr c i L = Some ((LNumber (of_nat (Suc i)), v) # entries, L')"
      using c True new IH(1) by (subst step) (simp add: Let_def)
    moreover have "[Suc i..<Suc i + Suc (length entries)] = Suc i # [Suc (Suc i)..<Suc (Suc i) + length entries]"
      using upt_conv_Cons [of "Suc i" "Suc i + Suc (length entries)"] by (simp del: upt_Suc)
    ultimately show ?thesis using IH(3,4) L1(1) True by (simp add: nodes_in_def del: upt_Suc)
  qed
qed

text \<open>C22: \<open>children\<close> of an element returns, for every finite chain of siblings, a table of exactly its children that
  are elements and have the wanted name, in document order and numbered from 1 without gaps; nothing else changes.\<close>

theorem node_children_exact:
  assumes "userdata L u = Some (node_userdata n)" "alive R (xmlNode_class, n) (world L)" "u < next_userdata L"
    and "type_of (node_at X n (world L)) = XML_ELEMENT_NODE" "chain X (world L) (children_of (node_at X n (world L))) ns"
  shows "\<exists>entries L'. node_children R X (L\<lparr>stack := [LUserdata u, LString f]\<rparr>) = Returns 1 L' \<and>
     stack L' = [LUserdata u, LString f, LTable entries] \<and> world L' = world L \<and>
     nodes_in entries L' = map (\<lambda>n. Some (node_userdata n))
       (filter (\<lambda>n. type_of (node_at X n (world L)) = XML_ELEMENT_NODE \<and> name_of (node_at X n (world L)) = Some (c_str f)) ns) \<and>
     map fst entries = map (\<lambda>j. LNumber (of_nat j)) [1..<Suc (length entries)]"
proof -
  let ?L = "L\<lparr>stack := [LUserdata u, LString f]\<rparr>"
  obtain entries L' where l: "children_loop X (Some (c_str f)) (children_of (node_at X n (world L))) 0 ?L = Some (entries, L')"
      "grown ?L L'" "nodes_in entries L' = map (\<lambda>n. Some (node_userdata n))
         (filter (\<lambda>n. child_matches (Some (c_str f)) (node_at X n (world L))) ns)"
      "map fst entries = map (\<lambda>j. LNumber (of_nat j)) [1..<Suc (length entries)]"
    using children_loop_exact [of X ?L "children_of (node_at X n (world L))" ns "Some (c_str f)" 0] assms(5) by auto
  have "node_children R X ?L = Returns 1 (push (LTable entries) L')"
    using assms(1,2,4) l(1)
    by (simp add: node_children_def luaL_checkudata_def node_userdata_def arg_def on_object_def filter_text_def Let_def)
  then show ?thesis using l(2-4) by (auto simp: push_def nodes_in_def grown_def child_matches_def)
qed

section \<open>libxml2 in the small world\<close>

text \<open>Three nodes: an element 1 with the children 2, a text, and 3, an element \<open>b\<close>. Freeing a document frees the
  nodes whose parent it is.\<close>

definition small_node :: "nat \<Rightarrow> xml_node" where
  "small_node n = \<lparr>type_of = (if n = 2 then XML_TEXT_NODE else XML_ELEMENT_NODE), name_of = Some (if n = 3 then ''b'' else ''a''),
     content_of = None, children_of = (if n = 1 then Some 2 else None), next_of = (if n = 2 then Some 3 else None),
     parent_of = None, properties_of = None, doc_of = None\<rparr>"

definition small_free_doc :: "nat \<Rightarrow> small_world \<Rightarrow> unit \<times> small_world" where
  "small_free_doc d w = ((), w\<lparr>objects := filter (\<lambda>p. p \<noteq> (xmlDoc_class, d) \<and>
     \<not> (fst p = xmlNode_class \<and> (p, (xmlDoc_class, d)) \<in> set (parents w))) (objects w)\<rparr>)"

definition small_xml :: "small_world xml_api" where
  "small_xml = \<lparr>uninitialized = replicate 1024 CHR ''?'', xmlReadFile = (\<lambda>x. Pair (Inr None)), xmlNewDoc = small_new xmlDoc_class,
     xmlXPathNewContext = (\<lambda>d. Pair None), xmlXPathSetContextNode = (\<lambda>n c. Pair ()),
     xmlXPathEvalExpression = (\<lambda>q c. Pair (Inr None)), xmlXPathFreeContext = (\<lambda>c. Pair ()),
     xmlSaveToFilename = (\<lambda>x b. Pair (Inr None)), xmlSaveDoc = (\<lambda>c d. Pair (Inr ())), xmlSaveClose = (\<lambda>c. Pair (Inr ())),
     xmlNewDocNode = (\<lambda>d x y. small_new xmlNode_class), xmlDocSetRootElement = (\<lambda>d n. Pair ()),
     xmlNewNode = (\<lambda>x. small_new xmlNode_class), xmlAddChild = (\<lambda>p n. Pair ()), xmlFreeDoc = small_free_doc,
     xmlNodeSetContent = (\<lambda>n x. Pair ()), xmlNodeGetContent = (\<lambda>n. Pair None), xmlGetProp = (\<lambda>n x. Pair None),
     xmlSetProp = (\<lambda>n x y. Pair ()), xmlUnsetProp = (\<lambda>n x. Pair ()), xmlUnlinkNode = (\<lambda>n. Pair ()),
     xmlFreeNode = (\<lambda>n. small_delete (xmlNode_class, n)), doc_children = (\<lambda>d w. Some 1), node_at = (\<lambda>n w. small_node n)\<rparr>"

lemma keeps_others_objects: "keeps_objects R f \<Longrightarrow> keeps_others R f"
  unfolding keeps_except_def keeps_objects_def by blast

lemma small_xml_ok: "xml_api_ok small_runtime small_xml"
proof -
  have "keeps_others small_runtime (small_free_doc d)" "keeps_others small_runtime (small_delete (xmlNode_class, n))" for d n
    by (auto simp: keeps_except_def small_held small_kept small_free_doc_def small_delete_def)
  moreover have "keeps_others small_runtime (small_new c)" for c
    using small_makes [of c] by (intro keeps_others_objects) (simp add: makes_object_def)
  ultimately show ?thesis
    unfolding xml_api_ok_def small_xml_def xml_api.simps
    by (intro conjI allI) (simp_all add: keeps_others_objects small_keeps)
qed

definition one_node :: "small_world lua" where
  "one_node = \<lparr>stack = [], userdata = [0 \<mapsto> node_userdata 1], next_userdata = 1,
     world = small_start\<lparr>objects := [(xmlNode_class, 1), (xmlNode_class, 2), (xmlNode_class, 3)]\<rparr>\<rparr>"

theorem node_children_exact_witness:
  "\<exists>entries L'. node_children small_runtime small_xml (one_node\<lparr>stack := [LUserdata 0, LString ''b'']\<rparr>) = Returns 1 L' \<and>
     stack L' = [LUserdata 0, LString ''b'', LTable entries] \<and> world L' = world one_node \<and>
     nodes_in entries L' = [Some (node_userdata 3)] \<and> map fst entries = [LNumber (of_nat 1)]"
proof -
  have "chain small_xml (world one_node) (children_of (node_at small_xml 1 (world one_node))) [2, 3]"
    by (simp add: small_xml_def small_node_def)
  from node_children_exact [OF _ _ _ _ this, of 0 small_runtime "''b''"]
  obtain entries L' where e: "node_children small_runtime small_xml (one_node\<lparr>stack := [LUserdata 0, LString ''b'']\<rparr>) = Returns 1 L'"
      "stack L' = [LUserdata 0, LString ''b'', LTable entries]" "world L' = world one_node"
      "nodes_in entries L' = [Some (node_userdata 3)]" "map fst entries = map (\<lambda>j. LNumber (of_nat j)) [1..<Suc (length entries)]"
    by (auto simp: one_node_def small_runtime_def small_xml_def small_node_def c_str_def)
  moreover have "length entries = 1" using arg_cong [OF e(4), of length] by (simp add: nodes_in_def)
  ultimately show ?thesis by (intro exI [of _ entries] exI [of _ L']) simp
qed

section \<open>Nodes without their document\<close>

text \<open>What libxml2 documents of a document: \<open>xmlFreeDoc\<close> frees its tree.\<close>

definition frees_tree :: "'s runtime \<Rightarrow> 's xml_api \<Rightarrow> (nat \<Rightarrow> nat \<Rightarrow> 's \<Rightarrow> bool) \<Rightarrow> bool" where
  "frees_tree R X belongs \<longleftrightarrow>
     (\<forall>n d s. belongs n d s \<longrightarrow> \<not> alive R (xmlNode_class, n) (snd (xmlFreeDoc X d s)))"

text \<open>A node must not be used after its document has been collected: the node is freed with the document,
  and the userdata of a node keeps no document alive.\<close>

theorem node_outlives_document:
  assumes "frees_tree R X belongs" "belongs n d (world L)" "alive R (xmlDoc_class, d) (world L)" "u \<noteq> v"
    and "userdata L u = Some (Some doc_name, (xmlDoc_class, d))" "userdata L v = Some (node_userdata n)"
  shows "\<exists>L'. xml_close R X (L\<lparr>stack := [LUserdata u]\<rparr>) = Returns 0 L' \<and>
     node_name R X ((without u L')\<lparr>stack := [LUserdata v]\<rparr>) = Ub"
proof -
  obtain s where s: "xmlFreeDoc X d (world L) = ((), s)" by (cases "xmlFreeDoc X d (world L)") simp
  then have "\<not> alive R (xmlNode_class, n) s"
    using assms(1,2) unfolding frees_tree_def by (metis snd_conv)
  with s assms(3-6) show ?thesis
    by (simp add: xml_close_def node_name_def node_userdata_def luaL_checkudata_def arg_def invoke_def on_object_def
        perform_def)
qed

definition doc_and_node :: "small_world lua" where
  "doc_and_node = \<lparr>stack = [], userdata = [0 \<mapsto> (Some doc_name, (xmlDoc_class, 9)), 1 \<mapsto> node_userdata 1], next_userdata = 2,
     world = small_start\<lparr>objects := [(xmlDoc_class, 9), (xmlNode_class, 1)], parents := [((xmlNode_class, 1), (xmlDoc_class, 9))]\<rparr>\<rparr>"

theorem node_outlives_document_witness:
  "\<exists>L'. xml_close small_runtime small_xml (doc_and_node\<lparr>stack := [LUserdata 0]\<rparr>) = Returns 0 L' \<and>
     node_name small_runtime small_xml ((without 0 L')\<lparr>stack := [LUserdata 1]\<rparr>) = Ub"
proof (rule node_outlives_document [where n = 1 and d = 9])
  show "frees_tree small_runtime small_xml (\<lambda>n d w. ((xmlNode_class, n), (xmlDoc_class, d)) \<in> set (parents w))"
    by (simp add: frees_tree_def small_runtime_def small_xml_def small_free_doc_def)
qed (simp_all add: doc_and_node_def small_runtime_def)

end
