(* ===== verification/Lua_Interpreter.thy ===== *)
theory Lua_Interpreter
  imports Lua_Network Lua_Timers Lua_OpenSSL Lua_XML
begin

text \<open>
  The interpreter and the main program (\<open>lua_interpreter.cc\<close>, \<open>main.cc\<close>): the Lua functions \<open>quit\<close>, \<open>timestamp\<close>
  and \<open>arguments\<close>, the construction of the interpreter, the loading of a script and the exit code. The
  second half puts the bindings of all libraries together: whatever a script does with them, every
  userdata keeps its class, and the objects are alive and have one owner.
\<close>

section \<open>Functions for scripts\<close>

text \<open>Qt's application object and the clock. \<open>clock_gettime\<close> gives seconds and nanoseconds.\<close>

record 's app_api =
  application_exit :: "int \<Rightarrow> 's \<Rightarrow> unit \<times> 's"
  application_exec :: "'s \<Rightarrow> int \<times> 's"
  application_arguments :: "string list"
  clock_gettime :: "'s \<Rightarrow> (int \<times> int) \<times> 's"

text \<open>\<open>quit\<close> trusts the global \<open>interp\<close>: if a script has replaced it, the pointer read there is not the
  interpreter.\<close>

definition app_quit :: "'z app_scheme runtime \<Rightarrow> 'z app_scheme app_api \<Rightarrow> 'z app_scheme cfun" where
  "app_quit R A L =
     (let L1 = push (interp_global (world L)) L in
      case interp_global (world L) of
        LUserdata u \<Rightarrow>
          (case userdata L u of
             Some (m, (LuaInterpreter_class, a)) \<Rightarrow>
               let finish = (\<lambda>L. perform (application_exit A (retCode (world L))) (\<lambda>_. Returns 0) L);
                   L2 = L1\<lparr>world := (world L1)\<lparr>quitCalled := True\<rparr>\<rparr>
               in if lua_isnumber R 1 L2
                  then lua_tointegerx R 1 (\<lambda>n L. finish (L\<lparr>world := (world L)\<lparr>retCode := to_int n\<rparr>\<rparr>)) L2
                  else finish L2
           | _ \<Rightarrow> Ub)
      | _ \<Rightarrow> Ub)"

definition timestamp :: "'s app_api \<Rightarrow> 's cfun" where
  "timestamp A =
     perform (clock_gettime A) (\<lambda>(sec, nsec) L. Returns 1 (push (LNumber (of_int (sec * 1000 + nsec div 1000000))) L))"

text \<open>A list of texts as a table with the keys 1, 2, ...\<close>

definition text_table :: "string list \<Rightarrow> lua_value" where
  "text_table xs = LTable (map (\<lambda>(i, x). (LNumber (of_nat i), LString (c_str x))) (enumerate 1 xs))"

definition arguments_fun :: "'s app_api \<Rightarrow> 's cfun" where
  "arguments_fun A L = Returns 1 (push (text_table (application_arguments A)) L)"

section \<open>The interpreter\<close>

text \<open>The globals the constructor sets: the modules in the order it loads them, the two search paths, the
  functions by their names, and the tables.\<close>

record 's interpreter =
  lua_state :: "'s lua"
  modules :: "string list"
  package_cpath :: string
  package_path :: string
  global_functions :: "(string \<times> 's cfun) list"
  is_redirected :: bool
  argv :: lua_value

definition LuaInterpreter ::
  "'z app_scheme runtime \<Rightarrow> 'z app_scheme app_api \<Rightarrow> string \<Rightarrow> string \<Rightarrow> bool \<Rightarrow> string list \<Rightarrow> 'z app_scheme \<Rightarrow>
   'z app_scheme interpreter" where
  "LuaInterpreter R A cpath path tty args s =
     (let L = lua_newuserdata (LuaInterpreter_class, 0) (initial_lua (s\<lparr>quitCalled := False, retCode := 0\<rparr>)) in
      \<lparr>lua_state = (lua_pop 1 L)\<lparr>world := (world L)\<lparr>interp_global := last (stack L)\<rparr>\<rparr>,
       modules = [''base'', ''package'', ''network'', ''timers'', ''string'', ''table'', ''debug'', ''math'', ''io'',
         ''os'', ''bit32'', ''qt'', ''qdatetime''],
       package_cpath = ''./lib/lib?.so;./lib?.so;./lib/?.so;'' @ cpath,
       package_path = ''./modules/?.lua;./modules/atf/stdlib/?.lua;'' @ path,
       global_functions = [(''quit'', app_quit R A), (''timestamp'', timestamp A), (''arguments'', arguments_fun A)],
       is_redirected = (\<not> tty), argv = text_table args\<rparr>)"

text \<open>\<open>luaL_dofile\<close> runs a file in the interpreter and says whether an error occurred.\<close>

definition load_script :: "(string \<Rightarrow> 'z app_scheme lua \<Rightarrow> bool \<times> 'z app_scheme lua) \<Rightarrow> string \<Rightarrow> 'z app_scheme lua \<Rightarrow>
  int \<times> 'z app_scheme lua" where
  "load_script dofile filename L =
     (case dofile filename L of
        (failed, L1) \<Rightarrow>
          let res = (if failed then 1 else 0)
          in (if quitCalled (world L1) then retCode (world L1) else res, L1))"

section \<open>The main program\<close>

text \<open>The options before the script: an exit code, or the arguments from the script on.\<close>

fun script_arguments :: "string list \<Rightarrow> int + string list" where
  "script_arguments [] = Inr []"
| "script_arguments (a # args) =
     (if a = ''-h'' \<or> a = ''--help'' then Inl 0
      else if a = ''--'' then Inr args
      else if take 1 a = ''-'' then Inl 1
      else Inr (a # args))"

definition main_program ::
  "'z app_scheme runtime \<Rightarrow> 'z app_scheme app_api \<Rightarrow> string \<Rightarrow> string \<Rightarrow> bool \<Rightarrow>
   (string \<Rightarrow> 'z app_scheme lua \<Rightarrow> bool \<times> 'z app_scheme lua) \<Rightarrow> 'z app_scheme \<Rightarrow> int" where
  "main_program R A cpath path tty dofile s =
     (case script_arguments (tl (application_arguments A)) of
        Inl code \<Rightarrow> code
      | Inr [] \<Rightarrow> 1
      | Inr (fileName # rest) \<Rightarrow>
          let lua_interpreter = LuaInterpreter R A cpath path tty (fileName # rest) s in
          (case load_script dofile (c_str fileName) (lua_state lua_interpreter) of
             (res, L) \<Rightarrow>
               if res \<noteq> 0 then res
               else if quitCalled (world L) then retCode (world L)
               else fst (application_exec A (world L))))"

section \<open>Exit codes\<close>

text \<open>A script that calls \<open>quit\<close> with these lists of arguments.\<close>

fun quits :: "'z app_scheme runtime \<Rightarrow> 'z app_scheme app_api \<Rightarrow> lua_value list list \<Rightarrow> 'z app_scheme lua \<Rightarrow>
  'z app_scheme lua option" where
  "quits R A [] L = Some L"
| "quits R A (args # calls) L =
     (case app_quit R A (L\<lparr>stack := args\<rparr>) of Returns n L' \<Rightarrow> quits R A calls L' | _ \<Rightarrow> None)"

definition first_number :: "'s runtime \<Rightarrow> lua_value list \<Rightarrow> real option" where
  "first_number R args =
     (case args of LNumber x # _ \<Rightarrow> Some x | LString s # _ \<Rightarrow> string_number R s | _ \<Rightarrow> None)"

text \<open>The code of the last call that gave a number.\<close>

definition quit_code :: "'s runtime \<Rightarrow> lua_value list list \<Rightarrow> int \<Rightarrow> int" where
  "quit_code R calls c =
     fold (\<lambda>args c. case first_number R args of None \<Rightarrow> c | Some x \<Rightarrow> to_int (trunc x)) calls c"

definition exit_keeps_app :: "'z app_scheme app_api \<Rightarrow> bool" where
  "exit_keeps_app A \<longleftrightarrow> (\<forall>c s. quitCalled (snd (application_exit A c s)) = quitCalled s \<and>
     retCode (snd (application_exit A c s)) = retCode s \<and>
     interp_global (snd (application_exit A c s)) = interp_global s)"

definition has_interp :: "'z app_scheme lua \<Rightarrow> bool" where
  "has_interp L \<longleftrightarrow> (\<exists>u m a. interp_global (world L) = LUserdata u \<and> userdata L u = Some (m, (LuaInterpreter_class, a)))"

lemma number_at_interp:
  "number_at R (Suc 0) (push (LUserdata u) (L\<lparr>stack := args\<rparr>)\<lparr>world := s\<rparr>) = first_number R args"
  by (cases args) (auto simp: number_at_def first_number_def arg_def push_def split: lua_value.splits)

lemma app_quit_step:
  assumes "exit_keeps_app A" "has_interp L" "\<forall>x. first_number R args = Some x \<longrightarrow> is_long (trunc x)"
  shows "\<exists>L'. app_quit R A (L\<lparr>stack := args\<rparr>) = Returns 0 L' \<and> has_interp L' \<and> quitCalled (world L') \<and>
     retCode (world L') = (case first_number R args of None \<Rightarrow> retCode (world L) | Some x \<Rightarrow> to_int (trunc x))"
proof -
  obtain u m a where u: "interp_global (world L) = LUserdata u" "userdata L u = Some (m, (LuaInterpreter_class, a))"
    using assms(2) unfolding has_interp_def by blast
  note exit = assms(1) [unfolded exit_keeps_app_def, rule_format]
  let ?L = "\<lambda>w. push (LUserdata u) (L\<lparr>stack := args\<rparr>)\<lparr>world := w\<rparr>"
  show ?thesis
  proof (cases "first_number R args")
    case None
    let ?w = "(world L)\<lparr>quitCalled := True\<rparr>"
    have "app_quit R A (L\<lparr>stack := args\<rparr>) = Returns 0 (?L (snd (application_exit A (retCode (world L)) ?w)))"
      using u None number_at_interp [where R = R and u = u and L = L and args = args and s = ?w]
      by (simp add: app_quit_def lua_isnumber_def perform_def case_prod_beta Let_def)
        (simp add: push_def)
    then show ?thesis using u None exit by (auto simp: has_interp_def push_def)
  next
    case (Some x)
    let ?w = "(world L)\<lparr>quitCalled := True\<rparr>"
    let ?v = "?w\<lparr>retCode := to_int (trunc x)\<rparr>"
    have "app_quit R A (L\<lparr>stack := args\<rparr>) = Returns 0 (?L (snd (application_exit A (to_int (trunc x)) ?v)))"
      using u Some number_at_interp [where R = R and u = u and L = L and args = args and s = ?w] assms(3)
      by (simp add: app_quit_def lua_isnumber_def lua_tointegerx_def lua_tonumberx_def perform_def case_prod_beta Let_def)
        (simp add: push_def)
    then show ?thesis using u Some exit by (auto simp: has_interp_def push_def)
  qed
qed

lemma quits_outcome:
  assumes "exit_keeps_app A" "has_interp L" "\<forall>args \<in> set calls. \<forall>x. first_number R args = Some x \<longrightarrow> is_long (trunc x)"
  shows "\<exists>L'. quits R A calls L = Some L' \<and> quitCalled (world L') = (calls \<noteq> [] \<or> quitCalled (world L)) \<and>
     retCode (world L') = quit_code R calls (retCode (world L))"
  using assms(2,3)
proof (induction calls arbitrary: L)
  case (Cons args calls)
  obtain L1 where "app_quit R A (L\<lparr>stack := args\<rparr>) = Returns 0 L1" "has_interp L1" "quitCalled (world L1)"
      "retCode (world L1) = (case first_number R args of None \<Rightarrow> retCode (world L) | Some x \<Rightarrow> to_int (trunc x))"
    using app_quit_step [OF assms(1) Cons.prems(1), of R args] Cons.prems(2) by auto
  with Cons.IH [of L1] Cons.prems(2) show ?case by (auto simp: quit_code_def)
qed (simp add: quit_code_def)

lemma LuaInterpreter_state:
  "has_interp (lua_state (LuaInterpreter R A cpath path tty args s))"
  "quitCalled (world (lua_state (LuaInterpreter R A cpath path tty args s))) = False"
  "retCode (world (lua_state (LuaInterpreter R A cpath path tty args s))) = 0"
  by (simp_all add: LuaInterpreter_def lua_newuserdata_def push_def lua_pop_def initial_lua_def has_interp_def Let_def)

text \<open>C18: the exit code is what the script asked for: without a call of \<open>quit\<close> it is 1 after a Lua error and
  otherwise the result of the event loop; with calls of \<open>quit\<close> it is the number the last call with a number
  gave, as a 32-bit integer, 0 if none did, even when the script failed afterwards.\<close>

theorem exit_code_of_script:
  assumes "application_arguments A = exe # f # rest" "take 1 f \<noteq> ''-''" "exit_keeps_app A"
    and "\<forall>args \<in> set calls. \<forall>x. first_number R args = Some x \<longrightarrow> is_long (trunc x)"
  shows "\<exists>L. quits R A calls (lua_state (LuaInterpreter R A cpath path tty (f # rest) s)) = Some L \<and>
     main_program R A cpath path tty (\<lambda>_ _. (failed, L)) s =
       (if calls \<noteq> [] then quit_code R calls 0 else if failed then 1 else fst (application_exec A (world L)))"
proof -
  let ?L0 = "lua_state (LuaInterpreter R A cpath path tty (f # rest) s)"
  obtain L where L: "quits R A calls ?L0 = Some L" "quitCalled (world L) \<longleftrightarrow> calls \<noteq> []"
      "retCode (world L) = quit_code R calls 0"
    using quits_outcome [OF assms(3) LuaInterpreter_state(1) assms(4), of R A cpath path tty "f # rest" s]
    by (auto simp: LuaInterpreter_state)
  have "f \<noteq> ''-h'' \<and> f \<noteq> ''--help'' \<and> f \<noteq> ''--''" using assms(2) by auto
  then have "script_arguments (f # rest) = Inr (f # rest)" using assms(2) by simp
  then show ?thesis using assms(1) L
    by (intro exI [of _ L] conjI) (simp_all add: main_program_def load_script_def Let_def)
qed

text \<open>Without a script the main program ends at once: with 0 after a question for help, otherwise with 1.\<close>

lemma main_without_script:
  "application_arguments A = exe # opts \<Longrightarrow>
   opts = [] \<or> hd opts \<in> {''-h'', ''--help''} \<or> opts = [''--''] \<or> (hd opts \<noteq> ''--'' \<and> take 1 (hd opts) = ''-'') \<Longrightarrow>
   main_program R A cpath path tty dofile s = (if opts \<noteq> [] \<and> hd opts \<in> {''-h'', ''--help''} then 0 else 1)"
  by (cases opts) (auto simp: main_program_def)

section \<open>All bindings together\<close>

text \<open>The metatables and the classes behind them. Buffers have no finalizer, and nodes and
  documents are freed by functions that scripts may call on the wrong ones, so nobody owns these.\<close>

definition class_table :: "(string \<times> cpp_class) list" where
  "class_table = [(TcpSocket_name, QTcpSocket_class), (TcpServer_name, QTcpServer_class),
     (WebSocket_name, QWebSocket_class), (Timer_name, QTimer_class), (ctx_name, SSL_CTX_class), (ssl_name, SSL_class),
     (bio_name, BIO_class), (doc_name, xmlDoc_class), (node_mt, xmlNode_class)]"

definition owned_classes :: "cpp_class list" where
  "owned_classes = [QTcpSocket_class, QTcpServer_class, QWebSocket_class, QTimer_class, SSL_CTX_class, SSL_class]"

text \<open>The functions a script can call once it has loaded the modules, and what the collector calls.\<close>

definition atf_program ::
  "'z app_scheme runtime \<Rightarrow> 'z app_scheme network_api \<Rightarrow> 'z app_scheme timer_api \<Rightarrow> 'z app_scheme ssl_api \<Rightarrow>
   'z app_scheme xml_api \<Rightarrow> 'z app_scheme app_api \<Rightarrow> (string \<Rightarrow> 'z app_scheme \<Rightarrow> string) \<Rightarrow> ('z app_scheme \<Rightarrow> 'z app_scheme \<Rightarrow> bool) \<Rightarrow>
   'z app_scheme program" where
  "atf_program R N T S X A now env = \<lparr>
     cfunctions = library_functions (luaopen_network R N) @ library_functions (luaopen_timers R T) @
       library_functions (luaopen_qdatetime R now) @ library_functions (luaopen_luaopenssl R S) @
       library_functions (luaopen_xml R X) @ [app_quit R A, timestamp A, arguments_fun A],
     finalizer = (\<lambda>name.
       case library_finalizer (luaopen_network R N) name of
         Some f \<Rightarrow> Some f
       | None \<Rightarrow>
           (case library_finalizer (luaopen_timers R T) name of
              Some f \<Rightarrow> Some f
            | None \<Rightarrow>
                (case library_finalizer (luaopen_luaopenssl R S) name of
                   Some f \<Rightarrow> Some f
                 | None \<Rightarrow> library_finalizer (luaopen_xml R X) name))),
     collectable = childless R owned_classes, environment = env\<rparr>"

text \<open>What the program relies on: the contracts of the libraries, and that objects have nothing to do with the
  fields of the interpreter.\<close>

definition apis_ok ::
  "'z app_scheme runtime \<Rightarrow> 'z app_scheme network_api \<Rightarrow> 'z app_scheme timer_api \<Rightarrow> 'z app_scheme ssl_api \<Rightarrow>
   'z app_scheme xml_api \<Rightarrow> 'z app_scheme app_api \<Rightarrow> ('z app_scheme \<Rightarrow> 'z app_scheme \<Rightarrow> bool) \<Rightarrow> bool" where
  "apis_ok R N T S X A env \<longleftrightarrow>
     network_api_ok R N \<and> timer_api_ok R T \<and> ssl_api_ok R S \<and> xml_api_ok R X \<and>
     (\<forall>c. keeps_objects R (application_exit A c)) \<and> keeps_objects R (clock_gettime A) \<and>
     (\<forall>p s b c. held R p s \<longrightarrow> kept R p s (s\<lparr>quitCalled := b\<rparr>) \<and> kept R p s (s\<lparr>retCode := c\<rparr>)) \<and>
     (\<forall>s s' p. env s s' \<longrightarrow> held R p s \<longrightarrow> kept R p s s')"

abbreviation "sound_program R \<equiv> sound_userdata R class_table owned_classes"

lemma class_table [simp]:
  "map_of class_table TcpSocket_name = Some QTcpSocket_class" "map_of class_table TcpServer_name = Some QTcpServer_class"
  "map_of class_table WebSocket_name = Some QWebSocket_class" "map_of class_table Timer_name = Some QTimer_class"
  "map_of class_table ctx_name = Some SSL_CTX_class" "map_of class_table ssl_name = Some SSL_class"
  "map_of class_table bio_name = Some BIO_class"
  by (simp_all add: class_table_def)

lemma in_owned_classes [simp]: "c \<in> set owned_classes \<longleftrightarrow> 
     c \<notin> {BIO_class, xmlDoc_class, xmlNode_class, RemoteClient_class, HmiAdapterClient_class, LuaInterpreter_class}"
  by (cases c) (simp_all add: owned_classes_def)

lemma class_table_xml [simp]: "xml_classes class_table owned_classes"
  by (simp add: xml_classes_def) (simp add: class_table_def)

lemma sound_world:
  "sound_userdata R table cs L \<Longrightarrow> (\<And>p. held R p (world L) \<Longrightarrow> kept R p (world L) s) \<Longrightarrow> sound_userdata R table cs (L\<lparr>world := s\<rparr>)"
  by (simp add: sound_userdata_def owned_world)

lemma app_quit_sound:
  assumes "apis_ok R N T S X A env" "sound_program R L"
  shows "post (sound_program R) (app_quit R A L)"
proof -
  have keeps: "keeps_objects R (application_exit A c)" for c using assms(1) by (simp add: apis_ok_def)
  have finish: "post (sound_program R) (perform (application_exit A (retCode (world L))) (\<lambda>_. Returns 0) L)"
    if "sound_program R L" for L using that by (auto intro!: post_rules keeps)
  have quit: "sound_program R (L\<lparr>world := (world L)\<lparr>quitCalled := True\<rparr>\<rparr>)" if "sound_program R L" for L
    using that assms(1) by (auto simp: apis_ok_def intro: sound_world)
  have code: "sound_program R (L\<lparr>world := (world L)\<lparr>retCode := c\<rparr>\<rparr>)" if "sound_program R L" for L c
    using that assms(1) by (auto simp: apis_ok_def intro: sound_world)
  show ?thesis
    using assms(2) quit [of "push (interp_global (world L)) L"]
    by (auto simp: app_quit_def Let_def intro!: finish code post_rules keeps split: lua_value.splits option.splits cpp_class.splits)
qed

lemma interpreter_functions_sound:
  assumes "apis_ok R N T S X A env" "sound_program R L"
  shows "post (sound_program R) (timestamp A L)" "post (sound_program R) (arguments_fun A L)"
    "f \<in> set (library_functions (luaopen_qdatetime R now)) \<Longrightarrow> post (sound_program R) (f L)"
proof -
  have clock: "keeps_objects R (clock_gettime A)" using assms(1) by (simp add: apis_ok_def)
  show "post (sound_program R) (timestamp A L)"
    unfolding timestamp_def using assms(2) by (auto intro!: post_rules clock)
  show "post (sound_program R) (arguments_fun A L)" using assms(2) by (simp add: arguments_fun_def)
  show "post (sound_program R) (f L)" if "f \<in> set (library_functions (luaopen_qdatetime R now))"
    using that assms(2)
    by (auto simp: set_library_functions luaopen_qdatetime_def qdatetime_get_datetime_def intro!: post_rules)
qed

lemma class_table_doc: "map_of class_table doc_name = Some xmlDoc_class"
  by (simp add: class_table_def)

text \<open>Finalizers leave the other userdata sound, whether documents have owners or not.\<close>

lemma finalizer_sound:
  assumes "apis_ok R N T S X A env" "finalizer (atf_program R N T S X A now env) name = Some f"
    and "sound_userdata R class_table cs L" "stack L = [LUserdata u]" "userdata L u = Some (Some name, p)"
    and "set owned_classes \<subseteq> set cs" "BIO_class \<notin> set cs" "name = TcpServer_name \<Longrightarrow> childless R cs L u"
    and "library_finalizer (luaopen_xml R X) name = Some f \<Longrightarrow> post (\<lambda>L'. sound_userdata R class_table cs (without u L')) (f L)"
  shows "post (\<lambda>L'. sound_userdata R class_table cs (without u L')) (f L)"
proof -
  have oks: "network_api_ok R N" "timer_api_ok R T" "ssl_api_ok R S" using assms(1) by (simp_all add: apis_ok_def)
  have cs: "{QTcpSocket_class, QTcpServer_class, QWebSocket_class} \<subseteq> set cs" "QTimer_class \<in> set cs"
      "{SSL_CTX_class, SSL_class} \<subseteq> set cs"
    using assms(6) by (auto simp: owned_classes_def)
  consider "library_finalizer (luaopen_network R N) name = Some f" | "name = Timer_name" "f = timer_delete R T"
    | "library_finalizer (luaopen_luaopenssl R S) name = Some f" | "library_finalizer (luaopen_xml R X) name = Some f"
    using assms(2) by (auto simp: atf_program_def library_finalizer_def luaopen_timers_def split: option.splits if_splits)
  then show ?thesis
  proof cases
    case 1
    show ?thesis by (rule luaopen_network_finalizers [OF oks(1) 1 _ _ _ cs(1) assms(3-5,8)]) simp_all
  next
    case 2
    show ?thesis
      unfolding 2(2) by (rule timer_delete_sound [OF oks(2) _ cs(2) assms(3,4) assms(5) [unfolded 2(1)]]) simp
  next
    case 3
    show ?thesis by (rule luaopen_luaopenssl_finalizers [OF oks(3) 3 _ _ cs(3) assms(7,3-5)]) simp_all
  next
    case 4
    then show ?thesis by (rule assms(9))
  qed
qed

text \<open>The program keeps its userdata sound, whatever scripts do, as long as the libraries keep their contracts.\<close>

interpretation atf: bindings "atf_program R N T S X A now env" "\<lambda>L. apis_ok R N T S X A env \<longrightarrow> sound_program R L"
  for R :: "'z app_scheme runtime" and N T S X A now env
proof
  show "stackless (\<lambda>L. apis_ok R N T S X A env \<longrightarrow> sound_program R L)" by (simp add: stackless_def)
next
  fix f L
  assume f: "f \<in> set (cfunctions (atf_program R N T S X A now env))" "apis_ok R N T S X A env \<longrightarrow> sound_program R L"
  have "post (sound_program R) (f L)" if ok: "apis_ok R N T S X A env" "sound_program R L"
  proof -
    have "network_api_ok R N" "timer_api_ok R T" "ssl_api_ok R S" "xml_api_ok R X" using ok(1) by (simp_all add: apis_ok_def)
    then show ?thesis
      using f(1) ok luaopen_network_sound [of R N f class_table owned_classes L]
        luaopen_timers_sound [of R T f class_table owned_classes L] interpreter_functions_sound [OF ok]
        luaopen_luaopenssl_sound [of R S f class_table owned_classes L] app_quit_sound [OF ok]
        luaopen_xml_sound [of R X f class_table owned_classes L]
      by (auto simp: atf_program_def)
  qed
  then show "post (\<lambda>L. apis_ok R N T S X A env \<longrightarrow> sound_program R L) (f L)"
    using f(2) by (cases "f L") auto
next
  fix name f L u p st
  assume f: "finalizer (atf_program R N T S X A now env) name = Some f" "userdata L u = Some (Some name, p)"
    "collectable (atf_program R N T S X A now env) (L\<lparr>stack := st\<rparr>) u" "stack L = [LUserdata u]"
    "apis_ok R N T S X A env \<longrightarrow> sound_program R L"
  have "post (\<lambda>L'. sound_program R (without u L')) (f L)" if ok: "apis_ok R N T S X A env" "sound_program R L"
  proof (rule finalizer_sound [OF ok(1) f(1) ok(2) f(4,2)])
    show "childless R owned_classes L u" using f(3) by (simp add: atf_program_def childless_stack)
    show "post (\<lambda>L'. sound_program R (without u L')) (f L)" if "library_finalizer (luaopen_xml R X) name = Some f"
      using ok(1) by (intro luaopen_xml_finalizer [OF _ that _ ok(2)]) (simp_all add: apis_ok_def)
  qed simp_all
  then show "post (\<lambda>L'. apis_ok R N T S X A env \<longrightarrow> sound_program R (without u L')) (f L)"
    using f(5) by (cases "f L") auto
next
  fix L u m p
  assume "apis_ok R N T S X A env \<longrightarrow> sound_program R L"
  then show "apis_ok R N T S X A env \<longrightarrow> sound_program R (without u L)"
    by (simp add: sound_userdata_def typed_without owned_without)
next
  fix L s
  assume "environment (atf_program R N T S X A now env) (world L) s" "apis_ok R N T S X A env \<longrightarrow> sound_program R L"
  then show "apis_ok R N T S X A env \<longrightarrow> sound_program R (L\<lparr>world := s\<rparr>)"
    by (auto simp: atf_program_def apis_ok_def intro: sound_world)
qed

section \<open>Closing\<close>

text \<open>At the end of the program all userdata are finalized, the youngest first. If the script has freed no document
  through one of its nodes, documents have owners too.\<close>

definition closing_inv ::
  "'z app_scheme runtime \<Rightarrow> 'z app_scheme network_api \<Rightarrow> 'z app_scheme timer_api \<Rightarrow> 'z app_scheme ssl_api \<Rightarrow>
   'z app_scheme xml_api \<Rightarrow> 'z app_scheme app_api \<Rightarrow> ('z app_scheme \<Rightarrow> 'z app_scheme \<Rightarrow> bool) \<Rightarrow> 'z app_scheme lua \<Rightarrow> bool" where
  "closing_inv R N T S X A env L \<longleftrightarrow> apis_ok R N T S X A env \<and> documents_apart R X \<and>
     sound_userdata R class_table ([xmlDoc_class] @ owned_classes) L"

lemma atf_finalizers:
  assumes "finalizer (atf_program R N T S X A now env) name = Some f"
  shows "(name, f) \<in> {(TcpServer_name, tcp_server_delete R N), (TcpSocket_name, tcp_socket_delete R N),
      (WebSocket_name, web_socket_delete R N), (Timer_name, timer_delete R T), (ctx_name, ctx_free R S), (ssl_name, ssl_free R S),
      (doc_name, xml_close R X)} \<or> f = openssl_cleanupSslLib S"
  using assms unfolding atf_program_def program.simps
  by (auto simp: library_finalizer_def luaopen_network_def luaopen_timers_def luaopen_luaopenssl_def luaopen_xml_def
      split: if_splits)

lemma finalizer_returns:
  assumes "finalizer (atf_program R N T S X A now env) name = Some f" "userdata L u = Some (Some name, p)"
    and "sound_userdata R class_table ([xmlDoc_class] @ owned_classes) L"
  shows "\<exists>L'. f (L\<lparr>stack := [LUserdata u]\<rparr>) = Returns 0 L' \<and> userdata L' = userdata L"
proof -
  note deletes = delete_returns [OF assms(3,2)]
  have cleanup: ?thesis if "f = openssl_cleanupSslLib S"
    using that by (simp add: openssl_cleanupSslLib_def perform_def case_prod_beta)
  have server: ?thesis if "name = TcpServer_name" "f = tcp_server_delete R N"
    using that deletes [of QTcpServer_class "delete_QTcpServer N" 0] by (simp add: tcp_server_delete_def)
  have socket: ?thesis if "name = TcpSocket_name" "f = tcp_socket_delete R N"
    using that deletes [of QTcpSocket_class "delete_QTcpSocket N" 0] by (simp add: tcp_socket_delete_def)
  have web_socket: ?thesis if "name = WebSocket_name" "f = web_socket_delete R N"
    using that deletes [of QWebSocket_class "delete_QWebSocket N" 0] by (simp add: web_socket_delete_def)
  have timer: ?thesis if "name = Timer_name" "f = timer_delete R T"
    using that deletes [of QTimer_class "delete_QTimer T" 0] by (simp add: timer_delete_def)
  have ctx: ?thesis if "name = ctx_name" "f = ctx_free R S"
    using that deletes [of SSL_CTX_class "SSL_CTX_free S" 0] by (simp add: ctx_free_def)
  have ssl: ?thesis if "name = ssl_name" "f = ssl_free R S"
    using that deletes [of SSL_class "SSL_free S" 0] by (simp add: ssl_free_def)
  have doc: ?thesis if "name = doc_name" "f = xml_close R X"
    using that deletes [of xmlDoc_class "xmlFreeDoc X" 0] by (simp add: xml_close_def class_table_doc)
  from atf_finalizers [OF assms(1)] show ?thesis
    unfolding insert_iff prod.inject empty_iff
    by (elim disjE conjE FalseE) (erule (1) server socket web_socket timer ctx ssl doc | erule cleanup)+
qed

interpretation atf_close: closing "atf_program R N T S X A now env" "closing_inv R N T S X A env"
  for R :: "'z app_scheme runtime" and N T S X A now env
proof
  fix name f L u p
  assume f: "finalizer (atf_program R N T S X A now env) name = Some f" "userdata L u = Some (Some name, p)"
    "\<forall>v > u. userdata L v = None" "closing_inv R N T S X A env L"
  let ?L = "L\<lparr>stack := [LUserdata u]\<rparr>" and ?cs = "[xmlDoc_class] @ owned_classes"
  have ok: "apis_ok R N T S X A env" "documents_apart R X" "sound_userdata R class_table ?cs L"
    using f(4) by (simp_all add: closing_inv_def)
  then have sound: "sound_userdata R class_table ?cs ?L" by simp
  have "post (\<lambda>L'. sound_userdata R class_table ?cs (without u L')) (f ?L)"
  proof (rule finalizer_sound [OF ok(1) f(1) sound])
    show "childless R ?cs ?L u" if "name = TcpServer_name"
    proof -
      have "fst p = QTcpServer_class"
        using ok(3) f(2) that class_table(2) unfolding sound_userdata_def typed_userdata_def by blast
      with f(2,3) ok(3) show ?thesis
        unfolding childless_stack by (intro youngest_childless) (auto simp: sound_userdata_def)
    qed
    show "post (\<lambda>L'. sound_userdata R class_table ?cs (without u L')) (f ?L)"
      if "library_finalizer (luaopen_xml R X) name = Some f"
    proof -
      have "name = doc_name" "f = xml_close R X"
        using that by (auto simp: library_finalizer_def luaopen_xml_def split: if_splits)
      with f(2) show ?thesis
        using close_owned_document [OF ok(2) class_table_doc _ _ sound] by simp
    qed
  qed (use f(2) in auto)
  then show "\<exists>n L'. f ?L = Returns n L' \<and> userdata L' = userdata L \<and> closing_inv R N T S X A env (without u L')"
    using finalizer_returns [OF f(1,2) ok(3)] ok(1,2) by (auto simp: closing_inv_def)
next
  fix L u m p
  assume "closing_inv R N T S X A env L"
  then show "closing_inv R N T S X A env (without u L)"
    by (simp add: closing_inv_def sound_userdata_def typed_without owned_without)
qed

section \<open>Properties of all scripts\<close>

lemma LuaInterpreter_sound: "sound_program R (lua_state (LuaInterpreter R A cpath path tty args s))"
  by (simp add: LuaInterpreter_def Let_def lua_newuserdata_def push_def lua_pop_def initial_lua_def sound_userdata_def
      typed_userdata_def owned_def)

lemma reached_sound:
  assumes "apis_ok R N T S X A env"
    and "script_reaches (atf_program R N T S X A now env) (lua_state (LuaInterpreter R A cpath path tty args s)) L"
  shows "sound_program R L"
  using atf.reaches_keeps [OF assms(2)] assms(1) by (simp add: LuaInterpreter_sound)


text \<open>C7: sockets, servers, web sockets, timers, SSL contexts and connections are never used after they were
  deleted and never deleted twice: in every state a script reaches, the object behind a userdata is alive, and
  no other userdata points to it, provided that a server is not collected before its connections.\<close>

theorem objects_owned:
  assumes "apis_ok R N T S X A env"
    and "script_reaches (atf_program R N T S X A now env) (lua_state (LuaInterpreter R A cpath path tty args s)) L"
    and "userdata L u = Some (m, p)" "fst p \<in> set owned_classes"
  shows "alive R p (world L) \<and> (\<forall>v n. userdata L v = Some (n, p) \<longrightarrow> v = u)"
proof -
  have "owned R owned_classes L"
    using reached_sound [OF assms(1,2)] by (simp add: sound_userdata_def)
  then show ?thesis using assms(3,4) unfolding owned_def held_def by blast
qed


section \<open>Closed examples\<close>

definition small_timers :: "small_world timer_api" where
  "small_timers = \<lparr>new_QTimer = small_new QTimer_class, setTimerType_precise = (\<lambda>a. Pair ()), start_msec = (\<lambda>a n. Pair ()),
     start_again = (\<lambda>a. Pair ()), stop_timer = (\<lambda>a. Pair ()), get_interval = (\<lambda>a. Pair 0), setInterval = (\<lambda>a n. Pair ()),
     setSingleShot = (\<lambda>a b. Pair ()), delete_QTimer = (\<lambda>a. small_delete (QTimer_class, a))\<rparr>"

definition small_app :: "small_world app_api" where
  "small_app = \<lparr>application_exit = (\<lambda>c. Pair ()), application_exec = Pair 0,
     application_arguments = [''atf'', ''run.lua'', ''--verbose''], clock_gettime = Pair (0, 0)\<rparr>"

lemma small_apis_ok: "apis_ok small_runtime small_network small_timers small_ssl small_xml small_app (=)"
proof -
  have "timer_api_ok small_runtime small_timers"
    unfolding timer_api_ok_def small_timers_def timer_api.simps
    using small_makes small_deletes by (intro conjI allI small_keeps) simp_all
  then show ?thesis
    using small_network_ok small_ssl_ok small_xml_ok
    by (auto simp: apis_ok_def small_app_def small_held small_kept intro!: small_keeps)
qed

abbreviation "small_program \<equiv>
  atf_program small_runtime small_network small_timers small_ssl small_xml small_app (\<lambda>f w. ''12:00'') (=)"

abbreviation "small_interpreter \<equiv>
  LuaInterpreter small_runtime small_app [] [] True [''run.lua'', ''--verbose''] small_start"

text \<open>A script that creates a timer.\<close>

definition timer_made :: "small_world lua" where
  "timer_made = (case timer_create small_runtime small_timers (lua_state small_interpreter) of Returns n L \<Rightarrow> L)"

lemma timer_made_reached: "script_reaches small_program (lua_state small_interpreter) timer_made"
proof (rule script_next [OF script_start])
  have "timer_create small_runtime small_timers (lua_state small_interpreter) = Returns 1 timer_made"
    by (simp add: timer_made_def timer_create_def LuaInterpreter_def Let_def create_object_def small_timers_def
        small_new_def invoke_def on_object_def perform_def small_runtime_def push_object_eq lua_newuserdata_def push_def
        lua_pop_def initial_lua_def)
  then have "timer_create small_runtime small_timers ((lua_state small_interpreter)\<lparr>stack := []\<rparr>) = Returns 1 timer_made"
    by (simp add: LuaInterpreter_def Let_def lua_pop_def lua_newuserdata_def push_def initial_lua_def)
  then show "script_step small_program (lua_state small_interpreter) timer_made"
    by (rule step_call [rotated]) (simp add: atf_program_def set_library_functions luaopen_timers_def)
qed

lemma timer_made_userdata: "userdata timer_made 1 = Some (Some Timer_name, (QTimer_class, 1))"
  by (simp add: timer_made_def timer_create_def LuaInterpreter_def Let_def create_object_def small_timers_def
      small_new_def invoke_def on_object_def perform_def small_runtime_def push_object_eq lua_newuserdata_def push_def
      lua_pop_def initial_lua_def small_start_def fresh_id_def)


theorem objects_owned_witness:
  "alive small_runtime (QTimer_class, 1) (world timer_made) \<and>
   {v. userdata timer_made v = Some (Some Timer_name, (QTimer_class, 1))} = {1}"
  using objects_owned [OF small_apis_ok timer_made_reached timer_made_userdata] timer_made_userdata by auto

text \<open>A script that calls \<open>quit(3)\<close> and fails afterwards.\<close>

theorem exit_code_of_script_witness:
  "\<exists>L. quits small_runtime small_app [[LNumber 3], []] (lua_state small_interpreter) = Some L \<and>
     main_program small_runtime small_app [] [] True (\<lambda>_ _. (True, L)) small_start = 3"
proof -
  have "trunc 3 = 3" using trunc_of_int [of 3] by simp
  then show ?thesis
    using exit_code_of_script [of small_app "''atf''" "''run.lua''" "[''--verbose'']" "[[LNumber 3], []]" small_runtime
        "[]" "[]" True small_start True]
    by (simp add: small_app_def exit_keeps_app_def first_number_def quit_code_def is_long_def to_int_def)
qed


end
