(* ===== verification/Common.thy ===== *)
theory Common
  imports Prelude
begin

text \<open>
  The vocabulary both sides of the remote adapter share: \<open>common/constants.h\<close> (names of the remote
  procedures, result codes, parameter types), \<open>common/custom_types.h\<close> (parameters and responses),
  and the decoding of request parameters (\<open>GetValue\<close>, \<open>IsAllValid\<close>) that the two server plugins
  carry in identical copies. The section ends with the contract every request handler keeps, as a
  locale that the plugin theories interpret on each of their handlers.
\<close>

section \<open>Names and codes\<close>

type_synonym parameter_type = "string \<times> int"
type_synonym response_type = "string \<times> int"

definition client_connected :: string where "client_connected = ''client_connected''"
definition app_start :: string where "app_start = ''app_start''"
definition app_stop :: string where "app_stop = ''app_stop''"
definition app_check_status :: string where "app_check_status = ''app_check_status''"
definition file_backup :: string where "file_backup = ''file_backup''"
definition file_restore :: string where "file_restore = ''file_restore''"
definition file_update :: string where "file_update = ''file_update''"
definition file_exists :: string where "file_exists = ''file_exists''"
definition file_content :: string where "file_content = ''file_content''"
definition file_delete :: string where "file_delete = ''file_delete''"
definition folder_exists :: string where "folder_exists = ''folder_exists''"
definition folder_create :: string where "folder_create = ''folder_create''"
definition folder_delete :: string where "folder_delete = ''folder_delete''"
definition command_execute :: string where "command_execute = ''command_execute''"
definition open_handle :: string where "open_handle = ''open''"
definition close_handle :: string where "close_handle = ''close''"
definition send_name :: string where "send_name = ''send''"
definition receive_name :: string where "receive_name = ''receive''"

lemmas rpc_name_defs =
  client_connected_def app_start_def app_stop_def app_check_status_def file_backup_def
  file_restore_def file_update_def file_exists_def file_content_def file_delete_def
  folder_exists_def folder_create_def folder_delete_def command_execute_def open_handle_def
  close_handle_def send_name_def receive_name_def

definition kMaxSizeData :: int where "kMaxSizeData = 1048576"
definition kTmpPath :: string where "kTmpPath = ''/tmp/''"

definition CRASHED :: int where "CRASHED = -1"
definition NOT_RUNNING :: int where "NOT_RUNNING = 0"
definition RUNNING :: int where "RUNNING = 1"

lemmas stat_app_codes = CRASHED_def NOT_RUNNING_def RUNNING_def

definition SUCCESS :: int where "SUCCESS = 0"
definition FAILED :: int where "FAILED = -1"
definition READ_FAILURE :: int where "READ_FAILURE = -2"
definition WRITE_FAILURE :: int where "WRITE_FAILURE = -3"
definition PATH_NOT_FOUND :: int where "PATH_NOT_FOUND = -4"
definition CLOSE_FAILURE :: int where "CLOSE_FAILURE = -5"
definition OPEN_FAILURE :: int where "OPEN_FAILURE = -6"
definition NO_CONNECTION :: int where "NO_CONNECTION = -7"
definition EXCEPTION_THROWN :: int where "EXCEPTION_THROWN = -8"
definition TIMEOUT_EXPIRED :: int where "TIMEOUT_EXPIRED = -9"
definition ALREADY_EXISTS :: int where "ALREADY_EXISTS = -10"

lemmas error_codes [simp] =
  SUCCESS_def FAILED_def READ_FAILURE_def WRITE_FAILURE_def PATH_NOT_FOUND_def CLOSE_FAILURE_def
  OPEN_FAILURE_def NO_CONNECTION_def EXCEPTION_THROWN_def TIMEOUT_EXPIRED_def ALREADY_EXISTS_def

definition kIncorrNumberParams :: string where
  "kIncorrNumberParams = ''Incorrect number of parameters''"

definition kBadTypeValue :: string where
  "kBadTypeValue = ''Bad type of the value''"

datatype param_type = NIL_T | INT_T | DOUBLE_T | BOOLEAN_T | STRING_T

fun param_code :: "param_type \<Rightarrow> int" where
  "param_code NIL_T = 0"
| "param_code INT_T = 1"
| "param_code DOUBLE_T = 2"
| "param_code BOOLEAN_T = 3"
| "param_code STRING_T = 4"

section \<open>Decoding request parameters\<close>

text \<open>
  \<open>boost::lexical_cast\<close> is a library the sources only call, so its instances are parameters; \<open>None\<close>
  is the exception \<open>bad_lexical_cast\<close>. What the code relies on is \<open>lexical_cast_ok\<close>: text casts to
  itself, and the decimal text of a value in range casts to that value.
\<close>

record lexical_cast =
  cast_string :: "string \<Rightarrow> string option"
  cast_int :: "string \<Rightarrow> int option"
  cast_long :: "string \<Rightarrow> int option"
  cast_size :: "string \<Rightarrow> int option"

definition lexical_cast_ok :: "lexical_cast \<Rightarrow> bool" where
  "lexical_cast_ok lc \<longleftrightarrow>
     (\<forall>s. cast_string lc s = Some s) \<and>
     (\<forall>i. is_int i \<longrightarrow> cast_int lc (to_string i) = Some i) \<and>
     (\<forall>i. is_long i \<longrightarrow> cast_long lc (to_string i) = Some i) \<and>
     (\<forall>i. 0 \<le> i \<longrightarrow> i < 2 ^ 64 \<longrightarrow> cast_size lc (to_string i) = Some i)"

text \<open>A cast that keeps these laws, for closed examples: optional sign, digits, range check.\<close>

definition read_int :: "string \<Rightarrow> int option" where
  "read_int s = (case s of
       [] \<Rightarrow> None
     | c # cs \<Rightarrow>
         if c = CHR ''-'' then (if cs \<noteq> [] \<and> list_all isdigit cs then Some (- int (read_nat cs)) else None)
         else if list_all isdigit s then Some (int (read_nat s)) else None)"

definition in_range :: "(int \<Rightarrow> bool) \<Rightarrow> int option \<Rightarrow> int option" where
  "in_range P v = (case v of None \<Rightarrow> None | Some i \<Rightarrow> if P i then Some i else None)"

definition decimal_cast :: lexical_cast where
  "decimal_cast = \<lparr>
     cast_string = Some,
     cast_int = (\<lambda>s. in_range is_int (read_int s)),
     cast_long = (\<lambda>s. in_range is_long (read_int s)),
     cast_size = (\<lambda>s. in_range (\<lambda>i. 0 \<le> i \<and> i < 2 ^ 64) (read_int s)) \<rparr>"

definition GetValue :: "param_type \<Rightarrow> (string \<Rightarrow> 'a option) \<Rightarrow> parameter_type \<Rightarrow> 'a option" where
  "GetValue nType cast parameter =
     (if param_code nType \<noteq> snd parameter then None else cast (fst parameter))"

fun IsAllValid :: "bool list \<Rightarrow> bool" where
  "IsAllValid [] = True"
| "IsAllValid (value # all_value) = (if \<not> value then False else IsAllValid all_value)"

lemma IsAllValid_iff: "IsAllValid vs \<longleftrightarrow> (\<forall>v \<in> set vs. v)"
  by (induction vs) auto

lemma IsAllValid_simps [simp]:
  "IsAllValid [a] = a" "IsAllValid [a, b] = (a \<and> b)" "IsAllValid [a, b, c] = (a \<and> b \<and> c)"
  "IsAllValid [a, b, c, d] = (a \<and> b \<and> c \<and> d)"
  by auto

lemma read_int_to_string: "read_int (to_string i) = Some i"
proof (cases "i < 0")
  case True
  then show ?thesis
    by (simp add: to_string_def read_int_def show_nat_nonempty show_nat_digits read_show_nat)
next
  case False
  obtain c cs where s: "show_nat (nat i) = c # cs"
    using show_nat_nonempty [of "nat i"] by (cases "show_nat (nat i)") auto
  have "isdigit c" using hd_show_nat [of "nat i"] s by simp
  then have "c \<noteq> CHR ''-''" using isdigit_not_minus by metis
  with False s show_nat_digits [of "nat i"] read_show_nat [of "nat i"] show ?thesis
    by (simp add: to_string_def read_int_def)
qed

lemma decimal_cast_ok: "lexical_cast_ok decimal_cast"
  by (simp add: lexical_cast_ok_def decimal_cast_def in_range_def read_int_to_string)

lemma GetValue_string [simp]:
  "lexical_cast_ok lc \<Longrightarrow> GetValue STRING_T (cast_string lc) (s, 4) = Some s"
  by (simp add: GetValue_def lexical_cast_ok_def)

lemma GetValue_int [simp]:
  "lexical_cast_ok lc \<Longrightarrow> is_int i \<Longrightarrow> GetValue INT_T (cast_int lc) (to_string i, 1) = Some i"
  by (simp add: GetValue_def lexical_cast_ok_def)

lemma GetValue_long [simp]:
  "lexical_cast_ok lc \<Longrightarrow> is_long i \<Longrightarrow> GetValue INT_T (cast_long lc) (to_string i, 1) = Some i"
  by (simp add: GetValue_def lexical_cast_ok_def)

lemma GetValue_size [simp]:
  "lexical_cast_ok lc \<Longrightarrow> 0 \<le> i \<Longrightarrow> i < 2 ^ 64 \<Longrightarrow>
     GetValue INT_T (cast_size lc) (to_string i, 1) = Some i"
  by (simp add: GetValue_def lexical_cast_ok_def)

lemma GetValue_wrong_type: "snd p \<noteq> param_code t \<Longrightarrow> GetValue t cast p = None"
  by (simp add: GetValue_def)

section \<open>Outcomes of a handler\<close>

text \<open>
  A bound functor returns a response, sends an error object through
  \<open>rpc::this_handler().respond_error\<close> (which leaves the functor by an exception), lets another
  exception escape, or has undefined behaviour.
\<close>

datatype outcome = Reply response_type | ErrorReply response_type | Thrown | Undefined

text \<open>The opening of every functor: the arity check, then the types of the parameters.\<close>

definition checked ::
  "nat \<Rightarrow> (parameter_type list \<Rightarrow> 'a option) \<Rightarrow> ('a \<Rightarrow> 's \<Rightarrow> outcome \<times> 's) \<Rightarrow>
   's \<Rightarrow> parameter_type list \<Rightarrow> outcome \<times> 's" where
  "checked n decode run s parameters =
     (if n \<noteq> length parameters then (Reply (kIncorrNumberParams, FAILED), s)
      else (case decode parameters of
              None \<Rightarrow> (Reply (kBadTypeValue, FAILED), s)
            | Some args \<Rightarrow> run args s))"

definition one_string :: "lexical_cast \<Rightarrow> parameter_type list \<Rightarrow> string option" where
  "one_string lc ps =
     (let a = GetValue STRING_T (cast_string lc) (ps ! 0)
      in if IsAllValid [a \<noteq> None] then Some (the a) else None)"

definition two_strings :: "lexical_cast \<Rightarrow> parameter_type list \<Rightarrow> (string \<times> string) option" where
  "two_strings lc ps =
     (let a = GetValue STRING_T (cast_string lc) (ps ! 0);
          b = GetValue STRING_T (cast_string lc) (ps ! 1)
      in if IsAllValid [a \<noteq> None, b \<noteq> None] then Some (the a, the b) else None)"

definition three_strings ::
  "lexical_cast \<Rightarrow> parameter_type list \<Rightarrow> (string \<times> string \<times> string) option" where
  "three_strings lc ps =
     (let a = GetValue STRING_T (cast_string lc) (ps ! 0);
          b = GetValue STRING_T (cast_string lc) (ps ! 1);
          c = GetValue STRING_T (cast_string lc) (ps ! 2)
      in if IsAllValid [a \<noteq> None, b \<noteq> None, c \<noteq> None] then Some (the a, the b, the c) else None)"

section \<open>The contract of a handler\<close>

text \<open>
  What the client may rely on for every remote procedure, whatever it does: a request of the wrong
  length or with a parameter of the wrong type is answered with \<open>FAILED\<close> and leaves the server as it
  was. \<open>accepts\<close> is the test a request has to pass.
\<close>

locale request_handler =
  fixes handler :: "'s \<Rightarrow> parameter_type list \<Rightarrow> outcome \<times> 's"
    and arity :: nat
    and accepts :: "parameter_type list \<Rightarrow> bool"
  assumes wrong_arity: "length ps \<noteq> arity \<Longrightarrow> handler s ps = (Reply (kIncorrNumberParams, FAILED), s)"
    and wrong_type: "length ps = arity \<Longrightarrow> \<not> accepts ps \<Longrightarrow>
      handler s ps = (Reply (kBadTypeValue, FAILED), s)"
begin

definition rejected :: "parameter_type list \<Rightarrow> bool" where
  "rejected ps \<longleftrightarrow> length ps \<noteq> arity \<or> \<not> accepts ps"

lemma rejected_keeps_state: "rejected ps \<Longrightarrow> snd (handler s ps) = s"
  by (cases "length ps = arity") (auto simp: rejected_def wrong_arity wrong_type)

lemma rejected_reply: "rejected ps \<Longrightarrow> \<exists>m. fst (handler s ps) = Reply (m, FAILED)"
  by (cases "length ps = arity") (auto simp: rejected_def wrong_arity wrong_type)

lemma reject_safe:
  "rejected ps \<Longrightarrow> \<exists>m. handler s ps = (Reply (m, FAILED), s) \<and> m \<in> {kIncorrNumberParams, kBadTypeValue}"
  by (cases "length ps = arity") (auto simp: rejected_def wrong_arity wrong_type)

lemma malformed:
  "length ps \<noteq> arity \<or> \<not> accepts ps \<Longrightarrow> \<exists>m. handler s ps = (Reply (m, FAILED), s)"
  using reject_safe [of ps s] by (auto simp: rejected_def)

lemma changes_state_accepted: "snd (handler s ps) \<noteq> s \<Longrightarrow> length ps = arity \<and> accepts ps"
  using rejected_keeps_state [of ps s] by (auto simp: rejected_def)

end

lemma checked_handler:
  assumes "\<And>s ps. h s ps = checked n decode run s ps"
  shows "request_handler h n (\<lambda>ps. decode ps \<noteq> None)"
  by unfold_locales (auto simp: assms checked_def)

section \<open>Fetching a file in pieces\<close>

text \<open>
  What a client does with a procedure that returns a piece of a file and the offset of the next:
  ask from offset 0 on, join the pieces, stop at offset 0, give up at a negative one. \<open>None\<close> is fuel
  that ran out, \<open>Some None\<close> giving up.
\<close>

fun gather :: "(int \<Rightarrow> response_type) \<Rightarrow> nat \<Rightarrow> int \<Rightarrow> string option option" where
  "gather fetch 0 off = None"
| "gather fetch (Suc fuel) off =
     (case fetch off of (t, next) \<Rightarrow>
        if next < 0 then Some None
        else if next = 0 then Some (Some t)
        else map_option (map_option (\<lambda>rest. t @ rest)) (gather fetch fuel next))"

text \<open>The contract between the two sides: in a state that is \<open>ready\<close>, the piece at an offset inside
  the data is as long as the limit allows, and the next offset comes back as an \<open>int\<close>.\<close>

locale chunk_source =
  fixes ready :: "'s \<Rightarrow> bool"
    and source :: "'s \<Rightarrow> string"
    and fetch :: "'s \<Rightarrow> int \<Rightarrow> response_type"
    and chunk :: int
  assumes chunk_pos: "0 < chunk"
    and piece: "ready s \<Longrightarrow> 0 \<le> off \<Longrightarrow> off \<le> int (length (source s)) \<Longrightarrow>
      fetch s off =
        (take (nat chunk) (drop (nat off) (source s)),
         if off + chunk \<ge> int (length (source s)) then 0 else to_int (off + chunk))"
begin

lemma gather_rest:
  assumes "ready s" "int (length (source s)) \<le> 2 ^ 31"
  shows "0 \<le> off \<Longrightarrow> off \<le> int (length (source s)) \<Longrightarrow> int (length (source s)) - off \<le> int fuel * chunk \<Longrightarrow>
     0 < fuel \<Longrightarrow> gather (fetch s) fuel off = Some (Some (drop (nat off) (source s)))"
proof (induction fuel arbitrary: off)
  case 0
  then show ?case by simp
next
  case (Suc fuel)
  note p = piece [OF assms(1) Suc.prems(1,2)]
  show ?case
  proof (cases "off + chunk \<ge> int (length (source s))")
    case True
    then have "length (drop (nat off) (source s)) \<le> nat chunk" using Suc.prems(1) by simp
    with True p show ?thesis by simp
  next
    case False
    then have o: "to_int (off + chunk) = off + chunk"
      using assms(2) Suc.prems(1) chunk_pos by (intro to_int_id) (simp add: is_int_def)
    have f: "0 < fuel" using False Suc.prems(3) by (cases fuel) simp_all
    have "int (length (source s)) - (off + chunk) \<le> int fuel * chunk"
      using Suc.prems(3) by (simp add: algebra_simps)
    with Suc.IH [of "off + chunk"] False f Suc.prems(1) chunk_pos
    have "gather (fetch s) fuel (off + chunk) = Some (Some (drop (nat (off + chunk)) (source s)))" by simp
    moreover have "nat (off + chunk) = nat chunk + nat off" using Suc.prems(1) chunk_pos by simp
    then have "take (nat chunk) (drop (nat off) (source s)) @ drop (nat (off + chunk)) (source s) =
        drop (nat off) (source s)"
      by (metis append_take_drop_id drop_drop)
    ultimately show ?thesis using False p o Suc.prems(1) chunk_pos by simp
  qed
qed

text \<open>Past 2 GiB the next offset does not fit: the client gives up.\<close>

lemma gather_too_big:
  assumes "ready s" "int (length (source s)) > 2 ^ 31"
  shows "0 \<le> off \<Longrightarrow> off + int fuel * chunk = 2 ^ 31 \<Longrightarrow> 0 < fuel \<Longrightarrow> gather (fetch s) fuel off = Some None"
proof (induction fuel arbitrary: off)
  case 0
  then show ?case by simp
next
  case (Suc fuel)
  have e: "int (Suc fuel) * chunk = chunk + int fuel * chunk" by (simp add: algebra_simps)
  have "0 \<le> int fuel * chunk" using chunk_pos by simp
  with Suc.prems(2) e have le: "off + chunk \<le> 2 ^ 31" by linarith
  have p: "fetch s off = (take (nat chunk) (drop (nat off) (source s)), to_int (off + chunk))"
    using piece [OF assms(1) Suc.prems(1)] assms(2) le chunk_pos by simp
  show ?case
  proof (cases fuel)
    case 0
    then have "off + chunk = 2 ^ 31" using Suc.prems(2) by simp
    then have "to_int (off + chunk) = - (2 ^ 31)" using to_int_wrap [of "2 ^ 31"] by simp
    with p show ?thesis by simp
  next
    case (Suc m)
    then have "0 < int fuel * chunk" using chunk_pos by simp
    with Suc.prems(2) e have lt: "off + chunk < 2 ^ 31" by linarith
    then have "to_int (off + chunk) = off + chunk"
      using Suc.prems(1) chunk_pos by (intro to_int_id) (simp add: is_int_def)
    with p Suc.IH [of "off + chunk"] Suc.prems Suc chunk_pos show ?thesis by (simp add: algebra_simps)
  qed
qed

end

end
