(* ===== verification/Posix_FS.thy ===== *)
theory Posix_FS
  imports Common
begin

text \<open>
  The file system the sources reach through the C library, as an explicit state: a tree of plain
  files and directories (no symbolic or hard links, no special files), a working directory, and the
  calls the system refuses for reasons outside the tree (permissions, quotas, I/O errors), which
  stay arbitrary. Path names are resolved component by component as POSIX has it: empty
  components and \<open>.\<close> stay, \<open>..\<close> goes up, and every component but the last has to be a directory.
  Reads and writes on a stream that is open do not fail.
\<close>

section \<open>Trees\<close>

datatype node = File string | Dir "(string \<times> node) list"

type_synonym path = "string list"

fun lookup :: "node \<Rightarrow> path \<Rightarrow> node option" where
  "lookup n [] = Some n"
| "lookup (File s) (c # cs) = None"
| "lookup (Dir es) (c # cs) = (case map_of es c of None \<Rightarrow> None | Some n \<Rightarrow> lookup n cs)"

text \<open>Set or remove the entry at a path whose parent exists.\<close>

fun change :: "path \<Rightarrow> node option \<Rightarrow> node \<Rightarrow> node" where
  "change [] x n = n"
| "change (c # cs) x (File s) = File s"
| "change [c] x (Dir es) =
     Dir (case x of None \<Rightarrow> AList.delete c es | Some m \<Rightarrow> AList.update c m es)"
| "change (c # d # cs) x (Dir es) =
     (case map_of es c of None \<Rightarrow> Dir es
      | Some m \<Rightarrow> Dir (AList.update c (change (d # cs) x m) es))"

definition good_name :: "string \<Rightarrow> bool" where
  "good_name c \<longleftrightarrow> c \<noteq> [] \<and> c \<noteq> ''.'' \<and> c \<noteq> ''..'' \<and> CHR ''/'' \<notin> set c \<and> NUL \<notin> set c"

fun wf_node :: "node \<Rightarrow> bool" where
  "wf_node (File s) \<longleftrightarrow> True"
| "wf_node (Dir es) \<longleftrightarrow>
     distinct (map fst es) \<and> (\<forall>e \<in> set es. good_name (fst e) \<and> wf_node (snd e))"

fun height :: "node \<Rightarrow> nat" where
  "height (File s) = 0"
| "height (Dir es) = Suc (fold max (map (\<lambda>e. height (snd e)) es) 0)"

fun is_Dir :: "node option \<Rightarrow> bool" where
  "is_Dir (Some (Dir es)) = True"
| "is_Dir _ = False"

section \<open>State and path resolution\<close>

datatype syscall = Open_read | Open_write | Stat | Unlink | Rmdir | Mkdir | Opendir | Chdir

record os =
  root :: node
  cwd :: path
  refuses :: "syscall \<Rightarrow> path \<Rightarrow> bool"

fun canon :: "node \<Rightarrow> path \<Rightarrow> string list \<Rightarrow> path option" where
  "canon r p [] = Some p"
| "canon r p (c # cs) =
     (if is_Dir (lookup r p) then
        if c = [] \<or> c = ''.'' then canon r p cs
        else if c = ''..'' then canon r (butlast p) cs
        else canon r (p @ [c]) cs
      else None)"

text \<open>The kernel sees the name up to its first NUL byte.\<close>

definition resolve :: "os \<Rightarrow> string \<Rightarrow> path option" where
  "resolve os name =
     (let s = c_str name in
      if s = [] then None
      else canon (root os) (if hd s = CHR ''/'' then [] else cwd os) (split_on (CHR ''/'') s))"

section \<open>Calls\<close>

text \<open>The node behind a name, as \<open>stat\<close> finds it.\<close>

definition stat :: "os \<Rightarrow> string \<Rightarrow> node option" where
  "stat os name =
     (case resolve os name of None \<Rightarrow> None
      | Some p \<Rightarrow> if refuses os Stat p then None else lookup (root os) p)"

definition set_node :: "path \<Rightarrow> node option \<Rightarrow> os \<Rightarrow> os" where
  "set_node p x os = os\<lparr>root := change p x (root os)\<rparr>"

text \<open>A stream is named by the path of its file. Opening for reading wants a plain file.\<close>

definition open_read :: "os \<Rightarrow> string \<Rightarrow> path option" where
  "open_read os name =
     (case resolve os name of None \<Rightarrow> None
      | Some p \<Rightarrow> if refuses os Open_read p then None
                 else (case lookup (root os) p of Some (File s) \<Rightarrow> Some p | _ \<Rightarrow> None))"

text \<open>\<open>fopen\<close> also opens a directory for reading; what its stream then reports differs between
  systems.\<close>

definition opens_dir :: "os \<Rightarrow> string \<Rightarrow> bool" where
  "opens_dir os name =
     (case resolve os name of None \<Rightarrow> False
      | Some p \<Rightarrow> \<not> refuses os Open_read p \<and> is_Dir (lookup (root os) p))"

text \<open>Opening for writing creates a missing file; \<open>trunc\<close> empties an existing one (\<open>std::ofstream\<close>,
  mode \<open>w\<close>), otherwise writes go to its end (mode \<open>a\<close>).\<close>

definition open_write :: "bool \<Rightarrow> os \<Rightarrow> string \<Rightarrow> (path \<times> os) option" where
  "open_write trunc os name =
     (case resolve os name of None \<Rightarrow> None
      | Some p \<Rightarrow>
          if refuses os Open_write p then None
          else (case lookup (root os) p of
                  None \<Rightarrow> Some (p, set_node p (Some (File [])) os)
                | Some (File s) \<Rightarrow>
                    Some (p, if trunc then set_node p (Some (File [])) os else os)
                | Some (Dir es) \<Rightarrow> None))"

definition content :: "os \<Rightarrow> path \<Rightarrow> string" where
  "content os p = (case lookup (root os) p of Some (File s) \<Rightarrow> s | _ \<Rightarrow> [])"

text \<open>Writing at the end of an open file.\<close>

definition append_to :: "path \<Rightarrow> string \<Rightarrow> os \<Rightarrow> os" where
  "append_to p data os =
     (if data = [] then os else set_node p (Some (File (content os p @ data))) os)"

definition unlink :: "os \<Rightarrow> string \<Rightarrow> int \<times> os" where
  "unlink os name =
     (case resolve os name of None \<Rightarrow> (-1, os)
      | Some p \<Rightarrow>
          if refuses os Unlink p then (-1, os)
          else (case lookup (root os) p of
                  Some (File s) \<Rightarrow> (0, set_node p None os) | _ \<Rightarrow> (-1, os)))"

text \<open>\<open>rmdir\<close> takes an empty directory other than the root, and no name that ends in \<open>.\<close> or \<open>..\<close>.\<close>

definition last_component :: "string \<Rightarrow> string" where
  "last_component name =
     (case filter (\<lambda>c. c \<noteq> []) (split_on (CHR ''/'') (c_str name)) of [] \<Rightarrow> [] | cs \<Rightarrow> last cs)"

definition rmdir :: "os \<Rightarrow> string \<Rightarrow> int \<times> os" where
  "rmdir os name =
     (case resolve os name of None \<Rightarrow> (-1, os)
      | Some p \<Rightarrow>
          if refuses os Rmdir p \<or> p = [] \<or> last_component name \<in> {''.'', ''..''} then (-1, os)
          else (case lookup (root os) p of
                  Some (Dir []) \<Rightarrow> (0, set_node p None os) | _ \<Rightarrow> (-1, os)))"

text \<open>\<open>remove\<close> of the C library: \<open>unlink\<close> for a file, \<open>rmdir\<close> for a directory.\<close>

definition remove_c :: "os \<Rightarrow> string \<Rightarrow> int \<times> os" where
  "remove_c os name =
     (case resolve os name of None \<Rightarrow> (-1, os)
      | Some p \<Rightarrow> if is_Dir (lookup (root os) p) then rmdir os name else unlink os name)"

definition strip_slashes :: "string \<Rightarrow> string" where
  "strip_slashes s = rev (dropWhile (\<lambda>c. c = CHR ''/'') (rev s))"

definition mkdir :: "os \<Rightarrow> string \<Rightarrow> int \<times> os" where
  "mkdir os name =
     (case resolve os (strip_slashes (c_str name)) of None \<Rightarrow> (-1, os)
      | Some p \<Rightarrow>
          if refuses os Mkdir p \<or> lookup (root os) p \<noteq> None then (-1, os)
          else (0, set_node p (Some (Dir [])) os))"

text \<open>The names a directory stream delivers, taken when it is opened.\<close>

definition opendir :: "os \<Rightarrow> string \<Rightarrow> string list option" where
  "opendir os name =
     (case resolve os name of None \<Rightarrow> None
      | Some p \<Rightarrow>
          if refuses os Opendir p then None
          else (case lookup (root os) p of
                  Some (Dir es) \<Rightarrow> Some (''.'' # ''..'' # map fst es) | _ \<Rightarrow> None))"

definition chdir :: "os \<Rightarrow> string \<Rightarrow> int \<times> os" where
  "chdir os name =
     (case resolve os name of None \<Rightarrow> (-1, os)
      | Some p \<Rightarrow>
          if is_Dir (lookup (root os) p) \<and> \<not> refuses os Chdir p then (0, os\<lparr>cwd := p\<rparr>)
          else (-1, os))"

section \<open>Trees: looking up and changing entries\<close>

lemma lookup_append:
  "lookup n (p @ q) = (case lookup n p of None \<Rightarrow> None | Some m \<Rightarrow> lookup m q)"
  by (induction n p rule: lookup.induct) (auto split: option.splits)

lemma lookup_snoc:
  "lookup n p = Some (Dir es) \<Longrightarrow> lookup n (p @ [c]) = map_of es c"
  by (simp add: lookup_append split: option.splits)

lemma lookup_change_parent:
  "lookup r p = Some (Dir es) \<Longrightarrow>
     lookup (change (p @ [c]) x r) p =
       Some (Dir (case x of None \<Rightarrow> AList.delete c es | Some m \<Rightarrow> AList.update c m es))"
proof (induction p arbitrary: r)
  case Nil
  then show ?case by simp
next
  case (Cons d ds)
  then obtain fs m where r: "r = Dir fs" and m: "map_of fs d = Some m" and "lookup m ds = Some (Dir es)"
    by (cases r) (auto split: option.splits)
  with Cons.IH have IH: "lookup (change (ds @ [c]) x m) ds =
      Some (Dir (case x of None \<Rightarrow> AList.delete c es | Some m \<Rightarrow> AList.update c m es))"
    by blast
  obtain e ee where "ds @ [c] = e # ee" by (cases "ds @ [c]") auto
  with IH r m show ?case by (simp add: map_of_AList_update)
qed

lemma lookup_change_same:
  "lookup r p = Some (Dir es) \<Longrightarrow> lookup (change (p @ [c]) x r) (p @ [c]) = x"
  by (auto simp: lookup_snoc [OF lookup_change_parent] map_of_AList_update map_of_AList_delete
      split: option.splits)

lemma lookup_change_other:
  "\<not> prefix p q \<Longrightarrow> \<not> prefix q p \<Longrightarrow> lookup (change p x r) q = lookup r q"
proof (induction p x r arbitrary: q rule: change.induct)
  case (3 c x es)
  then show ?case
    by (cases q) (auto simp: map_of_AList_update map_of_AList_delete split: option.splits)
next
  case (4 c d cs x es)
  then show ?case
    by (cases q) (auto simp: map_of_AList_update split: option.splits)
qed auto

lemma change_None_twice: "change p None (change p y r) = change p None r"
proof (induction p "None :: node option" r rule: change.induct)
  case (3 c es)
  then show ?case by (cases y) (simp_all add: delete_update_same delete_idem)
next
  case (4 c d cs es)
  then show ?case by (auto simp: map_of_AList_update split: option.splits)
qed auto

lemma change_Some_twice: "change p (Some m) (change p (Some m') r) = change p (Some m) r"
proof (induction p "Some m" r rule: change.induct)
  case (4 c d cs es)
  then show ?case by (auto simp: map_of_AList_update split: option.splits)
qed auto

lemma change_append:
  "p \<noteq> [] \<Longrightarrow> lookup r p = Some m \<Longrightarrow> q \<noteq> [] \<Longrightarrow> change (p @ q) x r = change p (Some (change q x m)) r"
proof (induction p arbitrary: r)
  case (Cons c cs)
  then obtain es n where r: "r = Dir es" and n: "map_of es c = Some n" and l: "lookup n cs = Some m"
    by (cases r) (auto split: option.splits)
  show ?case
  proof (cases cs)
    case Nil
    with r n l Cons.prems show ?thesis by (cases q) auto
  next
    case (Cons d ds)
    with Cons.IH [of n] l Cons.prems r n show ?thesis by simp
  qed
qed simp

text \<open>Removing a directory forgets every change below it.\<close>

lemma change_None_below:
  assumes "p \<noteq> []" "lookup r p = Some m" "q \<noteq> []"
  shows "change p None (change (p @ q) x r) = change p None r"
  using assms by (simp add: change_append change_None_twice)

lemma wf_node_Dir_map_of: "wf_node (Dir es) \<Longrightarrow> map_of es c = Some m \<Longrightarrow> good_name c \<and> wf_node m"
  by (auto dest!: map_of_SomeD)

lemma wf_node_lookup: "wf_node r \<Longrightarrow> lookup r p = Some m \<Longrightarrow> wf_node m"
proof (induction r p rule: lookup.induct)
  case (3 es c cs)
  then show ?case using wf_node_Dir_map_of by (auto simp del: wf_node.simps split: option.splits)
qed auto

lemma set_AList_update: "set (AList.update k v es) \<subseteq> insert (k, v) (set es)"
  by (induction es) auto

lemma set_AList_delete: "set (AList.delete k es) \<subseteq> set es"
  by (auto simp: AList.delete_eq)

lemma wf_node_change:
  assumes "wf_node r" "\<And>m. x = Some m \<Longrightarrow> wf_node m" "p \<noteq> [] \<Longrightarrow> x \<noteq> None \<Longrightarrow> good_name (last p)"
  shows "wf_node (change p x r)"
  using assms
proof (induction p x r rule: change.induct)
  case (3 c x es)
  then show ?case
    using set_AList_update [of c _ es] set_AList_delete [of c es]
    by (fastforce simp: distinct_update distinct_delete split: option.splits)
next
  case (4 c d cs x es)
  show ?case
  proof (cases "map_of es c")
    case None
    with "4.prems" show ?thesis by simp
  next
    case (Some m)
    with "4.prems" have m: "wf_node m" "good_name c" using wf_node_Dir_map_of by blast+
    with "4.IH" Some "4.prems" have "wf_node (change (d # cs) x m)" by auto
    with m Some "4.prems" show ?thesis
      using set_AList_update [of c "change (d # cs) x m" es]
      by (fastforce simp: distinct_update)
  qed
qed auto

lemma is_Dir_iff: "is_Dir x \<longleftrightarrow> (\<exists>es. x = Some (Dir es))"
  by (cases x rule: is_Dir.cases) auto

lemma is_Dir_lookup_change:
  "is_Dir (lookup r u) \<Longrightarrow> \<not> prefix q u \<Longrightarrow> is_Dir (lookup (change q x r) u)"
proof (induction q x r arbitrary: u rule: change.induct)
  case (3 c x es)
  then show ?case
    by (cases u) (auto simp: map_of_AList_update map_of_AList_delete split: option.splits)
next
  case (4 c d cs x es)
  show ?case
  proof (cases u)
    case Nil
    then show ?thesis by (simp split: option.splits)
  next
    case (Cons e ee)
    with "4" show ?thesis by (auto simp: map_of_AList_update split: option.splits)
  qed
qed auto

section \<open>Path names\<close>

abbreviation components :: "string \<Rightarrow> string list" where
  "components s \<equiv> split_on (CHR ''/'') s"

text \<open>A name without NUL bytes and without the components \<open>.\<close> and \<open>..\<close>.\<close>

definition plain_path :: "string \<Rightarrow> bool" where
  "plain_path s \<longleftrightarrow> NUL \<notin> set s \<and> ''.'' \<notin> set (components s) \<and> ''..'' \<notin> set (components s)"

lemma canon_append:
  "canon r p (cs @ ds) = (case canon r p cs of None \<Rightarrow> None | Some q \<Rightarrow> canon r q ds)"
  by (induction r p cs rule: canon.induct) auto

lemma canon_good_name: "good_name c \<Longrightarrow> is_Dir (lookup r p) \<Longrightarrow> canon r p [c] = Some (p @ [c])"
  by (simp add: good_name_def)

lemma canon_empty: "is_Dir (lookup r p) \<Longrightarrow> canon r p [[]] = Some p"
  by simp

lemma canon_plain:
  "''.'' \<notin> set cs \<Longrightarrow> ''..'' \<notin> set cs \<Longrightarrow> canon r p cs = Some q \<Longrightarrow>
     q = p @ filter (\<lambda>c. c \<noteq> []) cs"
  by (induction r p cs rule: canon.induct) (auto split: if_splits)

lemma canon_stable:
  assumes "''.'' \<notin> set cs" "''..'' \<notin> set cs" "canon r p cs = Some q"
    and "\<And>u. prefix u q \<Longrightarrow> is_Dir (lookup r u) \<Longrightarrow> is_Dir (lookup r' u)"
  shows "canon r' p cs = Some q"
  using assms
proof (induction r p cs rule: canon.induct)
  case (2 r p c cs)
  then have "prefix p q" using canon_plain [of "c # cs" r p q] by auto
  with "2" show ?case by (auto split: if_splits)
qed simp

lemma resolve_slash:
  assumes "resolve os d = Some p" "is_Dir (lookup (root os) p)" "NUL \<notin> set d"
  shows "resolve os (d @ ''/'') = Some p"
proof -
  have d: "c_str d = d" "c_str (d @ ''/'') = d @ ''/''" "d \<noteq> []"
    using assms by (auto simp: c_str_id resolve_def c_str_def)
  with assms show ?thesis
    by (simp add: resolve_def split_on_snoc canon_append Let_def)
qed

text \<open>Naming an entry of a directory, with one slash between the two names.\<close>

lemma resolve_child:
  assumes "resolve os d = Some p" "is_Dir (lookup (root os) p)" "NUL \<notin> set d" "good_name c"
  shows "resolve os (d @ CHR ''/'' # c) = Some (p @ [c])"
proof -
  have c: "CHR ''/'' \<notin> set c" "NUL \<notin> set c" using assms(4) by (auto simp: good_name_def)
  have d: "c_str (d @ CHR ''/'' # c) = d @ CHR ''/'' # c" "c_str d = d" "d \<noteq> []"
    using assms c by (auto simp: c_str_id resolve_def c_str_def)
  with assms c show ?thesis
    by (simp add: resolve_def split_on_append split_on_simple canon_append canon_good_name Let_def
        del: canon.simps)
qed

text \<open>The same when the directory is already written with its final slash.\<close>

lemma resolve_child_slash:
  assumes "resolve os (d @ ''/'') = Some p" "NUL \<notin> set d" "good_name c"
  shows "resolve os (d @ CHR ''/'' # c) = Some (p @ [c])"
proof (cases "d = []")
  case True
  with assms have "p = []" "is_Dir (lookup (root os) [])"
    by (auto simp: resolve_def c_str_def Let_def split: if_splits)
  with True assms show ?thesis
    by (simp add: resolve_def c_str_id good_name_def split_on_simple Let_def)
next
  case False
  have c: "c_str (d @ CHR ''/'' # c) = d @ CHR ''/'' # c" "c_str (d @ ''/'') = d @ ''/''"
    using assms(2,3) by (auto simp: c_str_id good_name_def)
  have "CHR ''/'' \<notin> set c" using assms(3) by (simp add: good_name_def)
  then have s: "components (d @ CHR ''/'' # c) = components d @ [c]"
    by (simp add: split_on_append split_on_simple)
  have "canon (root os) (if hd d = CHR ''/'' then [] else cwd os) (components d @ [[]]) = Some p"
    using assms(1) c False by (simp add: resolve_def split_on_snoc Let_def)
  then have "canon (root os) (if hd d = CHR ''/'' then [] else cwd os) (components d) = Some p"
    and "is_Dir (lookup (root os) p)"
    by (auto simp: canon_append split: option.splits if_splits)
  with c s False assms(3) show ?thesis
    by (simp add: resolve_def canon_append canon_good_name Let_def del: canon.simps)
qed

lemma resolve_stable:
  assumes "plain_path d" "resolve os d = Some p" "cwd os' = cwd os"
    and "\<And>u. prefix u p \<Longrightarrow> is_Dir (lookup (root os) u) \<Longrightarrow> is_Dir (lookup (root os') u)"
  shows "resolve os' d = Some p"
proof -
  let ?base = "if hd d = CHR ''/'' then [] else cwd os"
  have d: "c_str d = d" "d \<noteq> []"
    using assms(1,2) by (auto simp: plain_path_def c_str_id resolve_def c_str_def)
  have dots: "''.'' \<notin> set (components d)" "''..'' \<notin> set (components d)"
    using assms(1) by (simp_all add: plain_path_def)
  have "canon (root os) ?base (components d) = Some p"
    using assms(2) d by (simp add: resolve_def Let_def)
  then have "canon (root os') ?base (components d) = Some p"
    using assms(4) by (rule canon_stable [OF dots])
  with d assms(3) show ?thesis
    by (simp only: resolve_def Let_def if_False)
qed

lemma components_child: "good_name c \<Longrightarrow> components (d @ CHR ''/'' # c) = components d @ [c]"
  by (simp add: split_on_append split_on_simple good_name_def)

lemma plain_path_child: "plain_path d \<Longrightarrow> good_name c \<Longrightarrow> plain_path (d @ CHR ''/'' # c)"
  using components_child [of c d] by (auto simp: plain_path_def good_name_def)

lemma last_component_plain: "plain_path d \<Longrightarrow> last_component d \<notin> {''.'', ''..''}"
proof -
  assume d: "plain_path d"
  then have "c_str d = d" by (simp add: plain_path_def c_str_id)
  moreover have "last cs \<in> set (components d)" if "filter (\<lambda>c. c \<noteq> []) (components d) = cs" "cs \<noteq> []" for cs
    using that last_in_set [of cs] by (metis filter_is_subset subsetD)
  ultimately show ?thesis
    using d by (auto simp: last_component_def plain_path_def split: list.splits)
qed

section \<open>Facts about the calls\<close>

lemma root_set_node [simp]: "root (set_node p x os) = change p x (root os)"
  and cwd_set_node [simp]: "cwd (set_node p x os) = cwd os"
  and refuses_set_node [simp]: "refuses (set_node p x os) = refuses os"
  by (simp_all add: set_node_def)

lemma set_node_None_below:
  "p \<noteq> [] \<Longrightarrow> lookup (root os) p = Some m \<Longrightarrow> q \<noteq> [] \<Longrightarrow>
     set_node p None (set_node (p @ q) x os) = set_node p None os"
  by (simp add: set_node_def change_None_below)

lemma set_node_Some_twice: "set_node p (Some m) (set_node p (Some m') os) = set_node p (Some m) os"
  by (simp add: set_node_def change_Some_twice)

section \<open>Entries of a directory that is named\<close>

definition names_dir :: "os \<Rightarrow> string \<Rightarrow> path \<Rightarrow> bool" where
  "names_dir os d p \<longleftrightarrow> resolve os d = Some p \<and> is_Dir (lookup (root os) p) \<and> NUL \<notin> set d"

lemma lookup_prefix_is_Dir:
  assumes "lookup r u \<noteq> None" "strict_prefix q u"
  shows "is_Dir (lookup r q)"
proof -
  obtain c cs where u: "u = q @ c # cs" using assms(2) by (auto elim: strict_prefixE')
  with assms(1) obtain m where m: "lookup r q = Some m" "lookup m (c # cs) \<noteq> None"
    by (auto simp: lookup_append split: option.splits)
  then show ?thesis by (cases m) auto
qed

lemma change_keeps_dirs:
  assumes "\<not> is_Dir (lookup r q)" "is_Dir (lookup r u)"
  shows "is_Dir (lookup (change q x r) u)"
proof (cases "prefix q u")
  case True
  with assms have "strict_prefix q u" by (auto simp: strict_prefix_def)
  with assms lookup_prefix_is_Dir [of r u q] show ?thesis by (auto simp: is_Dir_iff)
next
  case False
  with assms(2) show ?thesis by (rule is_Dir_lookup_change)
qed

lemma canon_mono:
  assumes "\<And>u. is_Dir (lookup r u) \<Longrightarrow> is_Dir (lookup r' u)" "canon r p cs = Some q"
  shows "canon r' p cs = Some q"
  using assms(2,1) by (induction r p cs rule: canon.induct) (auto split: if_splits)

text \<open>Where two trees both resolve a name, they resolve it to the same path.\<close>

lemma canon_unique: "canon r p cs = Some q \<Longrightarrow> canon r' p cs = Some q' \<Longrightarrow> q' = q"
  by (induction r p cs rule: canon.induct) (auto split: if_splits)

lemma resolve_unique:
  "resolve os d = Some p \<Longrightarrow> resolve os' d = Some p' \<Longrightarrow> cwd os' = cwd os \<Longrightarrow> p' = p"
  by (auto simp: resolve_def Let_def intro: canon_unique split: if_splits)

lemma resolve_mono:
  assumes "\<And>u. is_Dir (lookup (root os) u) \<Longrightarrow> is_Dir (lookup (root os') u)"
    and "cwd os' = cwd os" "resolve os d = Some p"
  shows "resolve os' d = Some p"
  using assms(2,3) canon_mono [OF assms(1)] by (auto simp: resolve_def Let_def split: if_splits)

lemma names_dir_set_node:
  assumes "names_dir os d p" "\<not> is_Dir (lookup (root os) q)"
  shows "names_dir (set_node q x os) d p"
proof -
  have "is_Dir (lookup (root os) u) \<Longrightarrow> is_Dir (lookup (root (set_node q x os)) u)" for u
    using change_keeps_dirs [OF assms(2)] by simp
  with assms(1) show ?thesis
    by (auto simp: names_dir_def intro: resolve_mono [of os])
qed

lemma lookup_entry_other:
  "c \<noteq> c' \<Longrightarrow> lookup (change (p @ [c]) x r) (p @ [c']) = lookup r (p @ [c'])"
  by (rule lookup_change_other) (auto simp: prefix_def)

lemma lookup_entry_same:
  "is_Dir (lookup r p) \<Longrightarrow> lookup (change (p @ [c]) x r) (p @ [c]) = x"
  by (auto simp: is_Dir_iff intro: lookup_change_same)

lemma open_read_file:
  "resolve os f = Some q \<Longrightarrow> lookup (root os) q = Some (File s) \<Longrightarrow> \<not> refuses os Open_read q \<Longrightarrow>
     open_read os f = Some q"
  by (simp add: open_read_def)

lemma open_read_absent:
  "resolve os f = Some q \<Longrightarrow> lookup (root os) q = None \<Longrightarrow> open_read os f = None"
  by (simp add: open_read_def)

lemma open_write_trunc:
  "resolve os f = Some q \<Longrightarrow> \<not> is_Dir (lookup (root os) q) \<Longrightarrow> \<not> refuses os Open_write q \<Longrightarrow>
     open_write True os f = Some (q, set_node q (Some (File [])) os)"
  by (auto simp: open_write_def split: option.splits node.splits)

lemma open_append_absent:
  "resolve os f = Some q \<Longrightarrow> lookup (root os) q = None \<Longrightarrow> \<not> refuses os Open_write q \<Longrightarrow>
     open_write False os f = Some (q, set_node q (Some (File [])) os)"
  by (simp add: open_write_def)

lemma append_to_file:
  "is_Dir (lookup (root os) p) \<Longrightarrow>
     append_to (p @ [c]) t (set_node (p @ [c]) (Some (File s)) os) =
       set_node (p @ [c]) (Some (File (s @ t))) os"
  by (simp add: append_to_def content_def lookup_entry_same set_node_Some_twice)

lemma remove_c_file:
  "resolve os f = Some q \<Longrightarrow> lookup (root os) q = Some (File s) \<Longrightarrow> \<not> refuses os Unlink q \<Longrightarrow>
     remove_c os f = (0, set_node q None os)"
  by (simp add: remove_c_def unlink_def)

lemma remove_c_absent:
  "resolve os f = Some q \<Longrightarrow> lookup (root os) q = None \<Longrightarrow> remove_c os f = (-1, os)"
  by (simp add: remove_c_def unlink_def)

section \<open>Heights\<close>

lemma fold_max_ge: "(a :: nat) \<le> fold max xs a"
  by (induction xs arbitrary: a) (auto intro: order_trans [OF max.cobounded2])

lemma fold_max_mem: "x \<in> set xs \<Longrightarrow> (x :: nat) \<le> fold max xs a"
  by (induction xs arbitrary: a) (auto intro: order_trans [OF max.cobounded1 fold_max_ge])

lemma fold_max_least: "(\<And>x. x \<in> set xs \<Longrightarrow> x \<le> b) \<Longrightarrow> a \<le> b \<Longrightarrow> fold max xs a \<le> (b :: nat)"
  by (induction xs arbitrary: a) auto

lemma height_entry: "e \<in> set es \<Longrightarrow> height (snd e) < height (Dir es)"
  using fold_max_mem [of "height (snd e)" "map (\<lambda>e. height (snd e)) es" 0]
  by (simp add: le_imp_less_Suc)

lemma height_child: "map_of es c = Some m \<Longrightarrow> height m < height (Dir es)"
  using height_entry [of "(c, m)" es] by (auto dest: map_of_SomeD)

lemma height_mono:
  "(\<And>e. e \<in> set es \<Longrightarrow> height (snd e) < height (Dir fs)) \<Longrightarrow> height (Dir es) \<le> height (Dir fs)"
  using fold_max_least [of "map (\<lambda>e. height (snd e)) es" "fold max (map (\<lambda>e. height (snd e)) fs) 0" 0]
  by (fastforce simp: less_Suc_eq_le)

section \<open>Removing entries only shrinks the tree\<close>

definition shrinks :: "os \<Rightarrow> os \<Rightarrow> bool" where
  "shrinks os os' \<longleftrightarrow> cwd os' = cwd os \<and>
     (\<forall>u n'. lookup (root os') u = Some n' \<longrightarrow>
        (\<exists>n. lookup (root os) u = Some n \<and> height n' \<le> height n))"

lemma shrinks_refl [simp]: "shrinks os os"
  by (simp add: shrinks_def)

lemma shrinks_trans: "shrinks os os1 \<Longrightarrow> shrinks os1 os2 \<Longrightarrow> shrinks os os2"
  unfolding shrinks_def by (metis order_trans)

lemma lookup_change_None_height:
  "lookup (change q None r) u = Some n' \<Longrightarrow> \<exists>n. lookup r u = Some n \<and> height n' \<le> height n"
proof (induction q "None :: node option" r arbitrary: u n' rule: change.induct)
  case (3 c es)
  have "height (Dir (AList.delete c es)) \<le> height (Dir es)"
    using set_AList_delete [of c es] height_entry [of _ es] by (intro height_mono) blast
  with "3" show ?case by (cases u) (auto simp: map_of_AList_delete split: option.splits if_splits)
next
  case (4 c d cs es)
  show ?case
  proof (cases "map_of es c")
    case None
    with "4.prems" show ?thesis by auto
  next
    case (Some m)
    let ?m = "change (d # cs) None m"
    have "height ?m \<le> height m" using "4.hyps" [OF Some, of "[]" ?m] by simp
    then have "height (snd e) < height (Dir es)" if "e \<in> set (AList.update c ?m es)" for e
      using that set_AList_update [of c ?m es] height_child [OF Some] height_entry [of e es] by auto
    then have "height (Dir (AList.update c ?m es)) \<le> height (Dir es)" by (rule height_mono)
    with "4.prems" Some "4.hyps" [OF Some] show ?thesis
      by (cases u) (auto simp: map_of_AList_update split: option.splits if_splits)
  qed
qed auto

lemma shrinks_set_node_None: "shrinks os (set_node p None os)"
  using lookup_change_None_height by (simp add: shrinks_def)

lemma shrinks_unlink: "shrinks os (snd (unlink os f))"
  by (auto simp: unlink_def shrinks_set_node_None split: option.splits node.splits)

lemma shrinks_rmdir: "shrinks os (snd (rmdir os f))"
  by (auto simp: rmdir_def shrinks_set_node_None split: option.splits node.splits list.splits)

lemma wf_set_node_None: "wf_node (root os) \<Longrightarrow> wf_node (root (set_node p None os))"
  by (auto intro: wf_node_change)

lemma wf_unlink: "wf_node (root os) \<Longrightarrow> wf_node (root (snd (unlink os f)))"
  by (auto simp: unlink_def intro: wf_node_change split: option.splits node.splits)

lemma wf_rmdir: "wf_node (root os) \<Longrightarrow> wf_node (root (snd (rmdir os f)))"
  by (auto simp: rmdir_def intro: wf_node_change split: option.splits node.splits list.splits)

lemma resolve_child_inv:
  assumes "resolve os (c_str d @ CHR ''/'' # c) = Some q" "c_str d \<noteq> []" "good_name c"
  shows "\<exists>p. resolve os d = Some p \<and> q = p @ [c]"
proof -
  have e: "c_str (c_str d @ CHR ''/'' # c) = c_str d @ CHR ''/'' # c"
    using assms(3) NUL_notin_c_str [of d] by (auto simp: good_name_def intro: c_str_id)
  let ?base = "if hd (c_str d) = CHR ''/'' then [] else cwd os"
  have "canon (root os) ?base (components (c_str d) @ [c]) = Some q"
    using assms e components_child [OF assms(3), of "c_str d"] by (simp add: resolve_def Let_def)
  then obtain p where p: "canon (root os) ?base (components (c_str d)) = Some p"
      and "canon (root os) p [c] = Some q"
    by (auto simp: canon_append split: option.splits)
  then have "q = p @ [c]" using assms(3) by (auto simp: good_name_def split: if_splits)
  moreover have "resolve os d = Some p"
    unfolding resolve_def Let_def using p assms(2) by (simp only: if_False)
  ultimately show ?thesis by blast
qed

lemma height_lookup: "lookup r p = Some n \<Longrightarrow> height n \<le> height r"
proof (induction r p rule: lookup.induct)
  case (3 es c cs)
  then obtain m where "map_of es c = Some m" "height n \<le> height m" by (auto split: option.splits)
  with height_child [of es c m] show ?case by simp
qed auto

section \<open>Every call keeps the tree well-formed\<close>

lemma split_on_no_sep: "c \<in> set (split_on d s) \<Longrightarrow> d \<notin> set c"
  by (induction s arbitrary: c) (auto split: if_splits list.splits)

lemma split_on_subset: "c \<in> set (split_on d s) \<Longrightarrow> set c \<subseteq> set s"
proof (induction s arbitrary: c)
  case (Cons a s)
  show ?case
  proof (cases "a = d")
    case True
    with Cons show ?thesis by auto
  next
    case False
    obtain w ws where "split_on d s = w # ws" using split_on_nonempty [of d s] by (cases "split_on d s") auto
    with False Cons show ?thesis by (auto split: list.splits) blast+
  qed
qed simp

text \<open>Resolving a name ends at something that exists or at a fresh entry with a good name.\<close>

lemma canon_fresh:
  assumes "canon r p cs = Some q" "\<And>c. c \<in> set cs \<Longrightarrow> CHR ''/'' \<notin> set c \<and> NUL \<notin> set c"
    and "lookup r p \<noteq> None \<or> good_name (last p) \<or> cs \<noteq> []"
  shows "lookup r q \<noteq> None \<or> good_name (last q)"
  using assms
proof (induction r p cs rule: canon.induct)
  case (2 r p c cs)
  then have d: "is_Dir (lookup r p)" by (auto split: if_splits)
  then have "lookup r (butlast p) \<noteq> None"
    by (cases p rule: rev_cases) (auto simp: lookup_append is_Dir_iff split: option.splits)
  moreover have "c \<noteq> [] \<Longrightarrow> c \<noteq> ''.'' \<Longrightarrow> c \<noteq> ''..'' \<Longrightarrow> good_name c"
    using "2.prems"(2) by (auto simp: good_name_def)
  ultimately show ?case using "2" d by (auto simp: is_Dir_iff split: if_splits)
qed auto

lemma good_last_lookup: "wf_node r \<Longrightarrow> lookup r p \<noteq> None \<Longrightarrow> p \<noteq> [] \<Longrightarrow> good_name (last p)"
proof (cases p rule: rev_cases)
  case (snoc q c)
  assume r: "wf_node r" "lookup r p \<noteq> None"
  then obtain es where es: "lookup r q = Some (Dir es)"
    using snoc lookup_prefix_is_Dir [of r p q] by (auto simp: is_Dir_iff strict_prefix_def)
  then obtain m where "map_of es c = Some m" using r(2) snoc by (auto simp: lookup_snoc)
  with wf_node_Dir_map_of [OF wf_node_lookup [OF r(1) es]] have "good_name c" by blast
  then show ?thesis using snoc by simp
qed simp

lemma resolve_good_last:
  assumes "wf_node (root os)" "resolve os f = Some p" "p \<noteq> []"
  shows "good_name (last p)"
proof -
  have "lookup (root os) p \<noteq> None \<or> good_name (last p)"
  proof (rule canon_fresh)
    show "canon (root os) (if hd (c_str f) = CHR ''/'' then [] else cwd os) (components (c_str f)) = Some p"
      using assms(2) by (auto simp: resolve_def Let_def split: if_splits)
    show "CHR ''/'' \<notin> set c \<and> NUL \<notin> set c" if "c \<in> set (components (c_str f))" for c
      using that split_on_no_sep split_on_subset NUL_notin_c_str [of f] by blast
  qed (simp add: split_on_nonempty)
  with good_last_lookup assms(1,3) show ?thesis by blast
qed

lemma wf_set_node:
  "wf_node (root os) \<Longrightarrow> (p \<noteq> [] \<Longrightarrow> good_name (last p)) \<Longrightarrow> wf_node m \<Longrightarrow>
     wf_node (root (set_node p (Some m) os))"
  by (auto intro: wf_node_change)

text \<open>Streams open for writing are named by paths with a good last name.\<close>

lemma wf_open_write:
  assumes "wf_node (root os)" "open_write t os f = Some (p, os1)"
  shows "wf_node (root os1) \<and> (p \<noteq> [] \<longrightarrow> good_name (last p))"
proof -
  have p: "resolve os f = Some p"
    using assms(2) by (auto simp: open_write_def split: option.splits if_splits node.splits)
  with assms(1) resolve_good_last have g: "p \<noteq> [] \<Longrightarrow> good_name (last p)" by blast
  then have "wf_node (root (set_node p (Some (File [])) os))"
    using assms(1) by (intro wf_set_node) simp_all
  with p assms g show ?thesis
    by (auto simp: open_write_def simp del: root_set_node split: option.splits if_splits node.splits)
qed

lemma wf_append_to:
  "wf_node (root os) \<Longrightarrow> (p \<noteq> [] \<Longrightarrow> good_name (last p)) \<Longrightarrow> wf_node (root (append_to p t os))"
  by (auto simp: append_to_def simp del: root_set_node intro: wf_set_node)

lemma wf_remove_c: "wf_node (root os) \<Longrightarrow> wf_node (root (snd (remove_c os f)))"
  by (auto simp: remove_c_def wf_rmdir wf_unlink split: option.splits)

lemma wf_mkdir: "wf_node (root os) \<Longrightarrow> wf_node (root (snd (mkdir os f)))"
  using resolve_good_last [of os "strip_slashes (c_str f)"]
  by (auto simp: mkdir_def simp del: root_set_node intro!: wf_set_node split: option.splits)

lemma root_chdir [simp]: "root (snd (chdir os f)) = root os"
  by (auto simp: chdir_def split: option.splits)

section \<open>A file system for closed examples\<close>

definition example_os :: os where
  "example_os = \<lparr>
     root = Dir [(''tmp'', Dir []),
                 (''home'', Dir [(''a.txt'', File ''hello''), (''empty'', File []),
                                 (''sub'', Dir [(''b'', File ''x''), (''c'', Dir [])])])],
     cwd = [], refuses = (\<lambda>k p. False) \<rparr>"

lemma example_os_simps [simp]:
  "root example_os = Dir [(''tmp'', Dir []),
     (''home'', Dir [(''a.txt'', File ''hello''), (''empty'', File []),
                     (''sub'', Dir [(''b'', File ''x''), (''c'', Dir [])])])]"
  "cwd example_os = []" "refuses example_os k p = False"
  by (simp_all add: example_os_def)

lemma example_names_home: "names_dir example_os ''/home'' [''home'']"
  by (simp add: names_dir_def resolve_def c_str_def)

lemma example_wf: "wf_node (root example_os)"
  by (simp add: good_name_def)

end
