(* ===== verification/Remote_Client.thy ===== *)
theory Remote_Client
  imports Posix_FS
begin

text \<open>
  The client side of the remote adapter: \<open>rpc_connection_impl.cc\<close> (calls with the exceptions of
  rpclib turned into responses) and \<open>remote_client.cc\<close> (calls that return text and calls that fetch a
  file into \<open>/tmp\<close>). The rpclib client and msgpack are parameters over a connection state \<open>'c\<close> and a
  type \<open>'o\<close> of packed objects. An exception that leaves an operation is the value \<open>None\<close>.
\<close>

section \<open>Connection\<close>

datatype 'o call_result = Returned 'o | Rpc_error string 'o | Rpc_timeout string | Other_exception

record ('c, 'o) rpc_ops =
  client_call :: "string \<Rightarrow> parameter_type list option \<Rightarrow> 'c \<Rightarrow> 'o call_result \<times> 'c"
  get_connection_state :: "'c \<Rightarrow> bool"
  set_timeout :: "int \<Rightarrow> 'c \<Rightarrow> 'c"
  pack :: "response_type \<Rightarrow> 'o"
  as_response :: "'o \<Rightarrow> response_type option"
  as_int_string :: "'o \<Rightarrow> (int \<times> string) option"

text \<open>\<open>handle_rpc_error\<close> unpacks the error object as a pair of a number and a text; \<open>None\<close> is msgpack's
  \<open>type_error\<close>.\<close>

definition handle_rpc_error :: "('c, 'o) rpc_ops \<Rightarrow> 'o \<Rightarrow> int option" where
  "handle_rpc_error ops err = map_option (\<lambda>p. FAILED) (as_int_string ops err)"

definition handle_rpc_timeout :: "string \<Rightarrow> int" where
  "handle_rpc_timeout what = TIMEOUT_EXPIRED"

definition error_pack :: "('c, 'o) rpc_ops \<Rightarrow> response_type \<Rightarrow> 'o" where
  "error_pack ops response = pack ops response"

definition RpcConnection_call ::
  "('c, 'o) rpc_ops \<Rightarrow> string \<Rightarrow> parameter_type list option \<Rightarrow> 'c \<Rightarrow> 'o option \<times> 'c" where
  "RpcConnection_call ops func_name args c =
     (case client_call ops func_name args c of
        (Returned obj, c1) \<Rightarrow> (Some obj, c1)
      | (Rpc_error what err, c1) \<Rightarrow>
          (map_option (\<lambda>code. error_pack ops (what, code)) (handle_rpc_error ops err), c1)
      | (Rpc_timeout what, c1) \<Rightarrow> (Some (error_pack ops (what, handle_rpc_timeout what)), c1)
      | (Other_exception, c1) \<Rightarrow> (None, c1))"

text \<open>\<open>connection_->call(...).as<response_type>()\<close>.\<close>

definition call_response ::
  "('c, 'o) rpc_ops \<Rightarrow> string \<Rightarrow> parameter_type list option \<Rightarrow> 'c \<Rightarrow> response_type option \<times> 'c" where
  "call_response ops rpc_name args c =
     (case RpcConnection_call ops rpc_name args c of
        (obj, c1) \<Rightarrow> (Option.bind obj (as_response ops), c1))"

section \<open>Client\<close>

text \<open>The constructor sets the timeout and checks the connection, but only an exception keeps it from
  giving a client.\<close>

definition RemoteClient :: "('c, 'o) rpc_ops \<Rightarrow> 'c \<Rightarrow> 'c option" where
  "RemoteClient ops c =
     (let timeout = 10000;
          c = set_timeout ops timeout c
      in case call_response ops client_connected None c of
           (None, c1) \<Rightarrow> None | (Some response, c1) \<Rightarrow> Some c1)"

definition client_is_connected :: "('c, 'o) rpc_ops \<Rightarrow> 'c \<Rightarrow> bool" where
  "client_is_connected ops c = get_connection_state ops c"

definition content_call ::
  "('c, 'o) rpc_ops \<Rightarrow> string \<Rightarrow> parameter_type list \<Rightarrow> 'c \<Rightarrow> response_type option \<times> 'c" where
  "content_call ops rpc_name parameters c =
     (if client_is_connected ops c then call_response ops rpc_name (Some parameters) c
      else (Some ([], NO_CONNECTION), c))"

text \<open>
  The loop of \<open>file_call\<close>, which may go on for as long as the server answers with positive offsets:
  not returning is \<open>None\<close>. It leaves with the last response, after an error reply, or by an exception;
  the state is the connection and the client's file system, \<open>hFile\<close> the open file.
\<close>

datatype loop_exit = Last_piece response_type | Gave_up | Exception

partial_function (option) file_loop ::
  "('c, 'o) rpc_ops \<Rightarrow> string \<Rightarrow> parameter_type list \<Rightarrow> nat \<Rightarrow> string \<Rightarrow> path \<Rightarrow> response_type \<Rightarrow>
   'c \<Rightarrow> os \<Rightarrow> (loop_exit \<times> 'c \<times> os) option" where
  "file_loop ops rpc_name parameters offset_parameter_idx tmp_path hFile response c os =
     (let os1 = append_to hFile (fst response) os;
          remains_bytes = snd response;
          parameters1 = parameters[offset_parameter_idx := (to_string remains_bytes, param_code INT_T)]
      in case call_response ops rpc_name (Some parameters1) c of
           (None, c1) \<Rightarrow> Some (Exception, c1, os1)
         | (Some response1, c1) \<Rightarrow>
             if 0 > snd response1 then Some (Gave_up, c1, snd (remove_c os1 tmp_path))
             else if snd response1 > 0 then
               file_loop ops rpc_name parameters1 offset_parameter_idx tmp_path hFile response1 c1 os1
             else Some (Last_piece response1, c1, os1))"

definition file_call ::
  "('c, 'o) rpc_ops \<Rightarrow> string \<Rightarrow> parameter_type list \<Rightarrow> 'c \<Rightarrow> os \<Rightarrow>
   (response_type option \<times> 'c \<times> os) option" where
  "file_call ops rpc_name parameters c os =
     (if client_is_connected ops c then
        let parameters = parameters @ [(to_string 0, param_code INT_T)];
            parameters = parameters @ [(to_string kMaxSizeData, param_code INT_T)]
        in case call_response ops rpc_name (Some parameters) c of
             (None, c1) \<Rightarrow> Some (None, c1, os)
           | (Some response, c1) \<Rightarrow>
               if 0 > snd response then Some (Some response, c1, os)
               else
                 let tmp_path = kTmpPath @ fst (parameters ! 1);
                     os1 = snd (remove_c os tmp_path)
                 in case open_write False os1 tmp_path of
                      None \<Rightarrow> Some (Some (''Can't create file'', FAILED), c1, os1)
                    | Some (hFile, os2) \<Rightarrow>
                        (case (if 0 < snd response
                               then file_loop ops rpc_name parameters (length parameters - 2) tmp_path
                                      hFile response c1 os2
                               else Some (Last_piece response, c1, os2)) of
                           None \<Rightarrow> None
                         | Some (Exception, c2, os3) \<Rightarrow> Some (None, c2, os3)
                         | Some (Gave_up, c2, os3) \<Rightarrow> Some (Some ([], FAILED), c2, os3)
                         | Some (Last_piece last_response, c2, os3) \<Rightarrow>
                             Some (Some (tmp_path, SUCCESS), c2,
                                   append_to hFile (fst last_response) os3))
      else Some (Some ([], NO_CONNECTION), c, os))"

text \<open>
  The Lua side (\<open>remote_client_lua_wrapper.cc\<close>): a call passes a table of types and values, where a
  value that is no text is a null pointer and undefined as a \<open>std::string\<close> (\<open>None\<close>); texts cross as C
  strings in both directions. The result is the code and the text; the inner option is an exception.
\<close>

fun get_rpc_parameters :: "(int \<times> string option) list \<Rightarrow> parameter_type list option" where
  "get_rpc_parameters [] = Some []"
| "get_rpc_parameters ((ty, val) # rest) =
     (case val of
        None \<Rightarrow> None
      | Some v \<Rightarrow> map_option (\<lambda>parameters. (c_str v, to_int ty) # parameters) (get_rpc_parameters rest))"

definition lua_content_call ::
  "('c, 'o) rpc_ops \<Rightarrow> string \<Rightarrow> (int \<times> string option) list \<Rightarrow> 'c \<Rightarrow> ((int \<times> string) option \<times> 'c) option" where
  "lua_content_call ops rpc_name params c = do {
     parameters \<leftarrow> get_rpc_parameters params;
     let (data_and_error, c1) = content_call ops (c_str rpc_name) parameters c;
     Some (map_option (\<lambda>r. (snd r, c_str (fst r))) data_and_error, c1) }"

definition lua_file_call ::
  "('c, 'o) rpc_ops \<Rightarrow> string \<Rightarrow> (int \<times> string option) list \<Rightarrow> 'c \<Rightarrow> os \<Rightarrow>
   ((int \<times> string) option \<times> 'c \<times> os) option" where
  "lua_file_call ops rpc_name params c os = do {
     parameters \<leftarrow> get_rpc_parameters params;
     (data_and_error, c1, os1) \<leftarrow> file_call ops (c_str rpc_name) parameters c os;
     Some (map_option (\<lambda>r. (snd r, c_str (fst r))) data_and_error, c1, os1) }"

definition lua_connected :: "('c, 'o) rpc_ops \<Rightarrow> 'c \<Rightarrow> bool" where
  "lua_connected ops c = client_is_connected ops c"

section \<open>What the client relies on\<close>

text \<open>msgpack unpacks a response as it was packed, and does not unpack a text as a number.\<close>

definition msgpack_ok :: "('c, 'o) rpc_ops \<Rightarrow> bool" where
  "msgpack_ok ops \<longleftrightarrow> (\<forall>r. as_response ops (pack ops r) = Some r \<and> as_int_string ops (pack ops r) = None)"

text \<open>A connection over which the procedure \<open>rpc_name\<close> answers requests \<open>req off\<close> with \<open>fetch off\<close>, in
  every connection state of \<open>live\<close>, and stays there.\<close>

definition answers ::
  "('c, 'o) rpc_ops \<Rightarrow> string \<Rightarrow> (int \<Rightarrow> parameter_type list) \<Rightarrow> (int \<Rightarrow> response_type) \<Rightarrow> ('c \<Rightarrow> bool) \<Rightarrow> bool" where
  "answers ops rpc_name req fetch live \<longleftrightarrow>
     (\<forall>c off. live c \<longrightarrow> get_connection_state ops c \<and>
        (\<exists>c1. client_call ops rpc_name (Some (req off)) c = (Returned (pack ops (fetch off)), c1) \<and> live c1))"

lemma answersD:
  assumes "answers ops rpc_name req fetch live" "msgpack_ok ops" "live c"
  obtains c1 where "call_response ops rpc_name (Some (req off)) c = (Some (fetch off), c1)" "live c1"
    "get_connection_state ops c"
proof -
  obtain c1 where "client_call ops rpc_name (Some (req off)) c = (Returned (pack ops (fetch off)), c1)"
      "live c1" "get_connection_state ops c"
    using assms(1,3) by (auto simp: answers_def)
  moreover have "as_response ops (pack ops (fetch off)) = Some (fetch off)"
    using assms(2) unfolding msgpack_ok_def by blast
  ultimately show thesis
    using that by (simp add: call_response_def RpcConnection_call_def)
qed

section \<open>The loop gathers the pieces\<close>

text \<open>The requests of \<open>file_call\<close> for a file in a directory.\<close>

abbreviation file_request :: "string \<Rightarrow> string \<Rightarrow> int \<Rightarrow> parameter_type list" where
  "file_request d c off \<equiv> [(d, 4), (c, 4), (to_string off, 1), (to_string kMaxSizeData, 1)]"

lemma request_update: "(file_request d c off)[2 := (to_string off', 1)] = file_request d c off'"
  by (simp add: numeral_2_eq_2)

lemma append_to_same:
  assumes "lookup (root os) p = Some (Dir es)"
  shows "append_to (p @ [c]) t (set_node (p @ [c]) (Some (File u)) os) =
     set_node (p @ [c]) (Some (File (u @ t))) os"
  using assms by (intro append_to_file) simp

text \<open>The state of the client's file system while the file grows.\<close>

abbreviation growing :: "path \<Rightarrow> string \<Rightarrow> os \<Rightarrow> os" where
  "growing f u os \<equiv> set_node f (Some (File u)) os"

lemma file_loop_gathers:
  assumes link: "answers ops n (file_request d c) fetch live" "msgpack_ok ops"
    and dir: "lookup (root os) p = Some (Dir es)"
  shows "gather fetch fuel (snd r) = Some (Some t) \<Longrightarrow> live k \<Longrightarrow>
     \<exists>k' l u'. file_loop ops n (file_request d c off) 2 tmp (p @ [f]) r k (growing (p @ [f]) u os) =
         Some (Last_piece l, k', growing (p @ [f]) u' os) \<and> live k' \<and> u' @ fst l = u @ fst r @ t"
proof (induction fuel arbitrary: r t k u off)
  case 0
  then show ?case by simp
next
  case (Suc fuel)
  obtain k1 where k1: "call_response ops n (Some (file_request d c (snd r))) k = (Some (fetch (snd r)), k1)"
      "live k1"
    using answersD [OF link Suc.prems(2)] by metis
  note a = append_to_same [OF dir, of f "fst r" u]
  obtain t1 next1 where f: "fetch (snd r) = (t1, next1)" by fastforce
  note step = file_loop.simps [of ops n "file_request d c off" 2 tmp "p @ [f]" r k "growing (p @ [f]) u os"]
  show ?case
  proof (cases "next1 = 0")
    case True
    with Suc.prems f have "t = t1" by simp
    with True k1 f a show ?thesis
      by (subst step) (simp add: request_update)
  next
    case False
    with Suc.prems(1) f have n: "next1 > 0" by (auto split: if_splits)
    with False Suc.prems(1) f obtain t2 where t2: "gather fetch fuel next1 = Some (Some t2)" "t = t1 @ t2"
      by auto
    obtain k' l u' where IH: "file_loop ops n (file_request d c (snd r)) 2 tmp (p @ [f]) (t1, next1) k1
          (growing (p @ [f]) (u @ fst r) os) = Some (Last_piece l, k', growing (p @ [f]) u' os)"
        "live k'" "u' @ fst l = (u @ fst r) @ t1 @ t2"
      using Suc.IH [of "(t1, next1)" t2 k1 "snd r" "u @ fst r"] t2 k1 by auto
    with n k1 f a t2 show ?thesis
      by (subst step) (auto simp: request_update)
  qed
qed

lemma file_loop_gives_up:
  assumes link: "answers ops n (file_request d c) fetch live" "msgpack_ok ops"
    and dir: "lookup (root os) p = Some (Dir es)"
  shows "gather fetch fuel (snd r) = Some None \<Longrightarrow> live k \<Longrightarrow>
     \<exists>k' u'. file_loop ops n (file_request d c off) 2 tmp (p @ [f]) r k (growing (p @ [f]) u os) =
         Some (Gave_up, k', snd (remove_c (growing (p @ [f]) u' os) tmp)) \<and> live k'"
proof (induction fuel arbitrary: r k u off)
  case 0
  then show ?case by simp
next
  case (Suc fuel)
  obtain k1 where k1: "call_response ops n (Some (file_request d c (snd r))) k = (Some (fetch (snd r)), k1)"
      "live k1"
    using answersD [OF link Suc.prems(2)] by metis
  note a = append_to_same [OF dir, of f "fst r" u]
  obtain t1 next1 where f: "fetch (snd r) = (t1, next1)" by fastforce
  note step = file_loop.simps [of ops n "file_request d c off" 2 tmp "p @ [f]" r k "growing (p @ [f]) u os"]
  show ?case
  proof (cases "next1 < 0")
    case True
    with k1 f a show ?thesis by (subst step) (auto simp: request_update)
  next
    case False
    with Suc.prems(1) f have n: "next1 > 0" "gather fetch fuel next1 = Some None"
      by (auto split: if_splits)
    with Suc.IH [of "(t1, next1)" k1 "snd r" "u @ fst r"] n k1 f a show ?thesis
      by (subst step) (auto simp: request_update)
  qed
qed

section \<open>Fetching a file\<close>

text \<open>The client may create and remove \<open>/tmp/c\<close>; \<open>p\<close> is where \<open>/tmp/\<close> leads.\<close>

definition tmp_usable :: "os \<Rightarrow> path \<Rightarrow> string \<Rightarrow> bool" where
  "tmp_usable os p c \<longleftrightarrow> names_dir os kTmpPath p \<and> good_name c \<and> \<not> is_Dir (lookup (root os) (p @ [c])) \<and>
     \<not> refuses os Open_write (p @ [c]) \<and> \<not> refuses os Unlink (p @ [c])"

lemma tmp_resolve:
  assumes "names_dir os kTmpPath p" "good_name c"
  shows "resolve os (kTmpPath @ c) = Some (p @ [c])"
proof -
  have "resolve os (''/tmp'' @ CHR ''/'' # c) = Some (p @ [c])"
    using assms by (intro resolve_child_slash) (simp_all add: names_dir_def kTmpPath_def)
  then show ?thesis by (simp add: kTmpPath_def)
qed

lemma tmp_fresh:
  assumes "tmp_usable os p c"
  defines "os1 \<equiv> snd (remove_c os (kTmpPath @ c))"
  obtains es where "open_write False os1 (kTmpPath @ c) = Some (p @ [c], growing (p @ [c]) [] os1)"
    "lookup (root os1) p = Some (Dir es)" "names_dir os1 kTmpPath p"
    "\<not> refuses os1 Unlink (p @ [c])" "lookup (root os1) (p @ [c]) = None"
proof -
  have t: "names_dir os kTmpPath p" "good_name c" "\<not> is_Dir (lookup (root os) (p @ [c]))"
      "\<not> refuses os Open_write (p @ [c])" "\<not> refuses os Unlink (p @ [c])"
    using assms(1) by (auto simp: tmp_usable_def)
  note r = tmp_resolve [OF t(1,2)]
  have d: "is_Dir (lookup (root os) p)" using t(1) by (simp add: names_dir_def)
  have os1: "os1 = os \<and> lookup (root os) (p @ [c]) = None \<or> os1 = set_node (p @ [c]) None os"
    using t(3,5) r remove_c_absent [OF r] remove_c_file [OF r]
    by (cases "lookup (root os) (p @ [c])" rule: is_Dir.cases) (auto simp: os1_def)
  then have n: "names_dir os1 kTmpPath p" using t(1,3) names_dir_set_node by auto
  then obtain es where es: "lookup (root os1) p = Some (Dir es)" by (auto simp: names_dir_def is_Dir_iff)
  have l: "lookup (root os1) (p @ [c]) = None" "refuses os1 = refuses os"
    using os1 d by (auto simp: lookup_entry_same)
  then have "open_write False os1 (kTmpPath @ c) = Some (p @ [c], growing (p @ [c]) [] os1)"
    using tmp_resolve [OF n t(2)] t(4) by (intro open_append_absent) simp_all
  with es n l t(5) that show thesis by simp
qed

lemma remove_growing:
  assumes "names_dir os kTmpPath p" "good_name c" "\<not> refuses os Unlink (p @ [c])"
    and "lookup (root os) (p @ [c]) = None"
  shows "lookup (root (snd (remove_c (growing (p @ [c]) u os) (kTmpPath @ c)))) (p @ [c]) = None"
proof -
  let ?os = "growing (p @ [c]) u os"
  have n: "names_dir ?os kTmpPath p" by (rule names_dir_set_node [OF assms(1)]) (simp add: assms(4))
  then have d: "is_Dir (lookup (root ?os) p)" by (simp add: names_dir_def)
  have "lookup (root ?os) (p @ [c]) = Some (File u)"
    using assms(1) by (simp add: lookup_entry_same names_dir_def)
  then have "remove_c ?os (kTmpPath @ c) = (0, set_node (p @ [c]) None ?os)"
    using tmp_resolve [OF n assms(2)] assms(3) by (intro remove_c_file) simp_all
  with d show ?thesis using lookup_entry_same [of "root ?os" p c None] by simp
qed

text \<open>\<open>file_call\<close> refines \<open>gather\<close>: what the pieces join to is what the file in \<open>/tmp\<close> holds.\<close>

lemma file_call_gathers:
  assumes link: "answers ops n (file_request d c) fetch live" "msgpack_ok ops" and live: "live k"
    and tmp: "tmp_usable os p c" and g: "gather fetch fuel 0 = Some (Some t)"
  shows "\<exists>k' os'. file_call ops n [(d, 4), (c, 4)] k os = Some (Some (kTmpPath @ c, SUCCESS), k', os') \<and>
     lookup (root os') (p @ [c]) = Some (File t)"
proof -
  obtain k1 where k1: "call_response ops n (Some (file_request d c 0)) k = (Some (fetch 0), k1)" "live k1"
      "get_connection_state ops k"
    using answersD [OF link live] by metis
  obtain t1 next1 where f: "fetch 0 = (t1, next1)" by fastforce
  define os1 where "os1 = snd (remove_c os (kTmpPath @ c))"
  obtain es where o: "open_write False os1 (kTmpPath @ c) = Some (p @ [c], growing (p @ [c]) [] os1)"
      "lookup (root os1) p = Some (Dir es)"
    using tmp_fresh [OF tmp] unfolding os1_def by metis
  have final: "lookup (root (append_to (p @ [c]) v (growing (p @ [c]) u os1))) (p @ [c]) = Some (File (u @ v))" for u v
    using o(2) by (simp add: append_to_same [OF o(2)] lookup_entry_same)
  have n: "\<not> next1 < 0" using g f by (cases fuel) auto
  show ?thesis
  proof (cases "next1 = 0")
    case True
    then have "t = t1" using g f by (cases fuel) auto
    with True k1 f o final [of t1 "[]"] show ?thesis
      by (simp add: file_call_def client_is_connected_def os1_def [symmetric])
  next
    case False
    then obtain fuel' t2 where t2: "gather fetch fuel' (snd (t1, next1)) = Some (Some t2)" "t = t1 @ t2"
      using g f n by (cases fuel) auto
    from file_loop_gathers [OF link o(2) t2(1) k1(2), of 0 "kTmpPath @ c" c "[]"]
    obtain k' l u' where l: "file_loop ops n (file_request d c 0) 2 (kTmpPath @ c) (p @ [c]) (t1, next1) k1
        (growing (p @ [c]) [] os1) = Some (Last_piece l, k', growing (p @ [c]) u' os1)" "u' @ fst l = t1 @ t2"
      by auto
    with False n k1 f o t2 final [of "fst l" u'] show ?thesis
      by (simp add: file_call_def client_is_connected_def os1_def [symmetric] numeral_2_eq_2)
  qed
qed

lemma file_call_gives_up:
  assumes link: "answers ops n (file_request d c) fetch live" "msgpack_ok ops" and live: "live k"
    and tmp: "tmp_usable os p c" and g: "gather fetch fuel 0 = Some None" "snd (fetch 0) > 0"
  shows "\<exists>k' os'. file_call ops n [(d, 4), (c, 4)] k os = Some (Some ([], FAILED), k', os') \<and>
     lookup (root os') (p @ [c]) = None"
proof -
  obtain k1 where k1: "call_response ops n (Some (file_request d c 0)) k = (Some (fetch 0), k1)" "live k1"
      "get_connection_state ops k"
    using answersD [OF link live] by metis
  obtain t1 next1 where f: "fetch 0 = (t1, next1)" "next1 > 0" using g(2) by (cases "fetch 0") auto
  define os1 where "os1 = snd (remove_c os (kTmpPath @ c))"
  obtain es where o: "open_write False os1 (kTmpPath @ c) = Some (p @ [c], growing (p @ [c]) [] os1)"
      "lookup (root os1) p = Some (Dir es)" "names_dir os1 kTmpPath p"
      "\<not> refuses os1 Unlink (p @ [c])" "lookup (root os1) (p @ [c]) = None"
    using tmp_fresh [OF tmp] unfolding os1_def by metis
  obtain fuel' where g': "gather fetch fuel' (snd (t1, next1)) = Some None"
    using g f by (cases fuel) auto
  from file_loop_gives_up [OF link o(2) g' k1(2), of 0 "kTmpPath @ c" c "[]"]
  obtain k' u' where l: "file_loop ops n (file_request d c 0) 2 (kTmpPath @ c) (p @ [c]) (t1, next1) k1
      (growing (p @ [c]) [] os1) = Some (Gave_up, k', snd (remove_c (growing (p @ [c]) u' os1) (kTmpPath @ c)))"
    by auto
  have "good_name c" using tmp by (simp add: tmp_usable_def)
  with remove_growing [OF o(3) _ o(4,5), of u'] l k1 f o(1) show ?thesis
    by (simp add: file_call_def client_is_connected_def os1_def [symmetric] numeral_2_eq_2)
qed

section \<open>Properties\<close>

text \<open>Every outcome of a call is accounted for: without a connection nothing is called and the
  answer is \<open>NO_CONNECTION\<close>; otherwise a reply is delivered as it was unpacked, a timeout becomes a
  response with \<open>TIMEOUT_EXPIRED\<close>, and an error becomes a response with \<open>FAILED\<close> if its object is a
  pair of a number and a text, and else an exception.\<close>

theorem content_call_outcomes:
  assumes "msgpack_ok ops"
  shows "content_call ops n ps c =
     (if \<not> get_connection_state ops c then (Some ([], NO_CONNECTION), c)
      else (case client_call ops n (Some ps) c of
              (Returned obj, c1) \<Rightarrow> (as_response ops obj, c1)
            | (Rpc_timeout what, c1) \<Rightarrow> (Some (what, TIMEOUT_EXPIRED), c1)
            | (Rpc_error what err, c1) \<Rightarrow>
                (if as_int_string ops err = None then None else Some (what, FAILED), c1)
            | (Other_exception, c1) \<Rightarrow> (None, c1)))"
  using assms
  by (auto simp: content_call_def client_is_connected_def call_response_def RpcConnection_call_def
      error_pack_def handle_rpc_timeout_def handle_rpc_error_def msgpack_ok_def
      split: prod.splits call_result.splits option.splits)

text \<open>A connection for closed examples: packed objects are responses, the server is a function.\<close>

definition function_client ::
  "(string \<Rightarrow> parameter_type list \<Rightarrow> 's \<Rightarrow> outcome \<times> 's) \<Rightarrow> ('s, response_type) rpc_ops" where
  "function_client serve = \<lparr>
     client_call = (\<lambda>n ps s.
       case serve n (case ps of None \<Rightarrow> [] | Some l \<Rightarrow> l) s of
         (Reply r, s1) \<Rightarrow> (Returned r, s1)
       | (ErrorReply e, s1) \<Rightarrow> (Rpc_error ''rpc error'' e, s1)
       | (Thrown, s1) \<Rightarrow> (Other_exception, s1)
       | (Undefined, s1) \<Rightarrow> (Other_exception, s1)),
     get_connection_state = (\<lambda>s. True), set_timeout = (\<lambda>t s. s), pack = (\<lambda>r. r), as_response = Some, as_int_string = (\<lambda>obj. None) \<rparr>"

lemma function_client_simps [simp]:
  "client_call (function_client serve) n (Some ps) s =
     (case serve n ps s of
        (Reply r, s1) \<Rightarrow> (Returned r, s1)
      | (ErrorReply e, s1) \<Rightarrow> (Rpc_error ''rpc error'' e, s1)
      | (Thrown, s1) \<Rightarrow> (Other_exception, s1)
      | (Undefined, s1) \<Rightarrow> (Other_exception, s1))"
  "get_connection_state (function_client serve) s" "pack (function_client serve) r = r"
  "as_response (function_client serve) r = Some r" "as_int_string (function_client serve) r = None"
  by (simp_all add: function_client_def)

lemma function_client_ok: "msgpack_ok (function_client serve)"
  by (simp add: msgpack_ok_def)

theorem content_call_outcomes_witness:
  "content_call (function_client (\<lambda>n ps s. (Reply (n, 5), Suc s))) ''x'' [] 0 = (Some (''x'', 5), 1)"
  using content_call_outcomes [OF function_client_ok, of "\<lambda>n ps s. (Reply (n, 5), Suc s)" "''x''" "[]" 0]
  by simp

text \<open>An error the server reports reaches the client as an exception, not as a result: the
  server's error objects are pairs of a text and a number, the client unpacks a pair of a number and a
  text, and the mismatch throws out of \<open>content_call\<close>.\<close>

theorem server_error_escapes:
  assumes "msgpack_ok ops" "get_connection_state ops c"
    and "client_call ops n (Some ps) c = (Rpc_error what (pack ops (description, code)), c1)"
  shows "content_call ops n ps c = (None, c1)"
  using assms
  by (simp add: content_call_def client_is_connected_def call_response_def RpcConnection_call_def
      handle_rpc_error_def msgpack_ok_def)

theorem server_error_escapes_witness:
  "content_call (function_client (\<lambda>n ps s. (ErrorReply (''Unknown error'', NO_CONNECTION), s))) close_handle [] True =
     (None, True)"
  using server_error_escapes [OF function_client_ok,
      of "\<lambda>n ps s. (ErrorReply (''Unknown error'', NO_CONNECTION), s)" True close_handle "[]" "''rpc error''"
        "''Unknown error''" NO_CONNECTION True]
  by simp

end
