(* ===== verification/Hmi_Adapter.thy ===== *)
theory Hmi_Adapter
  imports Remote_Client
begin

text \<open>
  The HMI adapter of the client (\<open>hmi_adapter_client.cc\<close> and its Lua wrapper): a Qt object that opens
  a remote websocket connection through the remote client, sends and receives over it, and reports
  with signals. The signals emitted so far are part of the state. The listener thread that calls
  \<open>receive\<close> every 25 ms is the step \<open>listener_tick\<close>; an exception ends it. The result of an operation
  is \<open>None\<close> when an exception leaves it.
\<close>

section \<open>State\<close>

datatype signal = Connected | Disconnected | BytesWritten int | TextMessageReceived string

record hmi =
  is_connected :: bool
  listener_started :: bool
  listener_running :: bool
  exit_requested :: bool
  connection_parameters :: "parameter_type list"
  signals :: "signal list"

definition HmiAdapterClient :: "parameter_type list \<Rightarrow> hmi" where
  "HmiAdapterClient ps = \<lparr>is_connected = False, listener_started = False, listener_running = False,
     exit_requested = False, connection_parameters = ps, signals = []\<rparr>"

text \<open>\<open>build_TCPParams\<close> of the Lua wrapper; \<open>None\<close> is a host that is no text.\<close>

definition build_TCPParams :: "string option \<Rightarrow> int \<Rightarrow> parameter_type list option" where
  "build_TCPParams host port =
     map_option (\<lambda>h. [(c_str h, param_code STRING_T), (to_string (to_int port), param_code INT_T)]) host"

definition emit :: "signal \<Rightarrow> hmi \<Rightarrow> hmi" where
  "emit sig h = h\<lparr>signals := signals h @ [sig]\<rparr>"

section \<open>Operations\<close>

definition connectionLost :: "hmi \<Rightarrow> hmi" where
  "connectionLost h = (if is_connected h then emit Disconnected (h\<lparr>is_connected := False\<rparr>) else h)"

text \<open>\<open>thread_ok\<close> says whether the system could start the listener thread; its failure is caught.\<close>

definition connect :: "('c, 'o) rpc_ops \<Rightarrow> bool \<Rightarrow> hmi \<Rightarrow> 'c \<Rightarrow> unit option \<times> hmi \<times> 'c" where
  "connect ops thread_ok h c =
     (if is_connected h \<or> listener_started h then
        (case content_call ops open_handle (connection_parameters h) c of
           (None, c1) \<Rightarrow> (None, h, c1)
         | (Some result, c1) \<Rightarrow>
             (Some (), if SUCCESS = snd result then emit Connected h else h, c1))
      else
        (case content_call ops open_handle (connection_parameters h) c of
           (None, c1) \<Rightarrow> (None, h, c1)
         | (Some result, c1) \<Rightarrow>
             if SUCCESS = snd result then
               let h = emit Connected (h\<lparr>is_connected := True\<rparr>) in
               (Some (), if thread_ok then h\<lparr>listener_started := True, listener_running := True\<rparr> else h, c1)
             else (Some (), h, c1)))"

definition send :: "('c, 'o) rpc_ops \<Rightarrow> string \<Rightarrow> hmi \<Rightarrow> 'c \<Rightarrow> int option \<times> hmi \<times> 'c" where
  "send ops data h c =
     (if is_connected h then
        let parameters = connection_parameters h @ [(data, param_code STRING_T)] in
        (case content_call ops send_name parameters c of
           (None, c1) \<Rightarrow> (None, h, c1)
         | (Some result, c1) \<Rightarrow>
             (Some (snd result),
              if SUCCESS = snd result then
                let h = emit (BytesWritten (int (length data))) h in
                if length (fst result) \<noteq> 0 then emit (TextMessageReceived (c_str (fst result))) h else h
              else if NO_CONNECTION = snd result then connectionLost h else h, c1))
      else (Some NO_CONNECTION, h, c))"

definition receive :: "('c, 'o) rpc_ops \<Rightarrow> hmi \<Rightarrow> 'c \<Rightarrow> response_type option \<times> hmi \<times> 'c" where
  "receive ops h c =
     (if is_connected h then
        (case content_call ops receive_name (connection_parameters h) c of
           (None, c1) \<Rightarrow> (None, h, c1)
         | (Some result, c1) \<Rightarrow>
             (Some result,
              if SUCCESS = snd result then
                if length (fst result) \<noteq> 0 then emit (TextMessageReceived (c_str (fst result))) h else h
              else if NO_CONNECTION = snd result then connectionLost h else h, c1))
      else (Some ([], NO_CONNECTION), h, c))"

text \<open>What \<open>send\<close> and \<open>receive\<close> do after the call has returned; another thread may run in between.\<close>

definition report_send :: "string \<Rightarrow> response_type \<Rightarrow> hmi \<Rightarrow> hmi" where
  "report_send data result h =
     (if SUCCESS = snd result then
        let h = emit (BytesWritten (int (length data))) h in
        if length (fst result) \<noteq> 0 then emit (TextMessageReceived (c_str (fst result))) h else h
      else if NO_CONNECTION = snd result then connectionLost h else h)"

definition report_receive :: "response_type \<Rightarrow> hmi \<Rightarrow> hmi" where
  "report_receive result h =
     (if SUCCESS = snd result then
        if length (fst result) \<noteq> 0 then emit (TextMessageReceived (c_str (fst result))) h else h
      else if NO_CONNECTION = snd result then connectionLost h else h)"

lemma send_in_two:
  assumes "is_connected h" "content_call ops send_name (connection_parameters h @ [(data, param_code STRING_T)]) c = (Some result, c1)"
  shows "send ops data h c = (Some (snd result), report_send data result h, c1)"
  using assms by (simp add: send_def report_send_def Let_def)

lemma receive_in_two:
  assumes "is_connected h" "content_call ops receive_name (connection_parameters h) c = (Some result, c1)"
  shows "receive ops h c = (Some result, report_receive result h, c1)"
  using assms by (simp add: receive_def report_receive_def)

text \<open>One turn of the listener thread.\<close>

definition listener_tick :: "('c, 'o) rpc_ops \<Rightarrow> hmi \<Rightarrow> 'c \<Rightarrow> hmi \<times> 'c" where
  "listener_tick ops h c =
     (if listener_running h \<and> \<not> exit_requested h then
        (case receive ops h c of
           (None, h1, c1) \<Rightarrow> (h1\<lparr>listener_running := False\<rparr>, c1)
         | (Some result, h1, c1) \<Rightarrow> (h1, c1))
      else (h\<lparr>listener_running := False\<rparr>, c))"

text \<open>The destructor; an exception out of it ends the program, the result \<open>None\<close>.\<close>

definition destroy :: "('c, 'o) rpc_ops \<Rightarrow> hmi \<Rightarrow> 'c \<Rightarrow> unit option \<times> hmi \<times> 'c" where
  "destroy ops h c =
     (let h = (if listener_started h then h\<lparr>exit_requested := True, listener_running := False\<rparr> else h)
      in if is_connected h then
           (case content_call ops close_handle (connection_parameters h) c of
              (None, c1) \<Rightarrow> (None, h, c1) | (Some result, c1) \<Rightarrow> (Some (), h, c1))
         else (Some (), h, c))"

text \<open>The Lua functions \<open>connect\<close> and \<open>write\<close> of an adapter.\<close>

definition lua_connect :: "('c, 'o) rpc_ops \<Rightarrow> bool \<Rightarrow> hmi \<Rightarrow> 'c \<Rightarrow> unit option \<times> hmi \<times> 'c" where
  "lua_connect ops thread_ok h c = connect ops thread_ok h c"

definition lua_write :: "('c, 'o) rpc_ops \<Rightarrow> string \<Rightarrow> hmi \<Rightarrow> 'c \<Rightarrow> int option \<times> hmi \<times> 'c" where
  "lua_write ops data h c = send ops (c_str data) h c"

section \<open>Runs\<close>

text \<open>What the script and the listener thread do with an adapter, in any order. The server behind the
  connection is arbitrary.\<close>

inductive hmi_step :: "('c, 'o) rpc_ops \<Rightarrow> hmi \<times> 'c \<Rightarrow> hmi \<times> 'c \<Rightarrow> bool" for ops where
  hmi_connect: "connect ops t h c = (r, h1, c1) \<Longrightarrow> hmi_step ops (h, c) (h1, c1)"
| hmi_send: "send ops d h c = (r, h1, c1) \<Longrightarrow> hmi_step ops (h, c) (h1, c1)"
| hmi_tick: "listener_tick ops h c = (h1, c1) \<Longrightarrow> hmi_step ops (h, c) (h1, c1)"
| hmi_server: "hmi_step ops (h, c) (h, c1)"

inductive hmi_run :: "('c, 'o) rpc_ops \<Rightarrow> hmi \<times> 'c \<Rightarrow> hmi \<times> 'c \<Rightarrow> bool" for ops where
  hmi_refl: "hmi_run ops s s"
| hmi_trans: "hmi_run ops s s1 \<Longrightarrow> hmi_step ops s1 s2 \<Longrightarrow> hmi_run ops s s2"

lemmas [hmi_defs] =
  connect_def send_def receive_def listener_tick_def connectionLost_def emit_def Let_def

text \<open>The effect of any step on the adapter, by the signals it adds: it keeps the connection flag, or
  it connects for the first time, or it loses the connection.\<close>

lemma hmi_step_effect:
  "hmi_step ops s s' \<Longrightarrow>
     (\<exists>sigs. signals (fst s') = signals (fst s) @ sigs \<and>
       ((is_connected (fst s') = is_connected (fst s) \<and> Disconnected \<notin> set sigs \<or>
         \<not> is_connected (fst s) \<and> \<not> listener_started (fst s) \<and> is_connected (fst s') \<and> sigs = [Connected] \<or>
         is_connected (fst s) \<and> \<not> is_connected (fst s') \<and> sigs = [Disconnected]) \<and>
        (listener_started (fst s) \<longrightarrow> listener_started (fst s'))))"
proof (induction rule: hmi_step.induct)
  case (hmi_connect t h c r h1 c1)
  then show ?case
    by (auto simp: hmi_defs split: if_splits prod.splits option.splits)
next
  case (hmi_send d h c r h1 c1)
  then show ?case
    by (auto simp: hmi_defs split: if_splits prod.splits option.splits)
next
  case (hmi_tick h c h1 c1)
  then show ?case
    by (auto simp: hmi_defs split: if_splits prod.splits option.splits)
qed auto

text \<open>Connecting is counted before disconnecting.\<close>

abbreviation n_connected :: "hmi \<Rightarrow> nat" where
  "n_connected h \<equiv> count_list (signals h) Connected"

abbreviation n_disconnected :: "hmi \<Rightarrow> nat" where
  "n_disconnected h \<equiv> count_list (signals h) Disconnected"

definition balanced :: "hmi \<Rightarrow> bool" where
  "balanced h \<longleftrightarrow> n_disconnected h \<le> n_connected h \<and> (is_connected h \<longrightarrow> n_disconnected h < n_connected h)"

lemma hmi_step_balanced: "hmi_step ops s s' \<Longrightarrow> balanced (fst s) \<Longrightarrow> balanced (fst s')"
  using hmi_step_effect [of ops s s'] by (auto simp: balanced_def count_notin)

lemma hmi_run_balanced: "hmi_run ops s s' \<Longrightarrow> balanced (fst s) \<Longrightarrow> balanced (fst s')"
  by (induction rule: hmi_run.induct) (auto dest: hmi_step_balanced)

lemma hmi_run_stuck:
  "hmi_run ops s s' \<Longrightarrow> listener_started (fst s) \<Longrightarrow> \<not> is_connected (fst s) \<Longrightarrow>
     listener_started (fst s') \<and> \<not> is_connected (fst s') \<and> n_disconnected (fst s') = n_disconnected (fst s)"
proof (induction rule: hmi_run.induct)
  case (hmi_trans s s1 s2)
  with hmi_step_effect [OF hmi_trans.hyps(2)] show ?case by (auto simp: count_notin)
qed simp

section \<open>Properties\<close>

text \<open>C28: the adapter's signals are consistent: whatever the script, the listener thread and the server
  do, \<open>disconnected\<close> is never emitted more often than \<open>connected\<close>, and strictly less often while the
  adapter is connected.\<close>

theorem hmi_signals_consistent:
  assumes "hmi_run ops (HmiAdapterClient ps, c) (h', c')"
  shows "count_list (signals h') Disconnected \<le> count_list (signals h') Connected \<and>
     (is_connected h' \<longrightarrow> count_list (signals h') Disconnected < count_list (signals h') Connected)"
  using hmi_run_balanced [OF assms] by (simp add: balanced_def HmiAdapterClient_def)

definition example_client :: "(nat, response_type) rpc_ops" where
  "example_client = function_client (\<lambda>n ps s.
     (Reply (if n = receive_name \<and> s = 0 then ''ping'' else [],
             if n \<noteq> open_handle \<and> 2 \<le> s then NO_CONNECTION else SUCCESS), Suc s))"

lemma example_client_call:
  "content_call example_client n ps s =
     (Some (if n = receive_name \<and> s = 0 then ''ping'' else [],
            if n \<noteq> open_handle \<and> 2 \<le> s then NO_CONNECTION else SUCCESS), Suc s)"
  by (simp add: example_client_def content_call_def client_is_connected_def call_response_def
      RpcConnection_call_def)

theorem hmi_signals_consistent_witness:
  "count_list (signals (fst (snd (connect example_client True (HmiAdapterClient []) 0)))) Disconnected <
   count_list (signals (fst (snd (connect example_client True (HmiAdapterClient []) 0)))) Connected"
proof -
  let ?h = "fst (snd (connect example_client True (HmiAdapterClient []) 0))"
  let ?c = "snd (snd (connect example_client True (HmiAdapterClient []) 0))"
  have "hmi_step example_client (HmiAdapterClient [], 0) (?h, ?c)"
    by (rule hmi_connect [of _ True _ _ "fst (connect example_client True (HmiAdapterClient []) 0)"]) simp
  then have run: "hmi_run example_client (HmiAdapterClient [], 0) (?h, ?c)" by (rule hmi_trans [OF hmi_refl])
  have "is_connected ?h"
    by (simp add: hmi_defs HmiAdapterClient_def example_client_call open_handle_def receive_name_def)
  with hmi_signals_consistent [OF run] show ?thesis by simp
qed

text \<open>An adapter that lost its connection never works again, although it says otherwise: once the
  listener thread was started and the connection is lost, a successful \<open>connect\<close> still emits
  \<open>connected\<close>, but from then on, whatever happens, the adapter is not connected, every \<open>send\<close> answers
  \<open>NO_CONNECTION\<close> without calling the server, and no further loss is reported.\<close>

theorem no_reconnect_after_loss:
  assumes "listener_started h" "\<not> is_connected h"
    and "content_call ops open_handle (connection_parameters h) c = (Some (m, SUCCESS), c1)"
    and "connect ops t h c = (r, h1, c1)" "hmi_run ops (h1, c1) (h', c')"
  shows "signals h1 = signals h @ [Connected] \<and> \<not> is_connected h' \<and>
     send ops d h' c' = (Some NO_CONNECTION, h', c') \<and>
     count_list (signals h') Disconnected = count_list (signals h) Disconnected"
proof -
  have h1: "h1 = emit Connected h" using assms(1-4) by (simp add: connect_def)
  then have "listener_started h1" "\<not> is_connected h1" using assms(1,2) by (simp_all add: emit_def)
  with hmi_run_stuck [OF assms(5)] h1 show ?thesis by (simp add: send_def emit_def)
qed

theorem no_reconnect_after_loss_witness:
  "\<exists>h1. connect example_client True
       ((HmiAdapterClient [])\<lparr>listener_started := True, signals := [Connected, Disconnected]\<rparr>) 2 = (Some (), h1, 3) \<and>
     signals h1 = [Connected, Disconnected, Connected] \<and>
     send example_client ''x'' h1 3 = (Some NO_CONNECTION, h1, 3)"
proof -
  let ?h = "(HmiAdapterClient [])\<lparr>listener_started := True, signals := [Connected, Disconnected]\<rparr>"
  have s: "listener_started ?h" "\<not> is_connected ?h" by (simp_all add: HmiAdapterClient_def)
  have o: "content_call example_client open_handle (connection_parameters ?h) 2 = (Some ([], SUCCESS), 3)"
    by (simp add: example_client_call)
  then obtain h1 where c: "connect example_client True ?h 2 = (Some (), h1, 3)"
    using s(1) by (simp add: connect_def)
  from no_reconnect_after_loss [OF s o c hmi_refl, of "''x''"] c show ?thesis by (simp add: HmiAdapterClient_def)
qed

text \<open>A message the server returns is reported once and as it is: on a connected adapter a
  \<open>receive\<close> that brings text emits exactly one \<open>textMessageReceived\<close> with that text, one that brings none
  emits nothing, and \<open>NO_CONNECTION\<close> emits exactly one \<open>disconnected\<close> and clears the flag.\<close>

theorem receive_signals:
  assumes "is_connected h" "content_call ops receive_name (connection_parameters h) c = (Some (m, code), c1)"
    and "NUL \<notin> set m"
  shows "receive ops h c = (Some (m, code),
     if code = SUCCESS then (if m = [] then h else h\<lparr>signals := signals h @ [TextMessageReceived m]\<rparr>)
     else if code = NO_CONNECTION then h\<lparr>is_connected := False, signals := signals h @ [Disconnected]\<rparr>
     else h, c1)"
  using assms by (auto simp: hmi_defs c_str_id)

theorem receive_signals_witness:
  "fst (snd (receive example_client ((HmiAdapterClient [])\<lparr>is_connected := True\<rparr>) 0)) =
     (HmiAdapterClient [])\<lparr>is_connected := True, signals := [TextMessageReceived ''ping'']\<rparr>"
  using receive_signals [of "(HmiAdapterClient [])\<lparr>is_connected := True\<rparr>" example_client 0 "''ping''" SUCCESS 1]
  by (simp add: example_client_call HmiAdapterClient_def open_handle_def receive_name_def)

text \<open>An exception silences the adapter for good: when a call made by the listener thread throws,
  the thread ends, the adapter stays marked as connected, and later turns of the listener deliver
  nothing whatever the server holds.\<close>

theorem listener_dies_on_exception:
  assumes "is_connected h" "listener_running h" "\<not> exit_requested h"
    and "content_call ops receive_name (connection_parameters h) c = (None, c1)"
  shows "\<exists>h1. listener_tick ops h c = (h1, c1) \<and> is_connected h1 \<and> signals h1 = signals h \<and>
     (\<forall>c2. listener_tick ops h1 c2 = (h1, c2))"
  using assms by (auto simp: hmi_defs)

theorem listener_dies_on_exception_witness:
  "\<exists>h1. listener_tick (function_client (\<lambda>n ps s. (Thrown, s)))
       ((HmiAdapterClient [])\<lparr>is_connected := True, listener_running := True\<rparr>) 0 = (h1, 0 :: nat) \<and>
     is_connected h1 \<and> signals h1 = []"
proof -
  let ?ops = "function_client (\<lambda>n ps s. (Thrown, s)) :: (nat, response_type) rpc_ops"
  let ?h = "(HmiAdapterClient [])\<lparr>is_connected := True, listener_running := True\<rparr>"
  have "content_call ?ops receive_name (connection_parameters ?h) 0 = (None, 0)"
    by (simp add: content_call_def client_is_connected_def call_response_def RpcConnection_call_def)
  from listener_dies_on_exception [OF _ _ _ this] show ?thesis by (auto simp: HmiAdapterClient_def)
qed

end
