(* ===== verification/Lua_Remote.thy ===== *)
theory Lua_Remote
  imports Lua_Runtime Hmi_Adapter
begin

text \<open>
  The Lua module \<open>remote\<close> (\<open>lua_remote_library.cc\<close> and the two wrappers \<open>remote_client_lua_wrapper.cc\<close> and
  \<open>hmi_adapter_client_lua_wrapper.cc\<close>): userdata for remote clients and for adapters. The objects are those of
  \<open>Remote_Client\<close> and \<open>Hmi_Adapter\<close>: a client is its connection, an adapter has its fields and the address of
  the client it was made with. An exception that leaves a function called by Lua is undefined
  behaviour, and one that leaves the destructor of an adapter ends the process; both are \<open>Ub\<close> here.
\<close>

section \<open>Objects\<close>

record 'c remote_world =
  clients :: "(nat \<times> 'c) list"
  adapters :: "(nat \<times> nat \<times> hmi) list"
  client_files :: os

definition remote_alive :: "pointer \<Rightarrow> 'c remote_world \<Rightarrow> bool" where
  "remote_alive p w \<longleftrightarrow>
     (case p of
        (RemoteClient_class, a) \<Rightarrow> map_of (clients w) a \<noteq> None
      | (HmiAdapterClient_class, a) \<Rightarrow> map_of (adapters w) a \<noteq> None
      | _ \<Rightarrow> False)"

text \<open>What the wrappers use besides: rpclib, the start of threads, and Lua's conversions. \<open>rpc_connect\<close> is the
  constructor of \<open>rpc::client\<close>, which may throw.\<close>

record ('c, 'o) remote_env =
  rpc :: "('c, 'o) rpc_ops"
  rpc_connect :: "string \<Rightarrow> int \<Rightarrow> 'c option"
  threads_start :: "'c remote_world \<Rightarrow> bool"
  text_number :: "string \<Rightarrow> real option"
  number_text :: "real \<Rightarrow> string"

definition remote_runtime :: "('c, 'o) remote_env \<Rightarrow> 'c remote_world runtime" where
  "remote_runtime E = \<lparr>string_number = text_number E, number_string = number_text E, alive = remote_alive,
     unclaimed = (\<lambda>p w. False), child_of = (\<lambda>q p w. False)\<rparr>"

definition fresh_address :: "'c remote_world \<Rightarrow> nat" where
  "fresh_address w = Suc (sum_list (map fst (clients w) @ map fst (adapters w)))"

definition put_client :: "nat \<Rightarrow> 'c \<Rightarrow> 'c remote_world \<Rightarrow> 'c remote_world" where
  "put_client a c w = w\<lparr>clients := AList.update a c (clients w)\<rparr>"

definition put_adapter :: "nat \<Rightarrow> nat \<Rightarrow> hmi \<Rightarrow> 'c remote_world \<Rightarrow> 'c remote_world" where
  "put_adapter a client h w = w\<lparr>adapters := AList.update a (client, h) (adapters w)\<rparr>"

section \<open>Arguments\<close>

text \<open>The value at an index from the top; an index below the stack is not allowed.\<close>

definition from_top :: "nat \<Rightarrow> (lua_value \<Rightarrow> 's cfun) \<Rightarrow> 's cfun" where
  "from_top k f L =
     (if 1 \<le> k \<and> k \<le> length (stack L) then f (stack L ! (length (stack L) - k)) L else Ub)"

text \<open>\<open>lua_tointeger\<close> and \<open>lua_tostring\<close> of a value; the second may be a null pointer.\<close>

definition to_integer :: "'s runtime \<Rightarrow> lua_value \<Rightarrow> (int \<Rightarrow> 's cfun) \<Rightarrow> 's cfun" where
  "to_integer R v k L = (let n = trunc (value_number R v) in if is_long n then k n L else Ub)"

definition to_text :: "'s runtime \<Rightarrow> lua_value \<Rightarrow> string option" where
  "to_text R v =
     (case v of LString s \<Rightarrow> Some (c_str s) | LNumber x \<Rightarrow> Some (c_str (number_string R x)) | _ \<Rightarrow> None)"

definition luaL_checktable :: "nat \<Rightarrow> 's cfun \<Rightarrow> 's cfun" where
  "luaL_checktable i k L = (case arg i L of Some (LTable es) \<Rightarrow> k L | _ \<Rightarrow> Raises (Bad_argument i) L)"

definition table_field :: "string \<Rightarrow> lua_value \<Rightarrow> (lua_value \<Rightarrow> 's cfun) \<Rightarrow> 's cfun" where
  "table_field name v k L =
     (case v of
        LTable es \<Rightarrow> k (case map_of es (LString name) of None \<Rightarrow> LNil | Some x \<Rightarrow> x) L
      | LString s \<Rightarrow> k LNil L
      | LUserdata u \<Rightarrow> k LNil L
      | _ \<Rightarrow> Raises (Message ''attempt to index a value'') L)"

text \<open>The items of a table up to the first missing index, \<open>lua_rawlen\<close> of a table without holes.\<close>

fun array_items :: "(lua_value \<times> lua_value) list \<Rightarrow> nat \<Rightarrow> nat \<Rightarrow> lua_value list" where
  "array_items es i 0 = []"
| "array_items es i (Suc fuel) =
     (case map_of es (LNumber (of_nat i)) of
        None \<Rightarrow> [] | Some v \<Rightarrow> if v = LNil then [] else v # array_items es (Suc i) fuel)"

text \<open>The loop of \<open>get_rpc_parameters\<close>: types and values, as \<open>Remote_Client\<close> takes them.\<close>

fun read_parameters :: "'s runtime \<Rightarrow> lua_value list \<Rightarrow> ((int \<times> string option) list \<Rightarrow> 's cfun) \<Rightarrow> 's cfun" where
  "read_parameters R [] k = k []"
| "read_parameters R (v # vs) k =
     table_field ''type'' v (\<lambda>t. table_field ''value'' v (\<lambda>x.
       to_integer R t (\<lambda>ty.
         if to_text R x = None then (\<lambda>L. Ub)
         else read_parameters R vs (\<lambda>ps. k ((ty, to_text R x) # ps)))))"

definition rpc_arguments :: "'s runtime \<Rightarrow> (string \<Rightarrow> (int \<times> string option) list \<Rightarrow> 's cfun) \<Rightarrow> 's cfun" where
  "rpc_arguments R k =
     from_top 2 (\<lambda>name. case to_text R name of
       None \<Rightarrow> (\<lambda>L. Ub)
     | Some rpc_name \<Rightarrow>
         from_top 1 (\<lambda>table. case table of
           LTable es \<Rightarrow> read_parameters R (array_items es 1 (length es)) (k rpc_name)
         | _ \<Rightarrow> (\<lambda>L. Ub)))"

section \<open>Remote clients\<close>

abbreviation client_mt :: string where "client_mt \<equiv> ''RemoteClient''"
abbreviation adapter_mt :: string where "adapter_mt \<equiv> ''HmiAdapterClient''"

text \<open>The constructor of the connection takes a \<open>uint32_t\<close>, that of rpclib's client a \<open>uint16_t\<close>.\<close>

definition RpcConnectionImpl :: "('c, 'o) remote_env \<Rightarrow> string \<Rightarrow> int \<Rightarrow> 'c option" where
  "RpcConnectionImpl E host port = rpc_connect E host (to_ushort port)"

definition new_client :: "('c, 'o) remote_env \<Rightarrow> string \<Rightarrow> int \<Rightarrow> 'c remote_world \<Rightarrow> nat option \<times> 'c remote_world" where
  "new_client E ip port w =
     (case Option.bind (RpcConnectionImpl E ip (take_bit 32 port)) (RemoteClient (rpc E)) of
        None \<Rightarrow> (None, w)
      | Some c \<Rightarrow> (Some (fresh_address w), w\<lparr>clients := (fresh_address w, c) # clients w\<rparr>))"

definition create_SDLRemoteClient :: "('c, 'o) remote_env \<Rightarrow> 'c remote_world cfun" where
  "create_SDLRemoteClient E =
     luaL_checktable 1 (
     from_top 1 (\<lambda>p. to_integer (remote_runtime E) p (\<lambda>port.
     from_top 2 (\<lambda>i L.
       case to_text (remote_runtime E) i of
         None \<Rightarrow> Ub
       | Some ip \<Rightarrow>
           create_object (new_client E ip port) RemoteClient_class client_mt (\<lambda>_. Returns 1)
             (\<lambda>L. Returns 1 (push LNil L)) (lua_pop 2 L)))))"

definition get_client :: "(nat \<Rightarrow> 'c remote_world cfun) \<Rightarrow> 'c remote_world cfun" where
  "get_client = luaL_checkudata 1 client_mt RemoteClient_class"

definition delete_client :: "nat \<Rightarrow> 'c remote_world \<Rightarrow> unit \<times> 'c remote_world" where
  "delete_client a w = ((), w\<lparr>clients := AList.delete a (clients w)\<rparr>)"

definition destroy_SDLRemoteClient :: "('c, 'o) remote_env \<Rightarrow> 'c remote_world cfun" where
  "destroy_SDLRemoteClient E =
     get_client (\<lambda>a. invoke (remote_runtime E) (RemoteClient_class, a) (delete_client a) (\<lambda>_. Returns 0))"

text \<open>A method of the client at an address.\<close>

definition on_client :: "nat \<Rightarrow> ('c \<Rightarrow> 'c remote_world cfun) \<Rightarrow> 'c remote_world cfun" where
  "on_client a f L = (case map_of (clients (world L)) a of None \<Rightarrow> Ub | Some c \<Rightarrow> f c L)"

definition client_connected_lua :: "('c, 'o) remote_env \<Rightarrow> 'c remote_world cfun" where
  "client_connected_lua E =
     get_client (\<lambda>a. on_client a (\<lambda>c L. Returns 1 (push (LBool (lua_connected (rpc E) c)) L)))"

definition push_response :: "int \<times> string \<Rightarrow> 's cfun" where
  "push_response r L = Returns 2 (push (LString (snd r)) (push (LNumber (of_int (fst r))) L))"

definition client_call_lua :: "('c, 'o) remote_env \<Rightarrow> 'c remote_world cfun" where
  "client_call_lua E =
     get_client (\<lambda>a. rpc_arguments (remote_runtime E) (\<lambda>rpc_name params. on_client a (\<lambda>c L.
       case lua_content_call (rpc E) rpc_name params c of
         None \<Rightarrow> Ub
       | Some (None, c1) \<Rightarrow> Ub
       | Some (Some r, c1) \<Rightarrow> push_response r (L\<lparr>world := put_client a c1 (world L)\<rparr>))))"

definition client_file_call_lua :: "('c, 'o) remote_env \<Rightarrow> 'c remote_world cfun" where
  "client_file_call_lua E =
     get_client (\<lambda>a. rpc_arguments (remote_runtime E) (\<lambda>rpc_name params. on_client a (\<lambda>c L.
       if get_rpc_parameters params = None then Ub
       else
         case lua_file_call (rpc E) rpc_name params c (client_files (world L)) of
           None \<Rightarrow> Diverges
         | Some (None, c1, os1) \<Rightarrow> Ub
         | Some (Some r, c1, os1) \<Rightarrow>
             push_response r (L\<lparr>world := (put_client a c1 (world L))\<lparr>client_files := os1\<rparr>\<rparr>))))"

definition registerSDLRemoteClient :: "('c, 'o) remote_env \<Rightarrow> (string \<times> 'c remote_world cfun) list \<times> 'c remote_world cfun option" where
  "registerSDLRemoteClient E =
     ([(''connected'', client_connected_lua E), (''call'', client_call_lua E), (''file_call'', client_file_call_lua E)],
      Some (destroy_SDLRemoteClient E))"

section \<open>Adapters\<close>

definition new_adapter :: "nat \<Rightarrow> parameter_type list \<Rightarrow> 'c remote_world \<Rightarrow> nat \<times> 'c remote_world" where
  "new_adapter client params w =
     (fresh_address w, w\<lparr>adapters := (fresh_address w, client, HmiAdapterClient params) # adapters w\<rparr>)"

definition create_SDLRemoteTestAdapter :: "('c, 'o) remote_env \<Rightarrow> 'c remote_world cfun" where
  "create_SDLRemoteTestAdapter E =
     luaL_checktable 1 (
     from_top 1 (\<lambda>params.
     table_field ''host'' params (\<lambda>h. table_field ''port'' params (\<lambda>p.
     to_integer (remote_runtime E) p (\<lambda>port L.
       case build_TCPParams (to_text (remote_runtime E) h) port of
         None \<Rightarrow> Ub
       | Some tcp_params \<Rightarrow>
           luaL_checkudata 2 client_mt RemoteClient_class (\<lambda>client L.
             create_object (always (new_adapter client tcp_params)) HmiAdapterClient_class adapter_mt (\<lambda>_. Returns 1)
               (\<lambda>L. Ub) (lua_pop 1 L)) (lua_pop 1 L))))))"

definition get_adapter :: "(nat \<Rightarrow> 'c remote_world cfun) \<Rightarrow> 'c remote_world cfun" where
  "get_adapter = luaL_checkudata 1 adapter_mt HmiAdapterClient_class"

definition on_adapter :: "nat \<Rightarrow> (nat \<Rightarrow> hmi \<Rightarrow> 'c remote_world cfun) \<Rightarrow> 'c remote_world cfun" where
  "on_adapter a f L = (case map_of (adapters (world L)) a of None \<Rightarrow> Ub | Some (client, h) \<Rightarrow> f client h L)"

text \<open>The destructor uses the client only while the adapter is connected.\<close>

definition delete_adapter :: "nat \<Rightarrow> 'c remote_world \<Rightarrow> unit \<times> 'c remote_world" where
  "delete_adapter a w = ((), w\<lparr>adapters := AList.delete a (adapters w)\<rparr>)"

definition destroy_SDLRemoteTestAdapter :: "('c, 'o) remote_env \<Rightarrow> 'c remote_world cfun" where
  "destroy_SDLRemoteTestAdapter E =
     get_adapter (\<lambda>a. on_adapter a (\<lambda>client h.
       if is_connected h then
         on_client client (\<lambda>c L.
           case destroy (rpc E) h c of
             (None, _) \<Rightarrow> Ub
           | (Some _, h1, c1) \<Rightarrow> Returns 0 (L\<lparr>world := snd (delete_adapter a (put_client client c1 (world L)))\<rparr>))
       else (\<lambda>L. Returns 0 (L\<lparr>world := snd (delete_adapter a (world L))\<rparr>))))"

definition adapter_connect_lua :: "('c, 'o) remote_env \<Rightarrow> 'c remote_world cfun" where
  "adapter_connect_lua E =
     get_adapter (\<lambda>a. on_adapter a (\<lambda>client h. on_client client (\<lambda>c L.
       case lua_connect (rpc E) (threads_start E (world L)) h c of
         (None, _) \<Rightarrow> Ub
       | (Some _, h1, c1) \<Rightarrow> Returns 0 (L\<lparr>world := put_adapter a client h1 (put_client client c1 (world L))\<rparr>))))"

text \<open>An adapter that is not connected answers without its client.\<close>

definition adapter_write_lua :: "('c, 'o) remote_env \<Rightarrow> 'c remote_world cfun" where
  "adapter_write_lua E =
     get_adapter (\<lambda>a. from_top 1 (\<lambda>d.
       case to_text (remote_runtime E) d of
         None \<Rightarrow> (\<lambda>L. Ub)
       | Some data \<Rightarrow>
           on_adapter a (\<lambda>client h.
             if is_connected h then
               on_client client (\<lambda>c L.
                 case lua_write (rpc E) data h c of
                   (None, _) \<Rightarrow> Ub
                 | (Some result, h1, c1) \<Rightarrow>
                     Returns 1 (push (LNumber (of_int result))
                       (L\<lparr>world := put_adapter a client h1 (put_client client c1 (world L))\<rparr>)))
             else (\<lambda>L. Returns 1 (push (LNumber (of_int NO_CONNECTION)) L)))))"

definition registerSDLRemoteTestAdapter ::
  "('c, 'o) remote_env \<Rightarrow> (string \<times> 'c remote_world cfun) list \<times> 'c remote_world cfun option" where
  "registerSDLRemoteTestAdapter E =
     ([(''connect'', adapter_connect_lua E), (''write'', adapter_write_lua E)], Some (destroy_SDLRemoteTestAdapter E))"

definition luaopen_remote :: "('c, 'o) remote_env \<Rightarrow> 'c remote_world lua_library" where
  "luaopen_remote E = \<lparr>
     module_functions = [(''RemoteClient'', create_SDLRemoteClient E), (''RemoteTestAdapter'', create_SDLRemoteTestAdapter E)],
     metatables = [(client_mt, registerSDLRemoteClient E), (adapter_mt, registerSDLRemoteTestAdapter E)]\<rparr>"

lemmas get_instance_defs = get_client_def get_adapter_def

lemmas destroy_SDLRemoteClient_eq = destroy_SDLRemoteClient_def [unfolded get_instance_defs]
lemmas client_connected_lua_eq = client_connected_lua_def [unfolded get_instance_defs]
lemmas client_call_lua_eq = client_call_lua_def [unfolded get_instance_defs]
lemmas client_file_call_lua_eq = client_file_call_lua_def [unfolded get_instance_defs]
lemmas destroy_SDLRemoteTestAdapter_eq = destroy_SDLRemoteTestAdapter_def [unfolded get_instance_defs]
lemmas adapter_connect_lua_eq = adapter_connect_lua_def [unfolded get_instance_defs]
lemmas adapter_write_lua_eq = adapter_write_lua_def [unfolded get_instance_defs]

section \<open>Invariant\<close>

text \<open>Userdata own their objects, and every adapter's client exists.\<close>

abbreviation remote_table :: "(string \<times> cpp_class) list" where
  "remote_table \<equiv> [(client_mt, RemoteClient_class), (adapter_mt, HmiAdapterClient_class)]"

abbreviation remote_classes :: "cpp_class list" where
  "remote_classes \<equiv> [RemoteClient_class, HmiAdapterClient_class]"

definition linked :: "'c remote_world \<Rightarrow> bool" where
  "linked w \<longleftrightarrow> (\<forall>(a, client, h) \<in> set (adapters w). map_of (clients w) client \<noteq> None)"

text \<open>Every object has a userdata with its metatable, and an adapter's is younger than its client's.\<close>

definition accounted :: "'c remote_world lua \<Rightarrow> bool" where
  "accounted L \<longleftrightarrow>
     (\<forall>u m a. userdata L u = Some (m, RemoteClient_class, a) \<longrightarrow> m = Some client_mt) \<and>
     (\<forall>u m a. userdata L u = Some (m, HmiAdapterClient_class, a) \<longrightarrow> m = Some adapter_mt) \<and>
     (\<forall>a. map_of (clients (world L)) a \<noteq> None \<longrightarrow> (\<exists>u m. userdata L u = Some (m, RemoteClient_class, a))) \<and>
     (\<forall>a client h. (a, client, h) \<in> set (adapters (world L)) \<longrightarrow>
        (\<exists>v m u n. userdata L v = Some (m, HmiAdapterClient_class, a) \<and> u < v \<and>
           userdata L u = Some (n, RemoteClient_class, client)))"

definition remote_inv :: "('c, 'o) remote_env \<Rightarrow> 'c remote_world lua \<Rightarrow> bool" where
  "remote_inv E L \<longleftrightarrow>
     sound_userdata (remote_runtime E) remote_table remote_classes L \<and> linked (world L) \<and> accounted L"

text \<open>Calls change the state of objects but neither which there are nor their links.\<close>

definition same_objects :: "'c remote_world \<Rightarrow> 'c remote_world \<Rightarrow> bool" where
  "same_objects w w' \<longleftrightarrow> map fst (clients w') = map fst (clients w) \<and>
     map (\<lambda>(a, client, h). (a, client)) (adapters w') = map (\<lambda>(a, client, h). (a, client)) (adapters w)"

lemma remote_held: "held (remote_runtime E) p w \<longleftrightarrow> remote_alive p w"
  by (simp add: held_def remote_runtime_def)

lemma remote_kept: "kept (remote_runtime E) p w w' \<longleftrightarrow> remote_alive p w'"
  by (simp add: kept_def remote_held) (simp add: remote_runtime_def)

lemma remote_no_children: "\<not> child_of (remote_runtime E) q p w"
  by (simp add: remote_runtime_def)

lemma map_of_same_keys: "map fst xs = map fst ys \<Longrightarrow> map_of xs a = None \<longleftrightarrow> map_of ys a = None"
  by (metis map_of_eq_None_iff set_map)

lemma same_objectsD:
  assumes "same_objects w w'"
  shows "map_of (clients w') a = None \<longleftrightarrow> map_of (clients w) a = None"
    "map_of (adapters w') a = None \<longleftrightarrow> map_of (adapters w) a = None"
    "(\<lambda>(a, client, h). (a, client)) ` set (adapters w') = (\<lambda>(a, client, h). (a, client)) ` set (adapters w)"
proof -
  have "map fst (map (\<lambda>(a, client, h). (a, client)) xs) = map fst xs" for xs :: "(nat \<times> nat \<times> hmi) list"
    by (simp add: case_prod_beta comp_def)
  then have "map fst (adapters w') = map fst (adapters w)" using assms unfolding same_objects_def by metis
  then show "map_of (adapters w') a = None \<longleftrightarrow> map_of (adapters w) a = None" by (rule map_of_same_keys)
  show "map_of (clients w') a = None \<longleftrightarrow> map_of (clients w) a = None"
    using assms by (intro map_of_same_keys) (simp add: same_objects_def)
  show "(\<lambda>(a, client, h). (a, client)) ` set (adapters w') = (\<lambda>(a, client, h). (a, client)) ` set (adapters w)"
    using assms unfolding same_objects_def by (metis set_map)
qed

lemma linked_image: "linked w \<longleftrightarrow> (\<forall>(a, client) \<in> (\<lambda>(a, client, h). (a, client)) ` set (adapters w). map_of (clients w) client \<noteq> None)"
  unfolding linked_def by force

lemma same_objects_linked: "same_objects w w' \<Longrightarrow> linked w \<Longrightarrow> linked w'"
  using same_objectsD [of w w'] unfolding linked_image by simp

lemma same_objects_alive: "same_objects w w' \<Longrightarrow> remote_alive p w' = remote_alive p w"
  using same_objectsD [of w w'] by (auto simp: remote_alive_def split: prod.splits cpp_class.splits)

lemma same_objects_link:
  assumes "same_objects w w'" "(a, client, h') \<in> set (adapters w')"
  shows "\<exists>h. (a, client, h) \<in> set (adapters w)"
proof -
  have "(a, client) \<in> (\<lambda>(a, client, h). (a, client)) ` set (adapters w')" using assms(2) by force
  then show ?thesis unfolding same_objectsD(3) [OF assms(1)] by auto
qed

lemma accounted_world:
  assumes "accounted L" "same_objects (world L) w"
  shows "accounted (L\<lparr>world := w\<rparr>)"
  using assms(1) same_objectsD(1) [OF assms(2)] same_objects_link [OF assms(2)]
  unfolding accounted_def by simp

lemma remote_inv_world:
  assumes "remote_inv E L" "same_objects (world L) w"
  shows "remote_inv E (L\<lparr>world := w\<rparr>)"
proof -
  have "owned (remote_runtime E) remote_classes (L\<lparr>world := w\<rparr>)"
    using assms same_objects_alive [OF assms(2)]
    by (intro owned_world) (auto simp: remote_inv_def sound_userdata_def remote_held remote_kept)
  then show ?thesis
    using assms same_objects_linked [OF assms(2)] accounted_world [OF _ assms(2)]
    by (simp add: remote_inv_def sound_userdata_def)
qed

lemma stackless_remote: "stackless (remote_inv E)"
  by (simp add: stackless_def remote_inv_def accounted_def)

lemmas remote_stack [simp] = stackless_remote [unfolded stackless_def, rule_format]
  stackless_push [OF stackless_remote] stackless_pop [OF stackless_remote]

text \<open>What a call leaves behind differs from what it found in the state of existing objects only.\<close>

lemma same_objects_refl [simp]: "same_objects w w"
  by (simp add: same_objects_def)

lemma same_objects_trans: "same_objects w1 w2 \<Longrightarrow> same_objects w2 w3 \<Longrightarrow> same_objects w1 w3"
  by (simp add: same_objects_def)

lemma same_objects_files [simp]: "same_objects w (w'\<lparr>client_files := os1\<rparr>) = same_objects w w'"
  by (simp add: same_objects_def)

lemma put_client_same: "map_of (clients w) a = Some c \<Longrightarrow> same_objects w (put_client a c1 w)"
  by (auto simp: same_objects_def put_client_def update_keys dest!: map_of_SomeD intro: rev_image_eqI)

lemma update_links:
  "map_of xs a = Some (client, h) \<Longrightarrow>
   map (\<lambda>(a, client, h). (a, client)) (AList.update a (client, h1) xs) = map (\<lambda>(a, client, h). (a, client)) xs"
  by (induction xs) (auto split: if_splits)

lemma put_adapter_same: "map_of (adapters w) a = Some (client, h) \<Longrightarrow> same_objects w (put_adapter a client h1 w)"
  by (simp add: same_objects_def put_adapter_def update_links)

lemma put_both_same:
  "map_of (clients w) client = Some c \<Longrightarrow> map_of (adapters w) a = Some (client, h) \<Longrightarrow>
   same_objects w (put_adapter a client h1 (put_client client c1 w))"
  by (rule same_objects_trans [OF put_client_same put_adapter_same]) (auto simp: put_client_def)

section \<open>Every function keeps the invariant\<close>

lemma post_from_top [post_rules]: "(\<And>v. post P (f v L)) \<Longrightarrow> post P (from_top k f L)"
  by (simp add: from_top_def)

lemma post_to_integer [post_rules]: "(\<And>n. post P (k n L)) \<Longrightarrow> post P (to_integer R v k L)"
  by (simp add: to_integer_def Let_def)

lemma post_checktable [post_rules]: "P L \<Longrightarrow> post P (k L) \<Longrightarrow> post P (luaL_checktable i k L)"
  by (simp add: luaL_checktable_def split: option.splits lua_value.splits)

lemma post_table_field [post_rules]: "P L \<Longrightarrow> (\<And>x. post P (k x L)) \<Longrightarrow> post P (table_field name v k L)"
  by (simp add: table_field_def split: lua_value.splits)

lemma post_on_client [post_rules]:
  "(\<And>c. map_of (clients (world L)) a = Some c \<Longrightarrow> post P (f c L)) \<Longrightarrow> post P (on_client a f L)"
  by (simp add: on_client_def split: option.splits)

lemma post_on_adapter [post_rules]:
  "(\<And>client h. map_of (adapters (world L)) a = Some (client, h) \<Longrightarrow> post P (f client h L)) \<Longrightarrow> post P (on_adapter a f L)"
  by (simp add: on_adapter_def split: option.splits)

lemma post_read_parameters: "P L \<Longrightarrow> (\<And>ps. post P (k ps L)) \<Longrightarrow> post P (read_parameters R vs k L)"
proof (induction vs arbitrary: k)
  case (Cons v vs)
  then show ?case by (auto intro!: post_rules Cons.IH)
qed simp

lemma post_rpc_arguments [post_rules]: "P L \<Longrightarrow> (\<And>name ps. post P (k name ps L)) \<Longrightarrow> post P (rpc_arguments R k L)"
  unfolding rpc_arguments_def
  by (auto intro!: post_from_top post_read_parameters split: option.splits lua_value.splits)

lemma remote_inv_push_response: "remote_inv E L \<Longrightarrow> post (remote_inv E) (push_response r L)"
  by (simp add: push_response_def)

lemma client_methods_sound:
  assumes "remote_inv E L"
  shows "post (remote_inv E) (client_connected_lua E L)" "post (remote_inv E) (client_call_lua E L)"
    "post (remote_inv E) (client_file_call_lua E L)"
  unfolding client_connected_lua_eq client_call_lua_eq client_file_call_lua_eq using assms
  by (auto intro!: post_rules remote_inv_push_response remote_inv_world put_client_same split: option.splits prod.splits)

lemma adapter_methods_sound:
  assumes "remote_inv E L"
  shows "post (remote_inv E) (adapter_connect_lua E L)" "post (remote_inv E) (adapter_write_lua E L)"
  unfolding adapter_connect_lua_eq adapter_write_lua_eq using assms
  by (auto intro!: post_rules remote_inv_world split: option.splits prod.splits) (metis put_both_same)+

lemma post_both: "post (\<lambda>L. A L \<and> B L) r \<longleftrightarrow> post A r \<and> post B r"
  by (cases r) auto

lemma post_remote_inv:
  "post (remote_inv E) r \<longleftrightarrow>
     post (sound_userdata (remote_runtime E) remote_table remote_classes) r \<and> post (\<lambda>L. linked (world L)) r \<and>
     post accounted r"
  unfolding remote_inv_def by (simp only: post_both)

lemma fresh_address: "fresh_address w \<notin> fst ` set (clients w)" "fresh_address w \<notin> fst ` set (adapters w)"
proof -
  have "x \<noteq> fresh_address w" if "x \<in> set (map fst (clients w) @ map fst (adapters w))" for x
    using member_le_sum_list [OF that] unfolding fresh_address_def by linarith
  then show "fresh_address w \<notin> fst ` set (clients w)" "fresh_address w \<notin> fst ` set (adapters w)"
    by (force simp: image_iff)+
qed

lemma fresh_not_alive [simp]: "map_of (clients w) (fresh_address w) = None" "map_of (adapters w) (fresh_address w) = None"
  using fresh_address [of w] by (simp_all add: map_of_eq_None_iff)

lemma new_client_makes: "makes_object_or_fails (remote_runtime E) RemoteClient_class (new_client E ip port)"
  by (auto simp: makes_object_or_fails_def keeps_objects_def remote_held remote_kept remote_no_children remote_alive_def new_client_def
      split: option.splits prod.splits cpp_class.splits)

lemma new_adapter_makes: "makes_object (remote_runtime E) HmiAdapterClient_class (new_adapter client params)"
  by (auto simp: makes_object_def keeps_objects_def remote_held remote_kept remote_no_children remote_alive_def new_adapter_def
      split: option.splits prod.splits cpp_class.splits)

lemma push_object_world [simp]: "world (push_object name p L) = world L"
  by (simp add: push_object_eq)

text \<open>New objects are accounted for.\<close>

lemma owned_below: "owned R cs L \<Longrightarrow> userdata L u = Some x \<Longrightarrow> u < next_userdata L"
  unfolding owned_def by (metis not_le option.distinct(1))

lemma accounted_kept:
  assumes "accounted L" "owned R cs L"
  shows "\<forall>a. map_of (clients (world L)) a \<noteq> None \<longrightarrow>
      (\<exists>u m. u < next_userdata L \<and> userdata L u = Some (m, RemoteClient_class, a))"
    "\<forall>a client h. (a, client, h) \<in> set (adapters (world L)) \<longrightarrow>
      (\<exists>v m u n. v < next_userdata L \<and> userdata L v = Some (m, HmiAdapterClient_class, a) \<and> u < v \<and>
         userdata L u = Some (n, RemoteClient_class, client))"
  using assms(1) owned_below [OF assms(2)] unfolding accounted_def by metis+

lemma stackless_accounted: "stackless accounted"
  by (simp add: stackless_def accounted_def)

lemmas accounted_stack [simp] = stackless_accounted [unfolded stackless_def, rule_format]
  stackless_push [OF stackless_accounted] stackless_pop [OF stackless_accounted]

lemma accountedI:
  assumes "\<And>u m a. userdata L u = Some (m, RemoteClient_class, a) \<Longrightarrow> m = Some client_mt"
    and "\<And>u m a. userdata L u = Some (m, HmiAdapterClient_class, a) \<Longrightarrow> m = Some adapter_mt"
    and "\<And>a c. map_of (clients (world L)) a = Some c \<Longrightarrow> \<exists>u m. userdata L u = Some (m, RemoteClient_class, a)"
    and "\<And>a client h. (a, client, h) \<in> set (adapters (world L)) \<Longrightarrow>
      \<exists>v m u n. userdata L v = Some (m, HmiAdapterClient_class, a) \<and> u < v \<and> userdata L u = Some (n, RemoteClient_class, client)"
  shows "accounted L"
  using assms unfolding accounted_def by blast

lemma accountedD:
  assumes "accounted L"
  shows "userdata L u = Some (m, RemoteClient_class, a) \<Longrightarrow> m = Some client_mt"
    "userdata L u = Some (m, HmiAdapterClient_class, a) \<Longrightarrow> m = Some adapter_mt"
    "map_of (clients (world L)) a = Some c \<Longrightarrow> \<exists>u m. userdata L u = Some (m, RemoteClient_class, a)"
    "(a, client, h) \<in> set (adapters (world L)) \<Longrightarrow>
      \<exists>v m u n. userdata L v = Some (m, HmiAdapterClient_class, a) \<and> u < v \<and> userdata L u = Some (n, RemoteClient_class, client)"
  using assms unfolding accounted_def by blast+

lemma accounted_new_client:
  assumes "accounted L" "owned R cs L"
  shows "accounted (push_object client_mt (RemoteClient_class, a)
     (L\<lparr>world := (world L)\<lparr>clients := (a, c) # clients (world L)\<rparr>\<rparr>))"
proof (rule accountedI, unfold push_object_eq, goal_cases)
  case (3 a' c')
  then show ?case using accounted_kept(1) [OF assms] by (auto split: if_splits) (metis less_irrefl not_None_eq)
next
  case (4 a' client h)
  then obtain v m u n where "v < next_userdata L" "userdata L v = Some (m, HmiAdapterClient_class, a')" "u < v"
      "userdata L u = Some (n, RemoteClient_class, client)"
    using accounted_kept(2) [OF assms] by fastforce
  then show ?case by (intro exI [of _ v] exI [of _ m] exI [of _ u] exI [of _ n]) auto
qed (use accountedD(1,2) [OF assms(1)] in \<open>auto split: if_splits\<close>)

lemma accounted_new_adapter:
  assumes "accounted L" "owned R cs L" "map_of (clients (world L)) client \<noteq> None"
  shows "accounted (push_object adapter_mt (HmiAdapterClient_class, a)
     (L\<lparr>world := (world L)\<lparr>adapters := (a, client, h) # adapters (world L)\<rparr>\<rparr>))"
proof (rule accountedI, unfold push_object_eq, goal_cases)
  case (3 a' c')
  then show ?case using accounted_kept(1) [OF assms(1,2)] by (auto split: if_splits) (metis less_irrefl not_None_eq)
next
  case (4 a' client' h')
  then consider "a' = a" "client' = client" | "(a', client', h') \<in> set (adapters (world L))" by auto
  then show ?case
  proof cases
    case 1
    obtain u m where "u < next_userdata L" "userdata L u = Some (m, RemoteClient_class, client)"
      using accounted_kept(1) [OF assms(1,2)] assms(3) by blast
    with 1 show ?thesis
      by (intro exI [of _ "next_userdata L"] exI [of _ "Some adapter_mt"] exI [of _ u] exI [of _ m]) auto
  next
    case 2
    then obtain v m u n where "v < next_userdata L" "userdata L v = Some (m, HmiAdapterClient_class, a')" "u < v"
        "userdata L u = Some (n, RemoteClient_class, client')"
      using accounted_kept(2) [OF assms(1,2)] by fastforce
    then show ?thesis by (intro exI [of _ v] exI [of _ m] exI [of _ u] exI [of _ n]) auto
  qed
qed (use accountedD(1,2) [OF assms(1)] in \<open>auto split: if_splits\<close>)

lemma create_client_sound:
  assumes "remote_inv E L"
  shows "post (remote_inv E) (create_SDLRemoteClient E L)"
proof -
  have "post (remote_inv E) (create_object (new_client E ip port) RemoteClient_class client_mt (\<lambda>_. Returns 1)
      (\<lambda>L. Returns 1 (push LNil L)) L)" if "remote_inv E L" for ip port L
  proof -
    have "linked (snd (new_client E ip port (world L)))"
      using that by (auto simp: remote_inv_def linked_def new_client_def split: option.splits)
    then have "post (\<lambda>L. linked (world L)) (create_object (new_client E ip port) RemoteClient_class client_mt
        (\<lambda>_. Returns 1) (\<lambda>L. Returns 1 (push LNil L)) L)"
      by (auto simp: create_object_def push_def split: prod.splits option.splits)
    moreover have "post accounted (create_object (new_client E ip port) RemoteClient_class client_mt
        (\<lambda>_. Returns 1) (\<lambda>L. Returns 1 (push LNil L)) L)"
      using that by (auto simp: create_object_def new_client_def remote_inv_def sound_userdata_def
          intro: accounted_new_client split: option.splits)
    ultimately show ?thesis
      using that unfolding post_remote_inv by (auto simp: remote_inv_def intro!: sound_create_object new_client_makes)
  qed
  with assms show ?thesis
    unfolding create_SDLRemoteClient_def by (auto intro!: post_rules split: option.splits)
qed

text \<open>An adapter is made with a client that a userdata holds, so its client exists.\<close>

lemma checked_client_alive:
  assumes "remote_inv E L" "\<And>c a. map_of (clients (world L)) a = Some c \<Longrightarrow> post P (k a L)" "P L"
  shows "post P (luaL_checkudata i client_mt RemoteClient_class k L)"
proof -
  have "\<exists>c. map_of (clients (world L)) a = Some c" if "userdata L u = Some (m, RemoteClient_class, a)" for u m a
    using assms(1) owned_held [OF _ that, of "remote_runtime E" remote_classes]
    by (auto simp: remote_inv_def sound_userdata_def remote_held remote_kept remote_no_children remote_alive_def)
  with assms(2,3) show ?thesis
    by (fastforce simp: luaL_checkudata_def split: option.splits lua_value.splits)
qed

lemma create_adapter_sound:
  assumes "remote_inv E L"
  shows "post (remote_inv E) (create_SDLRemoteTestAdapter E L)"
proof -
  have "post (remote_inv E) (create_object (always (new_adapter client ps)) HmiAdapterClient_class adapter_mt
      (\<lambda>_. Returns 1) (\<lambda>L. Ub) L)" if "remote_inv E L" "map_of (clients (world L)) client = Some c" for client ps c L
  proof -
    have "linked (snd (new_adapter client ps (world L)))"
      using that by (auto simp: remote_inv_def linked_def new_adapter_def)
    then have "post (\<lambda>L. linked (world L)) (create_object (always (new_adapter client ps)) HmiAdapterClient_class adapter_mt
        (\<lambda>_. Returns 1) (\<lambda>L. Ub) L)"
      by (auto simp: create_object_def split: prod.splits option.splits)
    moreover have "post accounted (create_object (always (new_adapter client ps)) HmiAdapterClient_class adapter_mt
        (\<lambda>_. Returns 1) (\<lambda>L. Ub) L)"
      using that by (auto simp: create_object_def new_adapter_def remote_inv_def sound_userdata_def intro: accounted_new_adapter)
    ultimately show ?thesis
      using that unfolding post_remote_inv
      by (auto simp: remote_inv_def intro!: sound_create_object makes_always new_adapter_makes)
  qed
  moreover have "clients (world (lua_pop n L)) = clients (world L)" for n and L :: "'a remote_world lua"
    by (simp add: lua_pop_def)
  ultimately show ?thesis using assms
    unfolding create_SDLRemoteTestAdapter_def
    by (auto intro!: post_checktable post_from_top post_table_field post_to_integer checked_client_alive [where E = E]
        split: option.splits)
qed

text \<open>The finalizers. A client may go when no adapter uses it.\<close>

definition client_unused :: "'c remote_world lua \<Rightarrow> nat \<Rightarrow> bool" where
  "client_unused L u \<longleftrightarrow>
     (case userdata L u of
        Some (m, RemoteClient_class, a) \<Rightarrow> a \<notin> set (map (fst \<circ> snd) (adapters (world L)))
      | _ \<Rightarrow> True)"

lemma checkudata_hit:
  "stack L = [LUserdata u] \<Longrightarrow> userdata L u = Some (Some n, c, a) \<Longrightarrow> luaL_checkudata 1 n c k L = k a L"
  by (simp add: luaL_checkudata_def arg_def)

lemma map_of_delete: "map_of (AList.delete a xs) b = (if b = a then None else map_of xs b)"
  by (simp add: delete_conv')

text \<open>What is left after a deletion is accounted for.\<close>

lemma accounted_delete_client:
  assumes "accounted L" "owned R remote_classes L" "userdata L u = Some (m, RemoteClient_class, a)"
    and "a \<notin> set (map (fst \<circ> snd) (adapters (world L)))"
  shows "accounted (without u (L\<lparr>world := snd (delete_client a (world L))\<rparr>))"
proof (rule accountedI, goal_cases)
  case (3 a' c')
  then obtain u' m' where "a' \<noteq> a" "userdata L u' = Some (m', RemoteClient_class, a')"
    using accountedD(3) [OF assms(1), of a'] by (auto simp: delete_client_def map_of_delete split: if_splits)
  with assms(3) show ?case by (intro exI [of _ u'] exI [of _ m']) auto
next
  case (4 a' client h)
  then have h: "(a', client, h) \<in> set (adapters (world L))" by (simp add: delete_client_def)
  then obtain v m u' n where v: "userdata L v = Some (m, HmiAdapterClient_class, a')" "u' < v"
      "userdata L u' = Some (n, RemoteClient_class, client)"
    using accountedD(4) [OF assms(1)] by blast
  have "client \<noteq> a" using assms(4) h by force
  with v assms(3) show ?case by (intro exI [of _ v] exI [of _ m] exI [of _ u'] exI [of _ n]) auto
qed (use accountedD(1,2) [OF assms(1)] in \<open>auto split: if_splits\<close>)

lemma accounted_delete_adapter:
  assumes "accounted L" "userdata L u = Some (m, HmiAdapterClient_class, a)"
  shows "accounted (without u (L\<lparr>world := snd (delete_adapter a (world L))\<rparr>))"
proof (rule accountedI, goal_cases)
  case (3 a' c')
  then obtain u' m' where "userdata L u' = Some (m', RemoteClient_class, a')"
    using accountedD(3) [OF assms(1), of a'] by (auto simp: delete_adapter_def)
  with assms(2) show ?case by (intro exI [of _ u'] exI [of _ m']) auto
next
  case (4 a' client h)
  then have "a' \<noteq> a" "(a', client, h) \<in> set (adapters (world L))" by (auto simp: delete_adapter_def AList.delete_eq)
  moreover from this(2) obtain v m u' n where "userdata L v = Some (m, HmiAdapterClient_class, a')" "u' < v"
      "userdata L u' = Some (n, RemoteClient_class, client)"
    using accountedD(4) [OF assms(1)] by blast
  ultimately show ?case using assms(2) by (intro exI [of _ v] exI [of _ m] exI [of _ u'] exI [of _ n]) auto
qed (use accountedD(1,2) [OF assms(1)] in \<open>auto split: if_splits\<close>)

lemma destroy_client_sound:
  assumes "remote_inv E L" "stack L = [LUserdata u]" "userdata L u = Some (Some client_mt, p)" "client_unused L u"
  shows "post (\<lambda>L'. remote_inv E (without u L')) (destroy_SDLRemoteClient E L)"
proof -
  have "deletes_object (remote_runtime E) (RemoteClient_class, a) (delete_client a)" for a
    by (auto simp: deletes_object_def remote_held remote_kept remote_no_children remote_alive_def delete_client_def map_of_delete
        split: prod.splits cpp_class.splits)
  then have "post (\<lambda>L'. sound_userdata (remote_runtime E) remote_table remote_classes (without u L')) (destroy_SDLRemoteClient E L)"
    unfolding destroy_SDLRemoteClient_eq using assms
    by (intro sound_deletes [where p = p]) (auto simp: remote_inv_def)
  moreover have "linked (snd (delete_client a (world L)))" if "p = (RemoteClient_class, a)" for a
    using assms(1,3,4) that by (force simp: remote_inv_def linked_def delete_client_def map_of_delete client_unused_def)
  then have "post (\<lambda>L'. linked (world (without u L'))) (destroy_SDLRemoteClient E L)"
    using assms(2,3)
    by (cases p) (auto simp: destroy_SDLRemoteClient_eq luaL_checkudata_def arg_def invoke_def on_object_def perform_def
        split: prod.splits)
  moreover have "accounted (without u (L\<lparr>world := snd (delete_client a (world L))\<rparr>))" if "p = (RemoteClient_class, a)" for a
    using assms(1,3,4) that
    by (intro accounted_delete_client) (auto simp: remote_inv_def sound_userdata_def client_unused_def)
  then have "post (\<lambda>L'. accounted (without u L')) (destroy_SDLRemoteClient E L)"
    using assms(2,3)
    by (cases p) (auto simp: destroy_SDLRemoteClient_eq luaL_checkudata_def arg_def invoke_def on_object_def perform_def
        split: prod.splits)
  ultimately show ?thesis unfolding remote_inv_def by (simp add: post_both)
qed

lemma delete_adapter_inv:
  assumes "remote_inv E L" "userdata L u = Some (m, HmiAdapterClient_class, a)" "same_objects (world L) w"
  shows "remote_inv E (without u (L\<lparr>world := snd (delete_adapter a w)\<rparr>))"
proof -
  let ?p = "(HmiAdapterClient_class, a)" and ?w = "snd (delete_adapter a w)"
  have "kept (remote_runtime E) q (world L) ?w" if "held (remote_runtime E) q (world L)" "q \<noteq> ?p" for q
    using that same_objects_alive [OF assms(3), of q]
    by (auto simp: remote_held remote_kept remote_no_children remote_alive_def delete_adapter_def map_of_delete split: prod.splits cpp_class.splits)
  then have "owned (remote_runtime E) remote_classes (without u (L\<lparr>world := ?w\<rparr>))"
    using assms(1,2) by (intro owned_deleted [where p = ?p]) (auto simp: remote_inv_def sound_userdata_def)
  moreover have "typed_userdata remote_table (without u (L\<lparr>world := ?w\<rparr>))"
    using assms(1) typed_without [of remote_table "L\<lparr>world := ?w\<rparr>" u] by (simp add: remote_inv_def sound_userdata_def)
  moreover have "set (AList.delete a xs) \<subseteq> set xs" for xs :: "(nat \<times> nat \<times> hmi) list"
    by (auto simp: AList.delete_eq)
  then have "linked ?w"
    using same_objects_linked [OF assms(3)] assms(1) by (fastforce simp: remote_inv_def linked_def delete_adapter_def)
  moreover have "accounted (without u ((L\<lparr>world := w\<rparr>)\<lparr>world := ?w\<rparr>))"
    using accounted_delete_adapter [of "L\<lparr>world := w\<rparr>" u m a] accounted_world [OF _ assms(3)] assms(1,2)
    by (simp add: remote_inv_def)
  ultimately show ?thesis by (simp add: remote_inv_def sound_userdata_def)
qed

lemma destroy_adapter_sound:
  assumes "remote_inv E L" "stack L = [LUserdata u]" "userdata L u = Some (Some adapter_mt, p)"
  shows "post (\<lambda>L'. remote_inv E (without u L')) (destroy_SDLRemoteTestAdapter E L)"
proof -
  have p: "userdata L u = Some (Some adapter_mt, HmiAdapterClient_class, snd p)"
    using assms(1,3) unfolding remote_inv_def sound_userdata_def typed_userdata_def by (cases p) fastforce
  show ?thesis
    unfolding destroy_SDLRemoteTestAdapter_eq checkudata_hit [OF assms(2) p]
    by (auto intro!: post_on_adapter post_on_client delete_adapter_inv [OF assms(1) p, simplified]
        split: prod.splits option.splits) (blast intro: put_client_same)
qed

section \<open>Scripts\<close>

text \<open>Between the calls of a script the listener threads run, and the connections change as the servers do.\<close>

inductive remote_background :: "('c, 'o) remote_env \<Rightarrow> 'c remote_world \<Rightarrow> 'c remote_world \<Rightarrow> bool" for E where
  listener: "map_of (adapters w) a = Some (client, h) \<Longrightarrow> map_of (clients w) client = Some c \<Longrightarrow>
    listener_tick (rpc E) h c = (h1, c1) \<Longrightarrow> remote_background E w (put_adapter a client h1 (put_client client c1 w))"
| server: "map_of (clients w) client = Some c \<Longrightarrow> remote_background E w (put_client client c1 w)"

lemma remote_background_same: "remote_background E w w' \<Longrightarrow> same_objects w w'"
  by (auto elim!: remote_background.cases intro: put_client_same) (metis put_both_same)

definition remote_program :: "('c, 'o) remote_env \<Rightarrow> 'c remote_world program" where
  "remote_program E = \<lparr>cfunctions = library_functions (luaopen_remote E), finalizer = library_finalizer (luaopen_remote E),
     collectable = client_unused, environment = remote_background E\<rparr>"

lemma remote_finalizers:
  "finalizer (remote_program E) name = Some f \<longleftrightarrow>
     name = client_mt \<and> f = destroy_SDLRemoteClient E \<or> name = adapter_mt \<and> f = destroy_SDLRemoteTestAdapter E"
  by (auto simp: remote_program_def library_finalizer_def luaopen_remote_def registerSDLRemoteClient_def
      registerSDLRemoteTestAdapter_def)

lemma remote_finalizer:
  "finalizer (remote_program E) client_mt = Some (destroy_SDLRemoteClient E)"
  "finalizer (remote_program E) adapter_mt = Some (destroy_SDLRemoteTestAdapter E)"
  by (simp_all add: remote_finalizers)

lemma accounted_drop:
  assumes "accounted L" "userdata L u = Some (m, p)" "m \<noteq> Some client_mt" "m \<noteq> Some adapter_mt"
  shows "accounted (without u L)"
proof -
  have p: "fst p \<noteq> RemoteClient_class" "fst p \<noteq> HmiAdapterClient_class"
    using accountedD(1,2) [OF assms(1)] assms(2-4) by (metis prod.collapse)+
  show ?thesis
  proof (rule accountedI, goal_cases)
    case (3 a c)
    then obtain u' m' where "userdata L u' = Some (m', RemoteClient_class, a)" using accountedD(3) [OF assms(1), of a c] by auto
    with assms(2) p show ?case by (intro exI [of _ u'] exI [of _ m']) auto
  next
    case (4 a client h)
    then obtain v m u' n where "userdata L v = Some (m, HmiAdapterClient_class, a)" "u' < v"
        "userdata L u' = Some (n, RemoteClient_class, client)"
      using accountedD(4) [OF assms(1), of a client h] by auto
    with assms(2) p show ?case by (intro exI [of _ v] exI [of _ m] exI [of _ u'] exI [of _ n]) auto
  qed (use accountedD(1,2) [OF assms(1)] in \<open>auto split: if_splits\<close>)
qed

interpretation remote: bindings "remote_program E" "remote_inv E" for E :: "('c, 'o) remote_env"
proof
  show "stackless (remote_inv E)" by (rule stackless_remote)
next
  fix f L
  assume "f \<in> set (cfunctions (remote_program E))" "remote_inv E L"
  then show "post (remote_inv E) (f L)"
    using client_methods_sound adapter_methods_sound create_client_sound create_adapter_sound
    by (auto simp: remote_program_def set_library_functions luaopen_remote_def registerSDLRemoteClient_def
        registerSDLRemoteTestAdapter_def)
next
  fix name f L u p st
  assume f: "finalizer (remote_program E) name = Some f" "userdata L u = Some (Some name, p)"
    "collectable (remote_program E) (L\<lparr>stack := st\<rparr>) u" "stack L = [LUserdata u]" "remote_inv E L"
  then have "client_unused L u"
    by (auto simp: remote_program_def client_unused_def split: prod.splits cpp_class.splits)
  with f show "post (\<lambda>L'. remote_inv E (without u L')) (f L)"
    by (auto simp: remote_finalizers intro: destroy_client_sound destroy_adapter_sound)
next
  fix L u m p
  assume "userdata L u = Some (m, p)" "Option.bind m (finalizer (remote_program E)) = None" "remote_inv E L"
  moreover from this(2) have "m \<noteq> Some client_mt" "m \<noteq> Some adapter_mt" by (auto simp: remote_finalizer)
  ultimately show "remote_inv E (without u L)"
    using accounted_drop [of L u m p] by (simp add: remote_inv_def sound_userdata_def typed_without owned_without)
next
  fix L s
  assume "environment (remote_program E) (world L) s" "remote_inv E L"
  then show "remote_inv E (L\<lparr>world := s\<rparr>)"
    using remote_background_same by (auto simp: remote_program_def intro: remote_inv_world)
qed

section \<open>Properties\<close>

definition no_objects :: "os \<Rightarrow> 'c remote_world" where
  "no_objects os = \<lparr>clients = [], adapters = [], client_files = os\<rparr>"

lemma remote_reached: "script_reaches (remote_program E) (initial_lua (no_objects os)) L \<Longrightarrow> remote_inv E L"
  by (erule remote.reaches_keeps) (simp add: remote_inv_def sound_userdata_def linked_def no_objects_def initial_lua_def owned_def
      typed_userdata_def accounted_def)

lemma checked_defined:
  assumes "remote_inv E L" "map_of remote_table n = Some c" "\<And>a. remote_alive (c, a) (world L) \<Longrightarrow> k a L \<noteq> Ub"
  shows "luaL_checkudata i n c k L \<noteq> Ub"
proof -
  have c: "c \<in> set remote_classes" using assms(2) by (auto split: if_splits)
  have "fst p = c \<and> remote_alive p (world L)" if u: "userdata L u = Some (Some n, p)" for u p
  proof -
    have "fst p = c" using assms(1,2) u unfolding remote_inv_def sound_userdata_def typed_userdata_def by blast
    moreover have "owned (remote_runtime E) remote_classes L" using assms(1) by (simp add: remote_inv_def sound_userdata_def)
    ultimately show ?thesis using owned_held [OF _ u, of "remote_runtime E" remote_classes] c remote_held [of E p "world L"] by blast
  qed
  with assms(3) show ?thesis
    by (auto simp: luaL_checkudata_def split: option.splits lua_value.splits)
qed

text \<open>Under the invariant an adapter and its client are there to be used.\<close>

lemma on_adapter_defined:
  assumes "remote_inv E L" "remote_alive (HmiAdapterClient_class, a) (world L)"
    and "\<And>client h c. map_of (adapters (world L)) a = Some (client, h) \<Longrightarrow> map_of (clients (world L)) client = Some c \<Longrightarrow>
      f client h L \<noteq> Ub"
  shows "on_adapter a f L \<noteq> Ub"
proof -
  obtain client h where h: "map_of (adapters (world L)) a = Some (client, h)"
    using assms(2) by (auto simp: remote_alive_def)
  moreover obtain c where "map_of (clients (world L)) client = Some c"
    using assms(1) map_of_SomeD [OF h] by (auto simp: remote_inv_def linked_def)
  ultimately show ?thesis using assms(3) by (simp add: on_adapter_def)
qed

definition never_throws :: "('c, 'o) remote_env \<Rightarrow> bool" where
  "never_throws E \<longleftrightarrow> (\<forall>name ps c. fst (content_call (rpc E) name ps c) \<noteq> None)"

lemma never_throws_adapter:
  assumes "never_throws E"
  shows "lua_connect (rpc E) t h c \<noteq> (None, x)" "lua_write (rpc E) d h c \<noteq> (None, x)" "destroy (rpc E) h c \<noteq> (None, x)"
proof -
  have answer: "\<exists>r c1. content_call (rpc E) name ps c = (Some r, c1)" for name ps c
    using assms unfolding never_throws_def by (metis not_None_eq prod.collapse)
  show "lua_connect (rpc E) t h c \<noteq> (None, x)"
    using answer [of open_handle "connection_parameters h" c]
    by (auto simp: lua_connect_def connect_def Let_def split: prod.splits option.splits)
  show "lua_write (rpc E) d h c \<noteq> (None, x)"
    using answer [of send_name "connection_parameters h @ [(c_str d, param_code STRING_T)]" c]
    by (auto simp: lua_write_def send_def Let_def split: prod.splits option.splits)
  show "destroy (rpc E) h c \<noteq> (None, x)"
    using answer [of close_handle "connection_parameters h" c]
    by (auto simp: destroy_def Let_def split: prod.splits option.splits)
qed

text \<open>C10: as long as no client is collected before an adapter that was made with it and the calls to the server
  throw nothing, no method of the module has undefined behaviour for want of an object, whatever a script did before and
  whatever the listener threads and servers did meanwhile: \<open>connected\<close> and \<open>connect\<close> with any arguments, \<open>write\<close> of a text,
  and the finalizer of an adapter.\<close>

theorem remote_calls_defined:
  assumes "script_reaches (remote_program E) (initial_lua (no_objects os)) L" "never_throws E"
  shows "client_connected_lua E (L\<lparr>stack := args\<rparr>) \<noteq> Ub \<and> adapter_connect_lua E (L\<lparr>stack := args\<rparr>) \<noteq> Ub \<and>
     (args \<noteq> [] \<longrightarrow> to_text (remote_runtime E) (last args) \<noteq> None \<longrightarrow> adapter_write_lua E (L\<lparr>stack := args\<rparr>) \<noteq> Ub) \<and>
     destroy_SDLRemoteTestAdapter E (L\<lparr>stack := args\<rparr>) \<noteq> Ub"
proof -
  let ?L = "L\<lparr>stack := args\<rparr>"
  have inv: "remote_inv E ?L" using remote_reached [OF assms(1)] by simp
  note calls = never_throws_adapter [OF assms(2)]
  have "client_connected_lua E ?L \<noteq> Ub"
    unfolding client_connected_lua_eq
    by (rule checked_defined [OF inv]) (auto simp: remote_alive_def on_client_def)
  moreover have "adapter_connect_lua E ?L \<noteq> Ub"
    unfolding adapter_connect_lua_eq
    by (intro checked_defined [OF inv] on_adapter_defined [OF inv])
      (use calls(1) in \<open>auto simp: on_client_def split: prod.splits option.splits\<close>)
  moreover have "adapter_write_lua E ?L \<noteq> Ub" if args: "args \<noteq> []" and txt_arg: "to_text (remote_runtime E) (last args) \<noteq> None"
  proof -
    obtain data where "to_text (remote_runtime E) (last args) = Some data" using txt_arg by blast
    then have data: "to_text (remote_runtime E) (args ! (length args - 1)) = Some data" by (simp only: last_conv_nth [OF args])
    have top: "from_top 1 f ?L = f (args ! (length args - 1)) ?L" for f :: "lua_value \<Rightarrow> _"
      using args by (simp add: from_top_def Suc_le_eq)
    show ?thesis
      unfolding adapter_write_lua_eq
      by (rule checked_defined [OF inv], simp, simp only: top data option.case, rule on_adapter_defined [OF inv])
        (use calls(2) in \<open>auto simp: on_client_def split: prod.splits option.splits\<close>)
  qed
  moreover have "destroy_SDLRemoteTestAdapter E ?L \<noteq> Ub"
    unfolding destroy_SDLRemoteTestAdapter_eq
    by (intro checked_defined [OF inv] on_adapter_defined [OF inv])
      (use calls(3) in \<open>auto simp: on_client_def split: prod.splits option.splits\<close>)
  ultimately show ?thesis by blast
qed

text \<open>A client must not be collected before an adapter that is connected through it: the adapter keeps the
  bare pointer, so that its \<open>connect\<close>, its \<open>write\<close> and its own finalizer then use a deleted client.\<close>

theorem client_collected_first:
  assumes "map_of (clients (world L)) client = Some c" "map_of (adapters (world L)) a = Some (client, h)" "is_connected h"
    and "userdata L u = Some (Some client_mt, RemoteClient_class, client)"
    and "userdata L v = Some (Some adapter_mt, HmiAdapterClient_class, a)"
  shows "\<exists>L'. destroy_SDLRemoteClient E (L\<lparr>stack := [LUserdata u]\<rparr>) = Returns 0 L' \<and>
     adapter_connect_lua E ((without u L')\<lparr>stack := [LUserdata v]\<rparr>) = Ub \<and>
     adapter_write_lua E ((without u L')\<lparr>stack := [LUserdata v, LString d]\<rparr>) = Ub \<and>
     destroy_SDLRemoteTestAdapter E ((without u L')\<lparr>stack := [LUserdata v]\<rparr>) = Ub"
proof -
  have "u \<noteq> v" using assms(4,5) by auto
  with assms show ?thesis
    by (simp add: destroy_SDLRemoteClient_eq adapter_connect_lua_eq adapter_write_lua_eq destroy_SDLRemoteTestAdapter_eq
        luaL_checkudata_def arg_def invoke_def on_object_def perform_def remote_runtime_def remote_alive_def delete_client_def
        on_adapter_def on_client_def map_of_delete from_top_def to_text_def)
qed

text \<open>The end of the interpreter: the newest objects go first, so that no client goes before its adapters.\<close>

lemma newest_client_unused:
  assumes "remote_inv E L" "\<forall>v > u. userdata L v = None" "userdata L u = Some (m, RemoteClient_class, a)"
  shows "client_unused L u"
proof -
  have "client \<noteq> a" if user: "(b, client, h) \<in> set (adapters (world L))" for b client h
  proof
    assume client: "client = a"
    obtain v n u' n' where v: "userdata L v = Some (n, HmiAdapterClient_class, b)" "u' < v"
        "userdata L u' = Some (n', RemoteClient_class, client)"
      using accountedD(4) [OF _ user] assms(1) unfolding remote_inv_def by blast
    have "u' = u"
      using assms(1,3) v(3) client unfolding remote_inv_def sound_userdata_def owned_def
      by (metis fst_conv list.set_intros(1))
    with v(1,2) assms(2) show False by auto
  qed
  with assms(3) show ?thesis by (force simp: client_unused_def)
qed

lemma destroy_client_returns:
  assumes "remote_inv E L" "userdata L u = Some (Some client_mt, RemoteClient_class, a)"
  shows "\<exists>L'. destroy_SDLRemoteClient E (L\<lparr>stack := [LUserdata u]\<rparr>) = Returns 0 L' \<and> userdata L' = userdata L"
proof -
  have "remote_alive (RemoteClient_class, a) (world L)"
    using assms owned_held [OF _ assms(2), of "remote_runtime E" remote_classes]
    by (simp add: remote_inv_def sound_userdata_def remote_held)
  then show ?thesis
    by (simp add: destroy_SDLRemoteClient_eq luaL_checkudata_def arg_def assms(2) invoke_def on_object_def perform_def
        remote_runtime_def delete_client_def)
qed

lemma destroy_adapter_returns:
  assumes "remote_inv E L" "userdata L u = Some (Some adapter_mt, HmiAdapterClient_class, a)" "never_throws E"
  shows "\<exists>L'. destroy_SDLRemoteTestAdapter E (L\<lparr>stack := [LUserdata u]\<rparr>) = Returns 0 L' \<and> userdata L' = userdata L"
proof -
  have "remote_alive (HmiAdapterClient_class, a) (world L)"
    using assms owned_held [OF _ assms(2), of "remote_runtime E" remote_classes]
    by (simp add: remote_inv_def sound_userdata_def remote_held)
  then obtain client h where h: "map_of (adapters (world L)) a = Some (client, h)" by (auto simp: remote_alive_def)
  moreover obtain c where "map_of (clients (world L)) client = Some c"
    using assms(1) map_of_SomeD [OF h] by (auto simp: remote_inv_def linked_def)
  moreover obtain h1 c1 where "destroy (rpc E) h c = (Some (), h1, c1)"
    using never_throws_adapter(3) [OF assms(3), of h c] by (metis old.unit.exhaust option.exhaust prod_cases3)
  ultimately show ?thesis
    by (simp add: destroy_SDLRemoteTestAdapter_eq luaL_checkudata_def arg_def assms(2) on_adapter_def on_client_def)
qed

interpretation remote_close: closing "remote_program E" "\<lambda>L. never_throws E \<and> remote_inv E L" for E :: "('c, 'o) remote_env"
proof
  fix name f L u p
  assume f: "finalizer (remote_program E) name = Some f" "userdata L u = Some (Some name, p)"
    "\<forall>v > u. userdata L v = None" "never_throws E \<and> remote_inv E L"
  let ?L = "L\<lparr>stack := [LUserdata u]\<rparr>"
  have inv: "remote_inv E ?L" and typed: "typed_userdata remote_table L"
    using f(4) by (simp_all add: remote_inv_def sound_userdata_def)
  consider "name = client_mt" "f = destroy_SDLRemoteClient E" | "name = adapter_mt" "f = destroy_SDLRemoteTestAdapter E"
    using f(1) by (auto simp: remote_finalizers)
  then show "\<exists>n L'. f ?L = Returns n L' \<and> userdata L' = userdata L \<and> never_throws E \<and> remote_inv E (without u L')"
  proof cases
    case 1
    then have u: "userdata L u = Some (Some client_mt, RemoteClient_class, snd p)"
      using typed f(2) unfolding typed_userdata_def by (cases p) fastforce
    obtain L' where L': "f ?L = Returns 0 L'" "userdata L' = userdata L"
      using destroy_client_returns [OF _ u] f(4) 1(2) by blast
    have "client_unused ?L u" using newest_client_unused [OF f(4) [THEN conjunct2] f(3) u] by (simp add: client_unused_def u)
    then have "remote_inv E (without u L')" using destroy_client_sound [OF inv, of u] u L'(1) 1(2) by simp
    with L' f(4) show ?thesis by blast
  next
    case 2
    then have u: "userdata L u = Some (Some adapter_mt, HmiAdapterClient_class, snd p)"
      using typed f(2) unfolding typed_userdata_def by (cases p) fastforce
    obtain L' where L': "f ?L = Returns 0 L'" "userdata L' = userdata L"
      using destroy_adapter_returns [OF _ u] f(4) 2(2) by blast
    then have "remote_inv E (without u L')" using destroy_adapter_sound [OF inv, of u] u 2(2) by simp
    with L' f(4) show ?thesis by blast
  qed
qed (blast intro: remote.drop_keeps)

text \<open>C11: the end of a script that used the module is clean: whatever the script did, the destructor of the
  interpreter runs all finalizers without undefined behaviour, adapters before their clients, and no client and no
  adapter is left, provided that the calls to the server throw nothing.\<close>

theorem remote_closes_cleanly:
  assumes "script_reaches (remote_program E) (initial_lua (no_objects os)) L" "never_throws E"
  shows "\<exists>L'. delete_LuaInterpreter (remote_program E) L = Some L' \<and> clients (world L') = [] \<and> adapters (world L') = []"
proof -
  have inv: "remote_inv E L" using assms(1) by (rule remote_reached)
  then have "\<forall>v \<ge> next_userdata L. userdata L v = None" by (simp add: remote_inv_def sound_userdata_def owned_def)
  then obtain L' where L': "lua_close (remote_program E) (next_userdata L) L = Some L'" "remote_inv E L'" "userdata L' = Map.empty"
    using remote_close.closes [of E L] assms(2) inv by blast
  then have "accounted L'" by (simp add: remote_inv_def)
  then have "map_of (clients (world L')) a = None" "(a, client, h) \<notin> set (adapters (world L'))" for a client h
    using accountedD(3,4) L'(3) by fastforce+
  then have "clients (world L') = []" "adapters (world L') = []"
    by (metis ext map_of_eq_empty_iff, metis list.set_intros(1) neq_Nil_conv prod_cases3)
  with L'(1) show ?thesis by (simp add: delete_LuaInterpreter_def)
qed

text \<open>The table of parameters that a script passes to \<open>call\<close>.\<close>

definition parameter_item :: "parameter_type \<Rightarrow> lua_value" where
  "parameter_item p = LTable [(LString ''type'', LNumber (of_int (snd p))), (LString ''value'', LString (fst p))]"

definition parameter_table :: "parameter_type list \<Rightarrow> (lua_value \<times> lua_value) list" where
  "parameter_table ps = map (\<lambda>(i, p). (LNumber (of_nat i), parameter_item p)) (enumerate 1 ps)"

lemma map_of_numbered:
  "map_of (map (\<lambda>(i, p). (LNumber (of_nat i), f p)) (enumerate n ps)) (LNumber (of_nat i)) =
     (if n \<le> i \<and> i < n + length ps then Some (f (ps ! (i - n))) else None)"
proof (induction ps arbitrary: n)
  case (Cons p ps)
  then show ?case by (auto simp: nth_Cons' Suc_diff_le)
qed simp

lemma array_items_table: "array_items (parameter_table ps) (Suc j) fuel = map parameter_item (take fuel (drop j ps))"
proof (induction fuel arbitrary: j)
  case (Suc fuel)
  have "map_of (parameter_table ps) (LNumber (of_nat (Suc j))) = (if j < length ps then Some (parameter_item (ps ! j)) else None)"
    unfolding parameter_table_def using map_of_numbered [of parameter_item 1 ps "Suc j"] by simp
  then show ?case
    using Suc by (auto simp: Cons_nth_drop_Suc [symmetric] parameter_item_def simp del: of_nat_Suc)
qed simp

lemma read_parameter_items:
  "\<forall>p \<in> set ps. is_int (snd p) \<Longrightarrow>
   read_parameters R (map parameter_item ps) k = k (map (\<lambda>p. (snd p, Some (c_str (fst p)))) ps)"
proof (induction ps arbitrary: k)
  case (Cons p ps)
  then have "is_long (snd p)" by (simp add: is_int_def is_long_def)
  with Cons show ?case
    by (simp add: fun_eq_iff parameter_item_def table_field_def to_integer_def value_number_def Let_def to_text_def)
qed simp

lemma get_parameter_items:
  "\<forall>p \<in> set ps. is_int (snd p) \<Longrightarrow>
   get_rpc_parameters (map (\<lambda>p. (snd p, Some (c_str (fst p)))) ps) = Some (map (\<lambda>p. (c_str (fst p), snd p)) ps)"
  by (induction ps) (simp_all add: to_int_id c_str_id NUL_notin_c_str)

lemma rpc_arguments_table:
  assumes "stack L = [v, LString name, LTable (parameter_table ps)]" "\<forall>p \<in> set ps. is_int (snd p)"
  shows "rpc_arguments R k L = k (c_str name) (map (\<lambda>p. (snd p, Some (c_str (fst p)))) ps) L"
proof -
  have "array_items (parameter_table ps) 1 (length (parameter_table ps)) = map parameter_item ps"
    using array_items_table [of ps 0 "length ps"] by (simp add: parameter_table_def)
  with assms show ?thesis by (simp add: rpc_arguments_def from_top_def to_text_def read_parameter_items)
qed

lemma file_call_passes:
  assumes "userdata L u = Some (Some client_mt, RemoteClient_class, a)" "map_of (clients (world L)) a = Some c"
    and "\<forall>p \<in> set ps. is_int (snd p)"
    and "file_call (rpc E) (c_str name) (map (\<lambda>p. (c_str (fst p), snd p)) ps) c (client_files (world L)) =
      Some (Some (data, code), c1, os1)"
  shows "\<exists>L'. client_file_call_lua E (L\<lparr>stack := [LUserdata u, LString name, LTable (parameter_table ps)]\<rparr>) = Returns 2 L' \<and>
     returned (Returns 2 L') = Some [LNumber (of_int code), LString (c_str data)] \<and>
     world L' = (put_client a c1 (world L))\<lparr>client_files := os1\<rparr>"
  using assms
  by (simp add: client_file_call_lua_eq luaL_checkudata_def arg_def rpc_arguments_table on_client_def lua_file_call_def
      get_parameter_items c_str_id NUL_notin_c_str push_response_def push_def)

text \<open>C19: \<open>call\<close> hands the server what the script wrote and the script what the server answered: for a table of
  parameters with types of the width of \<open>int\<close>, in their order, the procedure of that name is called with exactly these values
  and types, texts up to their first NUL; its code and its text are the two results of the call.\<close>

theorem call_passes_parameters:
  assumes "userdata L u = Some (Some client_mt, RemoteClient_class, a)" "map_of (clients (world L)) a = Some c"
    and "\<forall>p \<in> set ps. is_int (snd p)"
    and "content_call (rpc E) (c_str name) (map (\<lambda>p. (c_str (fst p), snd p)) ps) c = (Some (data, code), c1)"
  shows "\<exists>L'. client_call_lua E (L\<lparr>stack := [LUserdata u, LString name, LTable (parameter_table ps)]\<rparr>) = Returns 2 L' \<and>
     returned (Returns 2 L') = Some [LNumber (of_int code), LString (c_str data)] \<and> world L' = put_client a c1 (world L)"
  using assms
  by (simp add: client_call_lua_eq luaL_checkudata_def arg_def rpc_arguments_table on_client_def lua_content_call_def
      get_parameter_items c_str_id NUL_notin_c_str push_response_def push_def)

section \<open>A session\<close>

text \<open>A script that makes a client and an adapter and connects it.\<close>

definition after :: "'s cfun \<Rightarrow> lua_value list \<Rightarrow> 's lua \<Rightarrow> 's lua" where
  "after f args L = (case f (L\<lparr>stack := args\<rparr>) of Returns n L' \<Rightarrow> L' | Raises e L' \<Rightarrow> L' | _ \<Rightarrow> L)"

lemma after_reaches: "script_reaches P L0 L \<Longrightarrow> f \<in> set (cfunctions P) \<Longrightarrow> script_reaches P L0 (after f args L)"
  unfolding after_def by (auto split: lua_outcome.splits intro: script_next step_call step_error)

definition session_env :: "(nat, response_type) remote_env" where
  "session_env = \<lparr>rpc = example_client, rpc_connect = (\<lambda>ip port. Some 0), threads_start = (\<lambda>w. True),
     text_number = (\<lambda>s. None), number_text = (\<lambda>x. ''0'')\<rparr>"

definition session_start :: "nat remote_world lua" where
  "session_start = initial_lua (no_objects example_os)"

definition session_client :: "nat remote_world lua" where
  "session_client = after (create_SDLRemoteClient session_env) [LTable [], LString ''127.0.0.1'', LNumber 5555] session_start"

definition session_adapter :: "nat remote_world lua" where
  "session_adapter = after (create_SDLRemoteTestAdapter session_env)
     [LTable [], LUserdata 0, LTable [(LString ''host'', LString ''10.0.0.1''), (LString ''port'', LNumber 8087)]] session_client"

definition session_connected :: "nat remote_world lua" where
  "session_connected = after (adapter_connect_lua session_env) [LUserdata 1] session_adapter"

lemma session_client_eq:
  "session_client = \<lparr>stack = [LTable [], LUserdata 0], userdata = [0 \<mapsto> (Some client_mt, RemoteClient_class, 1)],
     next_userdata = 1, world = \<lparr>clients = [(1, 1)], adapters = [], client_files = example_os\<rparr>\<rparr>"
proof -
  have "RemoteClient example_client 0 = Some 1"
    by (simp add: RemoteClient_def call_response_def RpcConnection_call_def example_client_def function_client_def Let_def
        client_connected_def receive_name_def)
  moreover have "trunc 5555 = 5555" using trunc_of_int [of 5555] by simp
  ultimately show ?thesis
    by (simp add: session_client_def after_def create_SDLRemoteClient_def session_start_def luaL_checktable_def arg_def from_top_def
        to_integer_def value_number_def is_long_def to_text_def create_object_def new_client_def RpcConnectionImpl_def session_env_def
        fresh_address_def no_objects_def initial_lua_def lua_pop_def push_object_eq)
qed

lemma session_adapter_eq:
  "session_adapter = \<lparr>stack = [LTable [], LUserdata 1],
     userdata = [0 \<mapsto> (Some client_mt, RemoteClient_class, 1), 1 \<mapsto> (Some adapter_mt, HmiAdapterClient_class, 2)],
     next_userdata = 2, world = \<lparr>clients = [(1, 1)],
       adapters = [(2, 1, HmiAdapterClient [(''10.0.0.1'', param_code STRING_T), (to_string 8087, param_code INT_T)])],
       client_files = example_os\<rparr>\<rparr>"
proof -
  have "trunc 8087 = 8087" using trunc_of_int [of 8087] by simp
  then show ?thesis
    by (simp add: session_adapter_def session_client_eq after_def create_SDLRemoteTestAdapter_def luaL_checktable_def arg_def
        from_top_def table_field_def to_integer_def value_number_def is_long_def to_text_def build_TCPParams_def c_str_def
        lua_pop_def luaL_checkudata_def create_object_def new_adapter_def fresh_address_def push_object_eq to_int_id is_int_def
        numeral_2_eq_2)
qed

lemma session_connected_facts:
  "userdata session_connected = [0 \<mapsto> (Some client_mt, RemoteClient_class, 1), 1 \<mapsto> (Some adapter_mt, HmiAdapterClient_class, 2)]"
  "map_of (clients (world session_connected)) 1 = Some 2"
  "\<exists>h. map_of (adapters (world session_connected)) 2 = Some (1, h) \<and> is_connected h"
proof -
  obtain h where h: "lua_connect example_client True
      (HmiAdapterClient [(''10.0.0.1'', param_code STRING_T), (to_string 8087, param_code INT_T)]) 1 = (Some (), h, 2)"
      "is_connected h"
    by (simp add: lua_connect_def connect_def HmiAdapterClient_def example_client_call emit_def Let_def open_handle_def receive_name_def)
  have "adapter_connect_lua session_env (session_adapter\<lparr>stack := [LUserdata 1]\<rparr>) =
      Returns 0 (session_adapter\<lparr>stack := [LUserdata 1], world := put_adapter 2 1 h (put_client 1 2 (world session_adapter))\<rparr>)"
    using h by (simp add: adapter_connect_lua_eq session_adapter_eq luaL_checkudata_def arg_def on_adapter_def on_client_def session_env_def)
  then have eq: "session_connected = session_adapter\<lparr>stack := [LUserdata 1], world := put_adapter 2 1 h (put_client 1 2 (world session_adapter))\<rparr>"
    by (simp add: session_connected_def after_def)
  show "userdata session_connected = [0 \<mapsto> (Some client_mt, RemoteClient_class, 1), 1 \<mapsto> (Some adapter_mt, HmiAdapterClient_class, 2)]"
    "map_of (clients (world session_connected)) 1 = Some 2"
    "\<exists>h. map_of (adapters (world session_connected)) 2 = Some (1, h) \<and> is_connected h"
    unfolding eq using h(2) by (simp_all add: session_adapter_eq put_adapter_def put_client_def)
qed

lemma session_reached: "script_reaches (remote_program session_env) (initial_lua (no_objects example_os)) session_connected"
  unfolding session_connected_def session_adapter_def session_client_def session_start_def
  by (intro after_reaches script_start)
    (simp_all add: remote_program_def library_functions_def luaopen_remote_def registerSDLRemoteClient_def
        registerSDLRemoteTestAdapter_def)

theorem remote_calls_defined_witness:
  "adapter_write_lua session_env (session_connected\<lparr>stack := [LUserdata 1, LString ''{}'']\<rparr>) \<noteq> Ub \<and>
   destroy_SDLRemoteTestAdapter session_env (session_connected\<lparr>stack := [LUserdata 1]\<rparr>) \<noteq> Ub"
proof -
  have "never_throws session_env" by (simp add: never_throws_def session_env_def example_client_call)
  note defined = remote_calls_defined [OF session_reached this]
  have "to_text (remote_runtime session_env) (last [LUserdata 1, LString ''{}'']) \<noteq> None" by (simp add: to_text_def)
  then show ?thesis using defined [of "[LUserdata 1, LString ''{}'']"] defined [of "[LUserdata 1]"] by blast
qed

theorem remote_closes_cleanly_witness:
  "\<exists>L'. delete_LuaInterpreter (remote_program session_env) session_connected = Some L' \<and>
     clients (world L') = [] \<and> adapters (world L') = []"
  by (rule remote_closes_cleanly [OF session_reached]) (simp add: never_throws_def session_env_def example_client_call)

theorem client_collected_first_witness:
  "\<exists>L'. destroy_SDLRemoteClient session_env (session_connected\<lparr>stack := [LUserdata 0]\<rparr>) = Returns 0 L' \<and>
     adapter_connect_lua session_env ((without 0 L')\<lparr>stack := [LUserdata 1]\<rparr>) = Ub \<and>
     adapter_write_lua session_env ((without 0 L')\<lparr>stack := [LUserdata 1, LString ''{}'']\<rparr>) = Ub \<and>
     destroy_SDLRemoteTestAdapter session_env ((without 0 L')\<lparr>stack := [LUserdata 1]\<rparr>) = Ub"
proof -
  obtain h where "map_of (adapters (world session_connected)) 2 = Some (1, h)" "is_connected h"
    using session_connected_facts(3) by blast
  then show ?thesis
    by (rule client_collected_first [OF session_connected_facts(2)]) (simp_all add: session_connected_facts(1))
qed

theorem call_passes_parameters_witness:
  "\<exists>L'. client_call_lua session_env (session_client\<lparr>stack := [LUserdata 0, LString ''receive'', LTable (parameter_table
         [(''10.0.0.1'', 2), (''8087'', 1)])]\<rparr>) = Returns 2 L' \<and>
     returned (Returns 2 L') = Some [LNumber (of_int SUCCESS), LString []] \<and> world L' = put_client 1 2 (world session_client)"
proof -
  have "content_call (rpc session_env) (c_str ''receive'') (map (\<lambda>p. (c_str (fst p), snd p)) [(''10.0.0.1'', 2), (''8087'', 1)]) 1 =
      (Some ([], SUCCESS), 2)"
    by (simp add: session_env_def example_client_call)
  then show ?thesis
    using call_passes_parameters [of session_client 0 1 1 "[(''10.0.0.1'', 2), (''8087'', 1)]" session_env "''receive''" "[]" SUCCESS 2]
    by (simp add: session_client_eq is_int_def c_str_def)
qed

end
