(* ===== verification/Message_Broker.thy ===== *)
theory Message_Broker
  imports Common
begin

text \<open>
  The transport plugin (\<open>plugins/transport/message_broker.cpp\<close>): websocket sessions with their queue of
  received messages, listeners that resolve and connect, and the broker that keeps one listener
  context and one queue of unsent messages per endpoint. Boost's websocket stream and address
  parser and \<open>strerror\<close> are parameters; a stream has an abstract state \<open>'w\<close>. Asynchronous completions (\<open>OnResolve\<close>,
  \<open>OnRead\<close>) are operations of their own that the I/O threads run between the remote procedures; the
  flags \<open>resolving\<close> and \<open>reading\<close> say that a completion is outstanding. An operation that may throw
  returns an option. The members keep their names without the final underscore; \<open>contexts\<close> is
  \<open>listener_context_\<close>, \<open>received\<close> the session's \<open>msg_queue_\<close>, \<open>wsock\<close> its \<open>ws_\<close>.
\<close>

section \<open>State\<close>

type_synonym endpoint = "string \<times> int"

record 'w ws_ops =
  is_open :: "'w \<Rightarrow> bool"
  ws_write :: "string \<Rightarrow> 'w \<Rightarrow> bool \<times> 'w"
  handshake :: "string \<Rightarrow> 'w \<Rightarrow> bool \<times> 'w"
  async_close :: "'w \<Rightarrow> 'w"
  unconnected :: 'w
  make_address :: "string \<Rightarrow> string option"
  strerror :: "int \<Rightarrow> string"

record 'w session =
  wsock :: 'w
  read_buffer :: string
  received :: "string list"
  reading :: bool

record 'w listener =
  socket_open :: bool
  resolving :: bool
  remote_endpoint :: endpoint
  session_ptr :: "'w session option"

text \<open>\<open>ioc\<close> is the number of threads the I/O context is made for.\<close>

record 'w listener_context =
  ioc :: int
  listener_ptr :: "'w listener"
  thread_list :: nat
  exit_signal :: bool

record 'w broker =
  contexts :: "endpoint \<rightharpoonup> 'w listener_context"
  msg_queue :: "endpoint \<rightharpoonup> string list"

section \<open>Sessions\<close>

definition WebsocketSession :: "'w \<Rightarrow> 'w session" where
  "WebsocketSession socket = \<lparr>wsock = socket, read_buffer = [], received = [], reading = False\<rparr>"

definition AsyncRead :: "'w session \<Rightarrow> 'w session" where
  "AsyncRead s = s\<lparr>reading := True\<rparr>"

definition Session_Run :: "'w ws_ops \<Rightarrow> string \<Rightarrow> 'w session \<Rightarrow> 'w session" where
  "Session_Run ops host s = AsyncRead (s\<lparr>wsock := snd (handshake ops host (wsock s))\<rparr>)"

definition OnRead :: "bool \<Rightarrow> 'w session \<Rightarrow> 'w session" where
  "OnRead ec s =
     (let s = s\<lparr>reading := False\<rparr> in
      if ec then s
      else AsyncRead
        (if length (read_buffer s) \<noteq> 0
         then s\<lparr>received := received s @ [read_buffer s], read_buffer := []\<rparr>
         else s))"

definition Write :: "'w ws_ops \<Rightarrow> string \<Rightarrow> 'w session \<Rightarrow> int \<times> 'w session" where
  "Write ops data s =
     (let (ok, w) = ws_write ops data (wsock s) in
      (if \<not> ok then WRITE_FAILURE else SUCCESS, s\<lparr>wsock := w\<rparr>))"

definition Close :: "'w ws_ops \<Rightarrow> 'w session \<Rightarrow> 'w session" where
  "Close ops s = s\<lparr>wsock := async_close ops (wsock s)\<rparr>"

text \<open>The test for an empty queue runs before the lock is taken; taking the first message of an
  empty queue is undefined, the value \<open>None\<close> of \<open>take_front\<close>.\<close>

definition take_front :: "'w session \<Rightarrow> (string \<times> 'w session) option" where
  "take_front s =
     (case received s of [] \<Rightarrow> None | msg # rest \<Rightarrow> Some (msg, s\<lparr>received := rest\<rparr>))"

definition GetMessage :: "'w session \<Rightarrow> string \<times> 'w session" where
  "GetMessage s = (if received s = [] then ([], s) else the (take_front s))"

definition IsOpen :: "'w ws_ops \<Rightarrow> 'w session \<Rightarrow> bool" where
  "IsOpen ops s = is_open ops (wsock s)"

section \<open>Listeners\<close>

definition WebsocketListener :: "endpoint \<Rightarrow> 'w listener" where
  "WebsocketListener ep =
     \<lparr>socket_open = False, resolving = False, remote_endpoint = ep, session_ptr = None\<rparr>"

definition DoResolve :: "'w listener \<Rightarrow> 'w listener" where
  "DoResolve l = l\<lparr>resolving := True\<rparr>"

definition Listener_Run :: "'w listener \<Rightarrow> 'w listener" where
  "Listener_Run l = (if socket_open l then l else DoResolve l)"

definition Stop :: "'w ws_ops \<Rightarrow> 'w listener \<Rightarrow> 'w listener" where
  "Stop ops l =
     (let l = l\<lparr>resolving := False\<rparr> in
      case session_ptr l of None \<Rightarrow> l | Some s \<Rightarrow> l\<lparr>session_ptr := Some (Close ops s)\<rparr>)"

text \<open>The outcome of \<open>connect\<close> is an argument: \<open>None\<close> is an error, otherwise the stream over the
  connected socket, which the session takes over; the listener's socket is then closed again.\<close>

definition OnResolve :: "'w ws_ops \<Rightarrow> bool \<Rightarrow> 'w option \<Rightarrow> 'w listener \<Rightarrow> 'w listener" where
  "OnResolve ops ec conn l =
     (let l = l\<lparr>resolving := False\<rparr> in
      if ec then l
      else (case conn of
              None \<Rightarrow> DoResolve (l\<lparr>resolving := False\<rparr>)
            | Some w \<Rightarrow>
                l\<lparr>socket_open := False,
                  session_ptr := Some (Session_Run ops (fst (remote_endpoint l)) (WebsocketSession w))\<rparr>))"

text \<open>\<open>GetSession\<close> makes up a session on an unconnected socket when there is none.\<close>

definition GetSession :: "'w ws_ops \<Rightarrow> 'w listener \<Rightarrow> 'w session \<times> 'w listener" where
  "GetSession ops l =
     (case session_ptr l of
        Some s \<Rightarrow> (s, l)
      | None \<Rightarrow> let s = WebsocketSession (unconnected ops) in (s, l\<lparr>session_ptr := Some s\<rparr>))"

section \<open>The broker\<close>

definition MakeEndpoint :: "'w ws_ops \<Rightarrow> string \<Rightarrow> int \<Rightarrow> endpoint option" where
  "MakeEndpoint ops address port =
     map_option (\<lambda>ip. (ip, to_ushort port)) (make_address ops (c_str address))"

definition GetContext :: "'w ws_ops \<Rightarrow> string \<Rightarrow> int \<Rightarrow> 'w broker \<Rightarrow> 'w listener_context option option" where
  "GetContext ops address port b = do {
     ep \<leftarrow> MakeEndpoint ops address port;
     Some (contexts b ep) }"

definition ListenerContext :: "int \<Rightarrow> endpoint \<Rightarrow> 'w listener_context" where
  "ListenerContext threads ep = \<lparr>ioc = threads, listener_ptr = WebsocketListener ep, thread_list = 0, exit_signal = False\<rparr>"

text \<open>The inner option is the pointer: \<open>None\<close> when the endpoint had a context already.\<close>

definition MakeContext ::
  "'w ws_ops \<Rightarrow> string \<Rightarrow> int \<Rightarrow> int \<Rightarrow> 'w broker \<Rightarrow> ('w listener_context option \<times> 'w broker) option" where
  "MakeContext ops address port threads b = do {
     ep \<leftarrow> MakeEndpoint ops address port;
     let threads = max 1 threads;
     Some (case contexts b ep of
             Some c \<Rightarrow> (None, b)
           | None \<Rightarrow>
               let c = ListenerContext threads ep
               in (Some c, b\<lparr>contexts := (contexts b)(ep \<mapsto> c)\<rparr>)) }"

text \<open>A write through the pointer or reference the code holds into the map.\<close>

definition put_context :: "endpoint \<Rightarrow> 'w listener_context \<Rightarrow> 'w broker \<Rightarrow> 'w broker" where
  "put_context ep c b = b\<lparr>contexts := (contexts b)(ep \<mapsto> c)\<rparr>"

definition put_session :: "endpoint \<Rightarrow> 'w listener_context \<Rightarrow> 'w session \<Rightarrow> 'w broker \<Rightarrow> 'w broker" where
  "put_session ep c s b =
     put_context ep (c\<lparr>listener_ptr := (listener_ptr c)\<lparr>session_ptr := Some s\<rparr>\<rparr>) b"

text \<open>The threads have ended when \<open>join\<close> returns, and the context is destroyed with its map entry.\<close>

definition CloseConnection ::
  "'w ws_ops \<Rightarrow> string \<Rightarrow> int \<Rightarrow> 'w broker \<Rightarrow> (int \<times> 'w broker) option" where
  "CloseConnection ops address port b = do {
     ep \<leftarrow> MakeEndpoint ops address port;
     Some (case contexts b ep of
             None \<Rightarrow> (NO_CONNECTION, b)
           | Some c \<Rightarrow>
               let c = c\<lparr>exit_signal := True\<rparr>;
                   c = c\<lparr>listener_ptr := Stop ops (listener_ptr c)\<rparr>;
                   c = c\<lparr>thread_list := 0\<rparr>;
                   b = put_context ep c b
               in (SUCCESS, b\<lparr>contexts := (contexts b)(ep := None),
                              msg_queue := (msg_queue b)(ep := None)\<rparr>)) }"

definition OpenConnection ::
  "'w ws_ops \<Rightarrow> string \<Rightarrow> int \<Rightarrow> int \<Rightarrow> 'w broker \<Rightarrow> (int \<times> 'w broker) option" where
  "OpenConnection ops address port threads b = do {
     found \<leftarrow> GetContext ops address port b;
     (r, b1) \<leftarrow> (if found \<noteq> None then CloseConnection ops address port b else Some (SUCCESS, b));
     (made, b2) \<leftarrow> MakeContext ops address port threads b1;
     case made of
       None \<Rightarrow> Some (ALREADY_EXISTS, b2)
     | Some c \<Rightarrow> do {
         ep \<leftarrow> MakeEndpoint ops address port;
         let c = c\<lparr>listener_ptr := Listener_Run (listener_ptr c)\<rparr>;
         let c = c\<lparr>thread_list := thread_list c + nat (if threads \<noteq> 0 then threads else 1)\<rparr>;
         Some (SUCCESS, put_context ep c b2) } }"

text \<open>The pending messages of an endpoint, as \<open>msg_queue[endpoint]\<close> delivers them.\<close>

definition pending :: "endpoint \<Rightarrow> 'w broker \<Rightarrow> string list" where
  "pending ep b = (case msg_queue b ep of None \<Rightarrow> [] | Some q \<Rightarrow> q)"

definition Send ::
  "'w ws_ops \<Rightarrow> string \<Rightarrow> int \<Rightarrow> string \<Rightarrow> 'w broker \<Rightarrow> (response_type \<times> 'w broker) option" where
  "Send ops address port sData b = do {
     found \<leftarrow> GetContext ops address port b;
     case found of
       None \<Rightarrow> Some (([], NO_CONNECTION), b)
     | Some c \<Rightarrow> do {
         ep \<leftarrow> MakeEndpoint ops address port;
         let (s, l) = GetSession ops (listener_ptr c);
         let c = c\<lparr>listener_ptr := l\<rparr>;
         if IsOpen ops s then
           let (result, s) = Write ops sData s;
               (msg, s) = GetMessage s
           in Some ((msg, result), put_session ep c s b)
         else
           Some (([], WRITE_FAILURE),
             (put_context ep c b)\<lparr>msg_queue := (msg_queue b)(ep \<mapsto> pending ep b @ [sData])\<rparr>) } }"

text \<open>The loop of \<open>FlushPendingMsg\<close>: what is left of the queue and the session after the writes.\<close>

fun flush_loop :: "'w ws_ops \<Rightarrow> string list \<Rightarrow> 'w session \<Rightarrow> string list \<times> 'w session" where
  "flush_loop ops [] s = ([], s)"
| "flush_loop ops (msg # unpr_msg) s =
     (case Write ops msg s of
        (r, s1) \<Rightarrow> if SUCCESS \<noteq> r then (msg # unpr_msg, s1) else flush_loop ops unpr_msg s1)"

definition FlushPendingMsg :: "'w ws_ops \<Rightarrow> endpoint \<Rightarrow> 'w listener_context \<Rightarrow> 'w broker \<Rightarrow> 'w listener_context \<times> 'w broker" where
  "FlushPendingMsg ops ep c b =
     (let unpr_msg = pending ep b;
          b = b\<lparr>msg_queue := (msg_queue b)(ep \<mapsto> unpr_msg)\<rparr>
      in if unpr_msg = [] then (c, b)
         else
           let (s, l) = GetSession ops (listener_ptr c);
               c = c\<lparr>listener_ptr := l\<rparr>
           in if \<not> IsOpen ops s then (c, put_context ep c b)
              else
                let (rest, s) = flush_loop ops unpr_msg s;
                    c = c\<lparr>listener_ptr := (listener_ptr c)\<lparr>session_ptr := Some s\<rparr>\<rparr>
                in (c, (put_context ep c b)\<lparr>msg_queue := (msg_queue b)(ep \<mapsto> rest)\<rparr>))"

definition Receive ::
  "'w ws_ops \<Rightarrow> string \<Rightarrow> int \<Rightarrow> 'w broker \<Rightarrow> (response_type \<times> 'w broker) option" where
  "Receive ops address port b = do {
     found \<leftarrow> GetContext ops address port b;
     case found of
       None \<Rightarrow> Some (([], NO_CONNECTION), b)
     | Some c \<Rightarrow> do {
         ep \<leftarrow> MakeEndpoint ops address port;
         let (c, b) = FlushPendingMsg ops ep c b;
         let (s, l) = GetSession ops (listener_ptr c);
         let (msg, s) = GetMessage s;
         Some ((msg, SUCCESS), put_session ep (c\<lparr>listener_ptr := l\<rparr>) s b) } }"

section \<open>Remote procedures\<close>

text \<open>\<open>CheckError\<close>: the error object it sends through \<open>respond_error\<close>, which leaves the functor.\<close>

definition CheckError :: "'w ws_ops \<Rightarrow> int \<Rightarrow> response_type option" where
  "CheckError ops res =
     (if SUCCESS = res then None
      else Some
        (if res = PATH_NOT_FOUND then ''Connection not found''
         else if res = READ_FAILURE then ''Reading failure''
         else if res = WRITE_FAILURE then ''Writing failure''
         else if res = CLOSE_FAILURE then ''Closing failure''
         else if res = ALREADY_EXISTS then ''Channel already exists''
         else strerror ops res, res))"

definition endpoint_args :: "lexical_cast \<Rightarrow> parameter_type list \<Rightarrow> (string \<times> int) option" where
  "endpoint_args lc ps =
     (let a = GetValue STRING_T (cast_string lc) (ps ! 0);
          p = GetValue INT_T (cast_int lc) (ps ! 1)
      in if IsAllValid [a \<noteq> None, p \<noteq> None] then Some (the a, the p) else None)"

definition send_args :: "lexical_cast \<Rightarrow> parameter_type list \<Rightarrow> (string \<times> int \<times> string) option" where
  "send_args lc ps =
     (let a = GetValue STRING_T (cast_string lc) (ps ! 0);
          p = GetValue INT_T (cast_int lc) (ps ! 1);
          d = GetValue STRING_T (cast_string lc) (ps ! 2)
      in if IsAllValid [a \<noteq> None, p \<noteq> None, d \<noteq> None] then Some (the a, the p, the d) else None)"

text \<open>An exception, from an address that does not parse, leaves the broker as it was.\<close>

definition reply_checked ::
  "'w ws_ops \<Rightarrow> 'w broker \<Rightarrow> (int \<times> 'w broker) option \<Rightarrow> outcome \<times> 'w broker" where
  "reply_checked ops b result =
     (case result of
        None \<Rightarrow> (Thrown, b)
      | Some (res, b1) \<Rightarrow>
          (case CheckError ops res of
             Some err_obj \<Rightarrow> (ErrorReply err_obj, b1)
           | None \<Rightarrow> (Reply ([], res), b1)))"

definition reply_result ::
  "'w broker \<Rightarrow> (response_type \<times> 'w broker) option \<Rightarrow> outcome \<times> 'w broker" where
  "reply_result b result =
     (case result of None \<Rightarrow> (Thrown, b) | Some (r, b1) \<Rightarrow> (Reply r, b1))"

type_synonym 'w broker_handler =
  "lexical_cast \<Rightarrow> 'w ws_ops \<Rightarrow> 'w broker \<Rightarrow> parameter_type list \<Rightarrow> outcome \<times> 'w broker"

definition handle_open :: "'w broker_handler" where
  "handle_open lc ops = checked 2 (endpoint_args lc) (\<lambda>(address, port) b.
     reply_checked ops b (OpenConnection ops address port 2 b))"

definition handle_close :: "'w broker_handler" where
  "handle_close lc ops = checked 2 (endpoint_args lc) (\<lambda>(address, port) b.
     reply_checked ops b (CloseConnection ops address port b))"

definition handle_send :: "'w broker_handler" where
  "handle_send lc ops = checked 3 (send_args lc) (\<lambda>(address, port, data) b.
     reply_result b (Send ops address port data b))"

definition handle_receive :: "'w broker_handler" where
  "handle_receive lc ops = checked 2 (endpoint_args lc) (\<lambda>(address, port) b.
     reply_result b (Receive ops address port b))"

definition MessageBroker_Bind ::
  "lexical_cast \<Rightarrow> 'w ws_ops \<Rightarrow> (string \<times> ('w broker \<Rightarrow> parameter_type list \<Rightarrow> outcome \<times> 'w broker)) list" where
  "MessageBroker_Bind lc ops =
     [(open_handle, handle_open lc ops), (close_handle, handle_close lc ops),
      (send_name, handle_send lc ops), (receive_name, handle_receive lc ops)]"

definition MessageBroker_PluginName :: string where
  "MessageBroker_PluginName = ''RemoteMessageBroker''"

text \<open>The broker when the plugin is created.\<close>

definition MessageBroker :: "'w broker" where
  "MessageBroker = \<lparr>contexts = Map.empty, msg_queue = Map.empty\<rparr>"

text \<open>The destructor closes the connections in the order of the map, \<open>eps\<close>. \<open>None\<close> stands for a program
  that has no defined behaviour: an exception that leaves the destructor, or the step of the loop's
  iterator when \<open>CloseConnection\<close> has erased the entry it is at.\<close>

fun delete_MessageBroker :: "'w ws_ops \<Rightarrow> endpoint list \<Rightarrow> 'w broker \<Rightarrow> 'w broker option" where
  "delete_MessageBroker ops [] b = Some b"
| "delete_MessageBroker ops (ep # eps) b = do {
     (code, b') \<leftarrow> CloseConnection ops (fst ep) (snd ep) b;
     if contexts b' ep = None then None else delete_MessageBroker ops eps b' }"

section \<open>The I/O threads\<close>

text \<open>What an I/O thread does when a lookup completes and when a read completes; the stream has
  appended \<open>data\<close> to the buffer of the session.\<close>

definition io_resolve ::
  "'w ws_ops \<Rightarrow> endpoint \<Rightarrow> bool \<Rightarrow> 'w option \<Rightarrow> 'w broker \<Rightarrow> 'w broker" where
  "io_resolve ops ep ec conn b =
     (case contexts b ep of
        Some c \<Rightarrow>
          if resolving (listener_ptr c)
          then put_context ep (c\<lparr>listener_ptr := OnResolve ops ec conn (listener_ptr c)\<rparr>) b else b
      | None \<Rightarrow> b)"

definition read_completes :: "bool \<Rightarrow> string \<Rightarrow> 'w session \<Rightarrow> 'w session" where
  "read_completes ec data s = OnRead ec (s\<lparr>read_buffer := read_buffer s @ data\<rparr>)"

definition io_read :: "endpoint \<Rightarrow> bool \<Rightarrow> string \<Rightarrow> 'w broker \<Rightarrow> 'w broker" where
  "io_read ep ec data b =
     (case contexts b ep of
        None \<Rightarrow> b
      | Some c \<Rightarrow>
          (case session_ptr (listener_ptr c) of
             None \<Rightarrow> b
           | Some s \<Rightarrow> if reading s then put_session ep c (read_completes ec data s) b else b))"

text \<open>Remote procedures run on one worker thread, completions on the threads of the context: a run
  of the broker is any interleaving of both. An exception ends the procedure without effect.\<close>

datatype 'w event =
    Rpc_open string int
  | Rpc_close string int
  | Rpc_send string int string
  | Rpc_receive string int
  | Io_resolve endpoint bool "'w option"
  | Io_read endpoint bool string

inductive broker_step :: "'w ws_ops \<Rightarrow> 'w broker \<Rightarrow> 'w event \<Rightarrow> 'w broker \<Rightarrow> bool" for ops where
  step_open: "OpenConnection ops a p 2 b = Some (r, b') \<Longrightarrow> broker_step ops b (Rpc_open a p) b'"
| step_close: "CloseConnection ops a p b = Some (r, b') \<Longrightarrow> broker_step ops b (Rpc_close a p) b'"
| step_send: "Send ops a p d b = Some (r, b') \<Longrightarrow> broker_step ops b (Rpc_send a p d) b'"
| step_receive: "Receive ops a p b = Some (r, b') \<Longrightarrow> broker_step ops b (Rpc_receive a p) b'"
| step_resolve: "broker_step ops b (Io_resolve ep ec conn) (io_resolve ops ep ec conn b)"
| step_read: "broker_step ops b (Io_read ep ec data) (io_read ep ec data b)"

inductive_cases broker_stepE: "broker_step ops b ev b'"

inductive broker_reachable :: "'w ws_ops \<Rightarrow> 'w broker \<Rightarrow> bool" for ops where
  reach_start: "broker_reachable ops MessageBroker"
| reach_step: "broker_reachable ops b \<Longrightarrow> broker_step ops b ev b' \<Longrightarrow> broker_reachable ops b'"

section \<open>Operations at an endpoint\<close>

lemmas [broker_defs] =
  WebsocketSession_def AsyncRead_def Session_Run_def OnRead_def WebsocketListener_def DoResolve_def
  Listener_Run_def ListenerContext_def put_context_def put_session_def

lemma contexts_put [simp]:
  "contexts (put_context ep c b) = (contexts b)(ep \<mapsto> c)" "msg_queue (put_context ep c b) = msg_queue b"
  "contexts (put_session ep c s b) =
     (contexts b)(ep \<mapsto> c\<lparr>listener_ptr := (listener_ptr c)\<lparr>session_ptr := Some s\<rparr>\<rparr>)"
  "msg_queue (put_session ep c s b) = msg_queue b"
  by (simp_all add: put_context_def put_session_def)

text \<open>The context \<open>OpenConnection\<close> leaves: a listener that resolves, two threads, no session.\<close>

definition fresh_context :: "endpoint \<Rightarrow> 'w listener_context" where
  "fresh_context ep = \<lparr>ioc = 2,
     listener_ptr = \<lparr>socket_open = False, resolving = True, remote_endpoint = ep, session_ptr = None\<rparr>,
     thread_list = 2, exit_signal = False \<rparr>"

lemma OpenConnection_at:
  assumes "MakeEndpoint ops a p = Some ep"
  shows "OpenConnection ops a p 2 b =
     Some (SUCCESS, b\<lparr>contexts := (contexts b)(ep \<mapsto> fresh_context ep),
                      msg_queue := (if contexts b ep = None then msg_queue b
                                    else (msg_queue b)(ep := None))\<rparr>)"
  using assms
  by (cases "contexts b ep")
    (simp_all add: OpenConnection_def GetContext_def MakeContext_def CloseConnection_def Let_def
      fresh_context_def broker_defs numeral_2_eq_2 broker.equality)

lemma OpenConnection_invalid: "MakeEndpoint ops a p = None \<Longrightarrow> OpenConnection ops a p n b = None"
  by (simp add: OpenConnection_def GetContext_def)

lemma CloseConnection_invalid: "MakeEndpoint ops a p = None \<Longrightarrow> CloseConnection ops a p b = None"
  by (simp add: CloseConnection_def)

lemma CloseConnection_at:
  assumes "MakeEndpoint ops a p = Some ep"
  shows "CloseConnection ops a p b =
     Some (if contexts b ep = None then (NO_CONNECTION, b)
           else (SUCCESS, b\<lparr>contexts := (contexts b)(ep := None), msg_queue := (msg_queue b)(ep := None)\<rparr>))"
  using assms by (cases "contexts b ep") (simp_all add: CloseConnection_def Let_def put_context_def)

lemma Send_none:
  "MakeEndpoint ops a p = Some ep \<Longrightarrow> contexts b ep = None \<Longrightarrow>
     Send ops a p d b = Some (([], NO_CONNECTION), b)"
  "MakeEndpoint ops a p = Some ep \<Longrightarrow> contexts b ep = None \<Longrightarrow>
     Receive ops a p b = Some (([], NO_CONNECTION), b)"
  by (simp_all add: Send_def Receive_def GetContext_def)

text \<open>The session a context hands out, real or made up.\<close>

definition the_session :: "'w ws_ops \<Rightarrow> 'w listener_context \<Rightarrow> 'w session" where
  "the_session ops c = fst (GetSession ops (listener_ptr c))"

definition with_session :: "'w session \<Rightarrow> 'w listener_context \<Rightarrow> 'w listener_context" where
  "with_session s c = c\<lparr>listener_ptr := (listener_ptr c)\<lparr>session_ptr := Some s\<rparr>\<rparr>"

lemma GetSession_eq:
  "GetSession ops (listener_ptr c) = (the_session ops c, listener_ptr (with_session (the_session ops c) c))"
  by (cases "session_ptr (listener_ptr c)") (simp_all add: GetSession_def the_session_def with_session_def Let_def)

lemma with_session_simps [simp]:
  "session_ptr (listener_ptr (with_session s c)) = Some s"
  "the_session ops (with_session s c) = s"
  "with_session s (with_session t c) = with_session s c"
  "resolving (listener_ptr (with_session s c)) = resolving (listener_ptr c)"
  "remote_endpoint (listener_ptr (with_session s c)) = remote_endpoint (listener_ptr c)"
  "socket_open (listener_ptr (with_session s c)) = socket_open (listener_ptr c)"
  "thread_list (with_session s c) = thread_list c" "exit_signal (with_session s c) = exit_signal c"
  by (simp_all add: with_session_def the_session_def GetSession_def)

lemma put_session_eq: "put_session ep c s b = put_context ep (with_session s c) b"
  by (simp add: put_session_def with_session_def)

lemma with_listener:
  "c\<lparr>listener_ptr := listener_ptr (with_session s c)\<rparr> = with_session s c"
  "c\<lparr>listener_ptr := (listener_ptr (with_session t c))\<lparr>session_ptr := Some s\<rparr>\<rparr> = with_session s c"
  by (simp_all add: with_session_def)

lemma Send_open:
  assumes "MakeEndpoint ops a p = Some ep" "contexts b ep = Some c" "IsOpen ops (the_session ops c)"
  shows "Send ops a p d b =
     (let (r, s) = Write ops d (the_session ops c); (m, s) = GetMessage s
      in Some ((m, r), put_context ep (with_session s c) b))"
  using assms
  by (simp add: Send_def GetContext_def GetSession_eq Let_def put_session_eq with_listener split: prod.splits)

lemma Send_closed:
  assumes "MakeEndpoint ops a p = Some ep" "contexts b ep = Some c" "\<not> IsOpen ops (the_session ops c)"
  shows "Send ops a p d b = Some (([], WRITE_FAILURE),
     (put_context ep (with_session (the_session ops c) c) b)
       \<lparr>msg_queue := (msg_queue b)(ep \<mapsto> pending ep b @ [d])\<rparr>)"
  using assms by (simp add: Send_def GetContext_def GetSession_eq Let_def with_listener)

text \<open>What \<open>Receive\<close> does at an endpoint: flush when the session is open, then take a message.\<close>

definition flushed :: "'w ws_ops \<Rightarrow> string list \<Rightarrow> 'w session \<Rightarrow> string list \<times> 'w session" where
  "flushed ops q s = (if IsOpen ops s then flush_loop ops q s else (q, s))"

lemma Receive_at:
  assumes "MakeEndpoint ops a p = Some ep" "contexts b ep = Some c"
  shows "Receive ops a p b =
     (let (rest, s) = flushed ops (pending ep b) (the_session ops c); (m, s) = GetMessage s
      in Some ((m, SUCCESS),
           b\<lparr>contexts := (contexts b)(ep \<mapsto> with_session s c), msg_queue := (msg_queue b)(ep \<mapsto> rest)\<rparr>))"
proof -
  have u: "b\<lparr>msg_queue := q, contexts := m\<rparr> = b\<lparr>contexts := m, msg_queue := q\<rparr>" for q m
    by simp
  show ?thesis
    using assms
    by (simp add: Receive_def GetContext_def FlushPendingMsg_def GetSession_eq flushed_def put_session_eq
        with_listener put_context_def with_session_def [symmetric] u Let_def case_prod_beta)
qed

section \<open>Invariant\<close>

text \<open>No queue holds an empty message and a session that waits for data has an empty buffer; every
  context belongs to its key, has its two threads and no exit signal; pending messages exist only
  for endpoints that have a context.\<close>

definition session_ok :: "'w session \<Rightarrow> bool" where
  "session_ok s \<longleftrightarrow> [] \<notin> set (received s) \<and> (reading s \<longrightarrow> read_buffer s = [])"

definition context_ok :: "endpoint \<Rightarrow> 'w listener_context \<Rightarrow> bool" where
  "context_ok ep c \<longleftrightarrow> remote_endpoint (listener_ptr c) = ep \<and> thread_list c = 2 \<and> \<not> exit_signal c \<and>
     (\<forall>s. session_ptr (listener_ptr c) = Some s \<longrightarrow> session_ok s)"

definition broker_inv :: "'w broker \<Rightarrow> bool" where
  "broker_inv b \<longleftrightarrow>
     (\<forall>ep. contexts b ep = None \<longrightarrow> msg_queue b ep = None) \<and> (\<forall>ep c. contexts b ep = Some c \<longrightarrow> context_ok ep c)"

lemma Write_keeps [simp]:
  "received (snd (Write ops d s)) = received s" "reading (snd (Write ops d s)) = reading s"
  "read_buffer (snd (Write ops d s)) = read_buffer s"
  by (simp_all add: Write_def Let_def split: prod.splits)

lemma flush_loop_keeps [simp]:
  "received (snd (flush_loop ops q s)) = received s" "reading (snd (flush_loop ops q s)) = reading s"
  "read_buffer (snd (flush_loop ops q s)) = read_buffer s"
proof (induction q arbitrary: s)
  case (Cons m q)
  { case 1 show ?case using Cons.IH(1) [of "snd (Write ops m s)"] by (simp add: case_prod_beta) }
  { case 2 show ?case using Cons.IH(2) [of "snd (Write ops m s)"] by (simp add: case_prod_beta) }
  { case 3 show ?case using Cons.IH(3) [of "snd (Write ops m s)"] by (simp add: case_prod_beta) }
qed simp_all

lemma flushed_keeps [simp]:
  "received (snd (flushed ops q s)) = received s" "reading (snd (flushed ops q s)) = reading s"
  "read_buffer (snd (flushed ops q s)) = read_buffer s"
  by (simp_all add: flushed_def)

lemma GetMessage_eq:
  "GetMessage s =
     (case received s of [] \<Rightarrow> ([], s) | m # rest \<Rightarrow> (m, s\<lparr>received := rest\<rparr>))"
  by (simp add: GetMessage_def take_front_def split: list.splits)

lemma GetMessage_keeps [simp]:
  "reading (snd (GetMessage s)) = reading s" "read_buffer (snd (GetMessage s)) = read_buffer s"
  "received (snd (GetMessage s)) = tl (received s)" "wsock (snd (GetMessage s)) = wsock s"
  by (simp_all add: GetMessage_eq split: list.splits)

lemma tl_notin: "x \<notin> set xs \<Longrightarrow> x \<notin> set (tl xs)"
  by (cases xs) simp_all

lemma session_ok_ops:
  "session_ok s \<Longrightarrow> session_ok (snd (Write ops d s))"
  "session_ok s \<Longrightarrow> session_ok (snd (flushed ops q s))"
  "session_ok s \<Longrightarrow> session_ok (snd (GetMessage s))"
  "session_ok s \<Longrightarrow> reading s \<Longrightarrow> session_ok (read_completes ec data s)"
  "session_ok (Session_Run ops h (WebsocketSession w))" "session_ok (WebsocketSession w)"
  by (auto simp: session_ok_def read_completes_def Let_def broker_defs tl_notin)

lemma context_ok_with_session:
  "context_ok ep c \<Longrightarrow> session_ok s \<Longrightarrow> context_ok ep (with_session s c)"
  by (simp add: context_ok_def)

lemma session_ok_the_session: "context_ok ep c \<Longrightarrow> session_ok (the_session ops c)"
  by (auto simp: context_ok_def the_session_def GetSession_def Let_def session_ok_ops split: option.splits)

lemma broker_inv_context: "broker_inv b \<Longrightarrow> contexts b ep = Some c \<Longrightarrow> context_ok ep c"
  unfolding broker_inv_def by blast

lemma broker_inv_put_context:
  "broker_inv b \<Longrightarrow> context_ok ep c \<Longrightarrow> broker_inv (put_context ep c b)"
  by (auto simp: broker_inv_def)

lemma broker_inv_update:
  assumes "broker_inv b" "context_ok ep c"
  shows "broker_inv (b\<lparr>contexts := (contexts b)(ep \<mapsto> c), msg_queue := (msg_queue b)(ep \<mapsto> q)\<rparr>)"
  using assms by (auto simp: broker_inv_def)

lemma broker_inv_Open:
  "broker_inv b \<Longrightarrow> OpenConnection ops a p 2 b = Some (r, b') \<Longrightarrow> broker_inv b'"
  by (cases "MakeEndpoint ops a p")
    (auto simp: OpenConnection_at OpenConnection_invalid broker_inv_def context_ok_def fresh_context_def
      split: if_splits)

lemma broker_inv_Close:
  "broker_inv b \<Longrightarrow> CloseConnection ops a p b = Some (r, b') \<Longrightarrow> broker_inv b'"
  by (cases "MakeEndpoint ops a p")
    (auto simp: CloseConnection_at CloseConnection_invalid broker_inv_def split: if_splits)

lemma broker_inv_Send:
  assumes "broker_inv b" "Send ops a p d b = Some (r, b')"
  shows "broker_inv b'"
proof -
  obtain ep where ep: "MakeEndpoint ops a p = Some ep"
    using assms(2) by (auto simp: Send_def GetContext_def bind_eq_Some_conv)
  show ?thesis
  proof (cases "contexts b ep")
    case None
    with assms Send_none(1) [OF ep None, of d] show ?thesis by simp
  next
    case (Some c)
    with assms(1) have c: "context_ok ep c" by (rule broker_inv_context)
    then have s: "session_ok (the_session ops c)" by (rule session_ok_the_session)
    show ?thesis
    proof (cases "IsOpen ops (the_session ops c)")
      case True
      with assms Send_open [OF ep Some True, of d] c s show ?thesis
        by (auto simp: Let_def case_prod_beta
            intro!: broker_inv_put_context context_ok_with_session session_ok_ops)
    next
      case False
      with assms Send_closed [OF ep Some False, of d]
        broker_inv_update [OF assms(1) context_ok_with_session [OF c s]] show ?thesis
        by (auto simp: put_context_def)
    qed
  qed
qed

lemma broker_inv_Receive:
  assumes "broker_inv b" "Receive ops a p b = Some (r, b')"
  shows "broker_inv b'"
proof -
  obtain ep where ep: "MakeEndpoint ops a p = Some ep"
    using assms(2) by (auto simp: Receive_def GetContext_def bind_eq_Some_conv)
  show ?thesis
  proof (cases "contexts b ep")
    case None
    with assms Send_none(2) [OF ep None] show ?thesis by simp
  next
    case (Some c)
    with assms(1) have c: "context_ok ep c" by (rule broker_inv_context)
    then have "session_ok (the_session ops c)" by (rule session_ok_the_session)
    with assms Receive_at [OF ep Some] c show ?thesis
      by (auto simp: Let_def case_prod_beta
          intro!: broker_inv_update context_ok_with_session session_ok_ops)
  qed
qed

lemma broker_inv_io:
  assumes "broker_inv b"
  shows "broker_inv (io_resolve ops ep ec conn b)" "broker_inv (io_read ep ec data b)"
proof -
  have ok: "context_ok ep c" if "contexts b ep = Some c" for c
    using assms that by (rule broker_inv_context)
  then show "broker_inv (io_resolve ops ep ec conn b)"
    using assms session_ok_ops(5)
    by (auto simp: io_resolve_def OnResolve_def DoResolve_def Let_def context_ok_def
        intro!: broker_inv_put_context split: option.splits)
  from ok show "broker_inv (io_read ep ec data b)"
    using assms
    by (auto simp: io_read_def put_session_eq intro!: broker_inv_put_context context_ok_with_session
        session_ok_ops(4) split: option.splits) (auto simp: context_ok_def)
qed

lemma broker_step_inv: "broker_step ops b ev b' \<Longrightarrow> broker_inv b \<Longrightarrow> broker_inv b'"
  by (induction rule: broker_step.induct)
    (auto intro: broker_inv_Open broker_inv_Close broker_inv_Send broker_inv_Receive broker_inv_io)

lemma broker_reachable_inv: "broker_reachable ops b \<Longrightarrow> broker_inv b"
proof (induction rule: broker_reachable.induct)
  case reach_start
  then show ?case by (simp add: broker_inv_def MessageBroker_def)
next
  case (reach_step b ev b')
  then show ?case using broker_step_inv by blast
qed

section \<open>Queues of received messages\<close>

text \<open>The client takes the empty text for \<open>no message\<close>.\<close>

definition message_or_none :: "string \<Rightarrow> string option" where
  "message_or_none m = (if m = [] then None else Some m)"

definition session_pop :: "'w session \<Rightarrow> string option \<times> 'w session" where
  "session_pop s = (case GetMessage s of (m, s1) \<Rightarrow> (message_or_none m, s1))"

interpretation session_queue: fifo received "read_completes False" session_pop "\<lambda>m. m \<noteq> []"
    "\<lambda>s. session_ok s \<and> reading s"
  by unfold_locales
    (auto simp: session_pop_def message_or_none_def GetMessage_eq session_ok_def read_completes_def
      Let_def broker_defs split: list.splits)

text \<open>The messages waiting at an endpoint, and the messages a client gets through \<open>Receive\<close>.\<close>

definition session_at :: "endpoint \<Rightarrow> 'w broker \<Rightarrow> 'w session option" where
  "session_at ep b = Option.bind (contexts b ep) (\<lambda>c. session_ptr (listener_ptr c))"

definition waiting :: "endpoint \<Rightarrow> 'w broker \<Rightarrow> string list" where
  "waiting ep b = (case session_at ep b of None \<Rightarrow> [] | Some s \<Rightarrow> received s)"

definition connected :: "endpoint \<Rightarrow> 'w broker \<Rightarrow> bool" where
  "connected ep b = (case session_at ep b of None \<Rightarrow> False | Some s \<Rightarrow> reading s)"

definition receive_pop :: "'w ws_ops \<Rightarrow> string \<Rightarrow> int \<Rightarrow> 'w broker \<Rightarrow> string option \<times> 'w broker" where
  "receive_pop ops a p b =
     (case Receive ops a p b of
        None \<Rightarrow> (None, b) | Some ((m, r), b1) \<Rightarrow> (message_or_none m, b1))"

lemma session_at_Some:
  "session_at ep b = Some s \<longleftrightarrow> (\<exists>c. contexts b ep = Some c \<and> session_ptr (listener_ptr c) = Some s)"
  by (auto simp: session_at_def bind_eq_Some_conv)

lemma session_at_ok: "broker_inv b \<Longrightarrow> session_at ep b = Some s \<Longrightarrow> session_ok s"
  by (auto simp: session_at_Some context_ok_def dest: broker_inv_context)

lemma io_read_at:
  assumes "session_at ep b = Some s" "reading s"
  shows "session_at ep (io_read ep ec d b) = Some (read_completes ec d s)"
  using assms by (auto simp: session_at_Some io_read_def)

lemma Receive_session:
  assumes "MakeEndpoint ops a p = Some ep" "session_at ep b = Some s"
  shows "\<exists>b'. Receive ops a p b =
       Some ((fst (GetMessage (snd (flushed ops (pending ep b) s))), SUCCESS), b') \<and>
     session_at ep b' = Some (snd (GetMessage (snd (flushed ops (pending ep b) s)))) \<and>
     pending ep b' = fst (flushed ops (pending ep b) s)"
proof -
  obtain c where c: "contexts b ep = Some c" "session_ptr (listener_ptr c) = Some s"
    using assms(2) by (auto simp: session_at_Some)
  then have "the_session ops c = s" by (simp add: the_session_def GetSession_def)
  with Receive_at [OF assms(1) c(1)] show ?thesis
    by (simp add: Let_def case_prod_beta session_at_Some pending_def)
qed

lemma fst_GetMessage: "fst (GetMessage s) = (case received s of [] \<Rightarrow> [] | m # rest \<Rightarrow> m)"
  by (simp add: GetMessage_eq split: list.splits)

lemma receive_pop_session:
  assumes "MakeEndpoint ops a p = Some ep" "session_at ep b = Some s"
  shows "fst (receive_pop ops a p b) = message_or_none (case received s of [] \<Rightarrow> [] | m # rest \<Rightarrow> m)"
    and "waiting ep (snd (receive_pop ops a p b)) = tl (received s)"
    and "connected ep (snd (receive_pop ops a p b)) = reading s"
  using Receive_session [OF assms]
  by (auto simp: receive_pop_def waiting_def connected_def fst_GetMessage)

definition receiving :: "'w ws_ops \<Rightarrow> string \<Rightarrow> int \<Rightarrow> endpoint \<Rightarrow> 'w broker \<Rightarrow> bool" where
  "receiving ops a p ep b \<longleftrightarrow> MakeEndpoint ops a p = Some ep \<and> broker_inv b \<and> connected ep b"

lemma receivingE:
  assumes "receiving ops a p ep b"
  obtains s where "session_at ep b = Some s" "reading s" "session_ok s" "waiting ep b = received s"
    "MakeEndpoint ops a p = Some ep" "broker_inv b"
  using assms session_at_ok [of b ep]
  by (auto simp: receiving_def connected_def waiting_def split: option.splits)

lemma receiving_pop: "receiving ops a p ep b \<Longrightarrow> receiving ops a p ep (snd (receive_pop ops a p b))"
proof (elim receivingE)
  fix s assume s: "session_at ep b = Some s" "reading s" "MakeEndpoint ops a p = Some ep" "broker_inv b"
  then obtain b' r where "Receive ops a p b = Some (r, b')" using Receive_session by blast
  with s(4) have "broker_inv (snd (receive_pop ops a p b))"
    by (auto simp: receive_pop_def broker_inv_Receive split: prod.splits)
  with s receive_pop_session(3) [OF s(3,1)] show ?thesis by (simp add: receiving_def)
qed

lemma receiving_push:
  assumes "receiving ops a p ep b"
  shows "receiving ops a p ep (io_read ep False d b)"
    and "d \<noteq> [] \<Longrightarrow> waiting ep (io_read ep False d b) = waiting ep b @ [d]"
proof -
  obtain s where s: "session_at ep b = Some s" "reading s" "session_ok s" "waiting ep b = received s"
      "MakeEndpoint ops a p = Some ep" "broker_inv b"
    using assms by (rule receivingE)
  note r = io_read_at [OF s(1,2), of False d]
  have "reading (read_completes False d s)" by (simp add: read_completes_def Let_def broker_defs)
  with s r broker_inv_io(2) [OF s(6)] show "receiving ops a p ep (io_read ep False d b)"
    by (simp add: receiving_def connected_def)
  assume "d \<noteq> []"
  with s r session_queue.push_items [of s d] show "waiting ep (io_read ep False d b) = waiting ep b @ [d]"
    by (simp add: waiting_def)
qed

interpretation broker_queue: fifo "waiting ep" "io_read ep False" "receive_pop ops a p" "\<lambda>m. m \<noteq> []"
    "receiving ops a p ep" for ops a p ep
proof
  fix b
  assume inv: "receiving ops a p ep b"
  then obtain s where s: "session_at ep b = Some s" "session_ok s" "waiting ep b = received s"
      "MakeEndpoint ops a p = Some ep"
    by (rule receivingE)
  note pop = receive_pop_session [OF s(4,1)]
  show "receiving ops a p ep (snd (receive_pop ops a p b))" using inv by (rule receiving_pop)
  show "fst (receive_pop ops a p b) = None \<and> waiting ep (snd (receive_pop ops a p b)) = []"
    if "waiting ep b = []"
    using that s pop by (simp add: message_or_none_def)
  show "fst (receive_pop ops a p b) = Some m \<and> waiting ep (snd (receive_pop ops a p b)) = ms"
    if "waiting ep b = m # ms" for m ms
    using that s pop by (auto simp: message_or_none_def session_ok_def)
qed (auto intro: receiving_push)

section \<open>The handler contract\<close>

interpretation open_rpc: request_handler "handle_open lc ops" 2 "\<lambda>ps. endpoint_args lc ps \<noteq> None" for lc ops
  by (rule checked_handler [OF fun_cong [OF fun_cong [OF handle_open_def]]])

interpretation close_rpc: request_handler "handle_close lc ops" 2 "\<lambda>ps. endpoint_args lc ps \<noteq> None" for lc ops
  by (rule checked_handler [OF fun_cong [OF fun_cong [OF handle_close_def]]])

interpretation send_rpc: request_handler "handle_send lc ops" 3 "\<lambda>ps. send_args lc ps \<noteq> None" for lc ops
  by (rule checked_handler [OF fun_cong [OF fun_cong [OF handle_send_def]]])

interpretation receive_rpc: request_handler "handle_receive lc ops" 2 "\<lambda>ps. endpoint_args lc ps \<noteq> None" for lc ops
  by (rule checked_handler [OF fun_cong [OF fun_cong [OF handle_receive_def]]])

section \<open>Unsent messages\<close>

text \<open>What the code relies on of the stream: a write that reports no error has put the message on
  the wire, behind the earlier ones, and one that reports an error has not. \<open>sent\<close> is the wire.\<close>

definition stream_ok :: "'w ws_ops \<Rightarrow> ('w \<Rightarrow> string list) \<Rightarrow> bool" where
  "stream_ok ops sent \<longleftrightarrow>
     (\<forall>d w. sent (snd (ws_write ops d w)) = (if fst (ws_write ops d w) then sent w @ [d] else sent w))"

lemma Write_sent:
  "stream_ok ops sent \<Longrightarrow>
     sent (wsock (snd (Write ops d s))) =
       (if fst (Write ops d s) = SUCCESS then sent (wsock s) @ [d] else sent (wsock s))"
  by (simp add: stream_ok_def Write_def Let_def case_prod_beta)

lemma flush_loop_sent:
  "stream_ok ops sent \<Longrightarrow>
     sent (wsock (snd (flush_loop ops q s))) @ fst (flush_loop ops q s) = sent (wsock s) @ q"
proof (induction q arbitrary: s)
  case (Cons m q)
  then show ?case
    using Write_sent [OF Cons.prems, of m s] Cons.IH [OF Cons.prems, of "snd (Write ops m s)"]
    by (simp add: case_prod_beta)
qed simp

lemma flush_loop_all:
  "(\<And>d w. fst (ws_write ops d w)) \<Longrightarrow> fst (flush_loop ops q s) = []"
  by (induction q arbitrary: s) (simp_all add: Write_def Let_def case_prod_beta)

definition sent_at :: "('w \<Rightarrow> string list) \<Rightarrow> endpoint \<Rightarrow> 'w broker \<Rightarrow> string list" where
  "sent_at sent ep b = (case session_at ep b of None \<Rightarrow> [] | Some s \<Rightarrow> sent (wsock s))"

definition open_at :: "'w ws_ops \<Rightarrow> endpoint \<Rightarrow> 'w broker \<Rightarrow> bool" where
  "open_at ops ep b = (case session_at ep b of None \<Rightarrow> False | Some s \<Rightarrow> IsOpen ops s)"

lemma open_atE:
  assumes "open_at ops ep b"
  obtains c s where "contexts b ep = Some c" "session_at ep b = Some s" "the_session ops c = s"
    "IsOpen ops s"
proof -
  obtain s where s: "session_at ep b = Some s" "IsOpen ops s"
    using assms by (auto simp: open_at_def split: option.splits)
  then obtain c where "contexts b ep = Some c" "session_ptr (listener_ptr c) = Some s"
    by (auto simp: session_at_Some)
  with s that show thesis by (simp add: the_session_def GetSession_def)
qed

text \<open>\<open>Send\<close> on an open connection: one write, and one received message comes back with its result.\<close>

lemma Send_open_effect:
  assumes "MakeEndpoint ops a p = Some ep" "open_at ops ep b" "stream_ok ops sent"
  obtains s b' where "session_at ep b = Some s"
    "Send ops a p d b =
       Some ((case waiting ep b of [] \<Rightarrow> [] | m # ms \<Rightarrow> m,
              if fst (ws_write ops d (wsock s)) then SUCCESS else WRITE_FAILURE), b')"
    "sent_at sent ep b' = sent_at sent ep b @ (if fst (ws_write ops d (wsock s)) then [d] else [])"
    "waiting ep b' = tl (waiting ep b)" "pending ep b' = pending ep b"
proof -
  obtain c s where s: "contexts b ep = Some c" "session_at ep b = Some s" "the_session ops c = s" "IsOpen ops s"
    using assms(2) by (rule open_atE)
  let ?w = "Write ops d s"
  have w: "fst ?w = (if fst (ws_write ops d (wsock s)) then SUCCESS else WRITE_FAILURE)"
    by (simp add: Write_def Let_def case_prod_beta)
  have e: "Send ops a p d b =
      Some ((fst (GetMessage (snd ?w)), fst ?w), put_context ep (with_session (snd (GetMessage (snd ?w))) c) b)"
    using Send_open [OF assms(1) s(1)] s(3,4) by (simp add: Let_def case_prod_beta)
  show thesis
  proof (rule that [OF s(2)])
    show "Send ops a p d b =
       Some ((case waiting ep b of [] \<Rightarrow> [] | m # ms \<Rightarrow> m,
              if fst (ws_write ops d (wsock s)) then SUCCESS else WRITE_FAILURE),
         put_context ep (with_session (snd (GetMessage (snd ?w))) c) b)"
      using e w s(2) by (simp add: waiting_def fst_GetMessage)
  qed (use Write_sent [OF assms(3), of d s] w s(2) in
      \<open>auto simp: sent_at_def session_at_def waiting_def pending_def\<close>)
qed

text \<open>An endpoint over which peer and client talk: connected, open, and nothing waits to be sent. While its stream stays up
  the three operations keep it so.\<close>

definition stream_up :: "'w ws_ops \<Rightarrow> bool" where
  "stream_up ops \<longleftrightarrow> (\<forall>d w. is_open ops w \<longrightarrow> fst (ws_write ops d w) \<and> is_open ops (snd (ws_write ops d w)))"

definition talking :: "'w ws_ops \<Rightarrow> string \<Rightarrow> int \<Rightarrow> endpoint \<Rightarrow> 'w broker \<Rightarrow> bool" where
  "talking ops a p ep b \<longleftrightarrow> receiving ops a p ep b \<and> open_at ops ep b \<and> pending ep b = []"

lemma talkingE:
  assumes "talking ops a p ep b"
  obtains c s where "MakeEndpoint ops a p = Some ep" "broker_inv b" "contexts b ep = Some c" "the_session ops c = s"
    "session_at ep b = Some s" "IsOpen ops s" "reading s" "pending ep b = []" "waiting ep b = received s"
proof -
  obtain c s where s: "contexts b ep = Some c" "session_at ep b = Some s" "the_session ops c = s" "IsOpen ops s"
    using assms open_atE [of ops ep b] unfolding talking_def by metis
  with that assms show thesis by (auto simp: talking_def receiving_def connected_def waiting_def)
qed

lemma talkingI:
  "MakeEndpoint ops a p = Some ep \<Longrightarrow> broker_inv b \<Longrightarrow> session_at ep b = Some s \<Longrightarrow> IsOpen ops s \<Longrightarrow> reading s \<Longrightarrow>
   pending ep b = [] \<Longrightarrow> talking ops a p ep b"
  by (simp add: talking_def receiving_def connected_def open_at_def)

lemma talking_send:
  assumes "talking ops a p ep b" "stream_ok ops sent" "stream_up ops"
  shows "\<exists>b'. Send ops a p d b = Some ((case waiting ep b of [] \<Rightarrow> [] | m # ms \<Rightarrow> m, SUCCESS), b') \<and> talking ops a p ep b' \<and>
     waiting ep b' = tl (waiting ep b) \<and> sent_at sent ep b' = sent_at sent ep b @ [d]"
proof -
  obtain c s where s: "MakeEndpoint ops a p = Some ep" "broker_inv b" "contexts b ep = Some c" "the_session ops c = s"
    "session_at ep b = Some s" "IsOpen ops s" "reading s" "pending ep b = []" "waiting ep b = received s"
    using assms(1) by (rule talkingE)
  have w: "fst (Write ops d s) = SUCCESS" "IsOpen ops (snd (Write ops d s))"
    using assms(3) s(6) by (auto simp: stream_up_def IsOpen_def Write_def Let_def case_prod_beta)
  let ?s = "snd (GetMessage (snd (Write ops d s)))" and ?b = "put_context ep (with_session (snd (GetMessage (snd (Write ops d s)))) c) b"
  have send: "Send ops a p d b = Some ((fst (GetMessage (snd (Write ops d s))), SUCCESS), ?b)"
    using Send_open [OF s(1,3)] s(4,6) w(1) by (simp add: Let_def case_prod_beta)
  have at: "session_at ep ?b = Some ?s" by (simp add: session_at_def)
  have "talking ops a p ep ?b"
  proof (rule talkingI [OF s(1) _ at])
    show "broker_inv ?b" using send s(2) broker_inv_Send by blast
    show "IsOpen ops ?s" using w(2) by (simp add: IsOpen_def)
  qed (use s(7,8) in \<open>simp_all add: pending_def\<close>)
  moreover have "sent_at sent ep ?b = sent_at sent ep b @ [d]"
    using Write_sent [OF assms(2), of d s] w(1) s(5) at by (simp add: sent_at_def)
  ultimately show ?thesis
    using send at s(9) by (intro exI [of _ ?b]) (simp add: waiting_def fst_GetMessage)
qed

lemma talking_receive:
  assumes "talking ops a p ep b"
  shows "\<exists>b'. Receive ops a p b = Some ((case waiting ep b of [] \<Rightarrow> [] | m # ms \<Rightarrow> m, SUCCESS), b') \<and> talking ops a p ep b' \<and>
     waiting ep b' = tl (waiting ep b) \<and> sent_at sent ep b' = sent_at sent ep b"
proof -
  obtain c s where s: "MakeEndpoint ops a p = Some ep" "broker_inv b" "contexts b ep = Some c" "the_session ops c = s"
    "session_at ep b = Some s" "IsOpen ops s" "reading s" "pending ep b = []" "waiting ep b = received s"
    using assms(1) by (rule talkingE)
  have "flushed ops (pending ep b) s = ([], s)" by (simp add: flushed_def s(8))
  then obtain b' where b': "Receive ops a p b = Some ((fst (GetMessage s), SUCCESS), b')"
      "session_at ep b' = Some (snd (GetMessage s))" "pending ep b' = []"
    using Receive_session [OF s(1,5)] by auto
  have "talking ops a p ep b'"
  proof (rule talkingI [OF s(1) _ b'(2)])
    show "broker_inv b'" using b'(1) s(2) broker_inv_Receive by blast
    show "IsOpen ops (snd (GetMessage s))" using s(6) by (simp add: IsOpen_def)
  qed (use s(7) b'(3) in simp_all)
  with b' s(5,9) show ?thesis by (intro exI [of _ b']) (simp add: waiting_def sent_at_def fst_GetMessage)
qed

lemma talking_read:
  assumes "talking ops a p ep b" "m \<noteq> []"
  shows "talking ops a p ep (io_read ep False m b)" "waiting ep (io_read ep False m b) = waiting ep b @ [m]"
    "sent_at sent ep (io_read ep False m b) = sent_at sent ep b"
proof -
  have r: "receiving ops a p ep b" using assms(1) by (simp add: talking_def)
  show "waiting ep (io_read ep False m b) = waiting ep b @ [m]" using receiving_push(2) [OF r assms(2)] .
  obtain c s where s: "contexts b ep = Some c" "session_at ep b = Some s" "IsOpen ops s" "reading s" "pending ep b = []"
    using assms(1) by (rule talkingE)
  have "wsock (read_completes False m s) = wsock s" by (simp add: read_completes_def Let_def broker_defs)
  with io_read_at [OF s(2,4), of False m] s(2,3)
  have "open_at ops ep (io_read ep False m b)" "sent_at sent ep (io_read ep False m b) = sent_at sent ep b"
    by (simp_all add: open_at_def sent_at_def IsOpen_def)
  moreover have "pending ep (io_read ep False m b) = pending ep b"
    using s(1) by (simp add: pending_def io_read_def put_session_def put_context_def split: option.split)
  ultimately show "talking ops a p ep (io_read ep False m b)" "sent_at sent ep (io_read ep False m b) = sent_at sent ep b"
    using receiving_push(1) [OF r] s(5) by (simp_all add: talking_def)
qed

text \<open>The endpoint an event is about.\<close>

fun event_endpoint :: "'w ws_ops \<Rightarrow> 'w event \<Rightarrow> endpoint option" where
  "event_endpoint ops (Rpc_open a p) = MakeEndpoint ops a p"
| "event_endpoint ops (Rpc_close a p) = MakeEndpoint ops a p"
| "event_endpoint ops (Rpc_send a p d) = MakeEndpoint ops a p"
| "event_endpoint ops (Rpc_receive a p) = MakeEndpoint ops a p"
| "event_endpoint ops (Io_resolve ep ec conn) = Some ep"
| "event_endpoint ops (Io_read ep ec d) = Some ep"

abbreviation same_at :: "endpoint \<Rightarrow> 'w broker \<Rightarrow> 'w broker \<Rightarrow> bool" where
  "same_at ep b b' \<equiv> contexts b' ep = contexts b ep \<and> msg_queue b' ep = msg_queue b ep"

lemma Send_other:
  assumes "Send ops a p d b = Some (r, b')" "MakeEndpoint ops a p \<noteq> Some ep"
  shows "same_at ep b b'"
proof -
  obtain ep0 where ep0: "MakeEndpoint ops a p = Some ep0"
    using assms(1) by (auto simp: Send_def GetContext_def bind_eq_Some_conv)
  show ?thesis
  proof (cases "contexts b ep0")
    case None
    with assms Send_none(1) [OF ep0 None, of d] show ?thesis by simp
  next
    case (Some c)
    with assms ep0 Send_open [OF ep0 Some, of d] Send_closed [OF ep0 Some, of d] show ?thesis
      by (cases "IsOpen ops (the_session ops c)") (auto simp: Let_def case_prod_beta)
  qed
qed

lemma Receive_other:
  assumes "Receive ops a p b = Some (r, b')" "MakeEndpoint ops a p \<noteq> Some ep"
  shows "same_at ep b b'"
proof -
  obtain ep0 where ep0: "MakeEndpoint ops a p = Some ep0"
    using assms(1) by (auto simp: Receive_def GetContext_def bind_eq_Some_conv)
  show ?thesis
    using assms ep0 Send_none(2) [OF ep0, of b] Receive_at [OF ep0, of b]
    by (cases "contexts b ep0") (auto simp: Let_def case_prod_beta)
qed

lemma broker_step_other:
  "broker_step ops b ev b' \<Longrightarrow> event_endpoint ops ev \<noteq> Some ep \<Longrightarrow> same_at ep b b'"
proof (induction rule: broker_step.induct)
  case (step_open a p b r b')
  then show ?case
    by (cases "MakeEndpoint ops a p") (auto simp: OpenConnection_at OpenConnection_invalid)
next
  case (step_close a p b r b')
  then show ?case
    by (cases "MakeEndpoint ops a p") (auto simp: CloseConnection_at CloseConnection_invalid split: if_splits)
next
  case (step_send a p d b r b')
  then show ?case using Send_other by simp
next
  case (step_receive a p b r b')
  then show ?case using Receive_other by simp
qed (auto simp: io_resolve_def io_read_def split: option.splits)

section \<open>A stream for closed examples\<close>

text \<open>A stream that is open after the handshake and records what is written.\<close>

definition example_ws :: "(bool \<times> string list) ws_ops" where
  "example_ws = \<lparr>
     is_open = fst, ws_write = (\<lambda>d (up, l). (up, (up, if up then l @ [d] else l))),
     handshake = (\<lambda>h (up, l). (True, (True, l))), async_close = (\<lambda>(up, l). (False, l)),
     unconnected = (False, []),
     make_address = (\<lambda>s. if s = ''127.0.0.1'' then Some s else None),
     strerror = (\<lambda>i. ''Unknown error'') \<rparr>"

lemma example_ws_simps [simp]:
  "is_open example_ws = fst" "ws_write example_ws d w = (fst w, (fst w, if fst w then snd w @ [d] else snd w))"
  "handshake example_ws h w = (True, (True, snd w))" "async_close example_ws w = (False, snd w)"
  "unconnected example_ws = (False, [])"
  "make_address example_ws s = (if s = ''127.0.0.1'' then Some s else None)"
  "strerror example_ws i = ''Unknown error''"
  by (simp_all add: example_ws_def case_prod_beta)

lemma example_stream_ok: "stream_ok example_ws snd"
  by (simp add: stream_ok_def)

abbreviation example_ep :: endpoint where
  "example_ep \<equiv> (''127.0.0.1'', 8087)"

lemma example_endpoint: "MakeEndpoint example_ws ''127.0.0.1'' 8087 = Some example_ep"
  by (simp add: MakeEndpoint_def c_str_def to_ushort_id)

text \<open>A broker with one open connection and one message the client could not send before.\<close>

definition example_session :: "(bool \<times> string list) session" where
  "example_session = \<lparr>wsock = (True, []), read_buffer = [], received = [], reading = True\<rparr>"

definition example_broker :: "(bool \<times> string list) broker" where
  "example_broker = \<lparr>
     contexts = [example_ep \<mapsto> with_session example_session
       ((fresh_context example_ep)\<lparr>listener_ptr := (listener_ptr (fresh_context example_ep))\<lparr>resolving := False\<rparr>\<rparr>)],
     msg_queue = [example_ep \<mapsto> [''hello'']] \<rparr>"

lemma example_session_at: "session_at example_ep example_broker = Some example_session"
  by (simp add: session_at_Some example_broker_def)

lemma example_inv: "broker_inv example_broker"
  by (auto simp: broker_inv_def example_broker_def context_ok_def fresh_context_def session_ok_def
      example_session_def split: if_splits)

section \<open>Properties\<close>





text \<open>C27: connections do not disturb each other: no remote procedure and no completion for one
  endpoint changes the context or the pending messages of another.\<close>

theorem endpoints_isolated:
  assumes "broker_step ops b ev b'" "event_endpoint ops ev \<noteq> Some ep"
  shows "contexts b' ep = contexts b ep \<and> msg_queue b' ep = msg_queue b ep"
  using assms by (rule broker_step_other)

theorem endpoints_isolated_witness:
  "contexts (io_read example_ep False ''m'' example_broker) (''::1'', 1) = contexts example_broker (''::1'', 1)"
  using endpoints_isolated [OF step_read [of example_ws example_broker example_ep False "''m''"], of "(''::1'', 1)"]
  by simp

text \<open>C23: flushing loses no message: after a \<open>Receive\<close> on an open connection, what is on the wire
  followed by what is still pending is what was on the wire followed by what was pending, whatever
  writes fail; when all writes succeed, nothing stays pending.\<close>

theorem receive_flushes_without_loss:
  assumes "MakeEndpoint ops a p = Some ep" "open_at ops ep b" "stream_ok ops sent"
  shows "\<exists>m b'. Receive ops a p b = Some ((m, SUCCESS), b') \<and>
     sent_at sent ep b' @ pending ep b' = sent_at sent ep b @ pending ep b \<and>
     ((\<forall>d w. fst (ws_write ops d w)) \<longrightarrow> pending ep b' = [])"
proof -
  obtain s where s: "session_at ep b = Some s" "IsOpen ops s" using assms(2) by (rule open_atE)
  have f: "flushed ops (pending ep b) s = flush_loop ops (pending ep b) s" using s by (simp add: flushed_def)
  obtain m b' where "Receive ops a p b = Some ((m, SUCCESS), b')"
      "session_at ep b' = Some (snd (GetMessage (snd (flush_loop ops (pending ep b) s))))"
      "pending ep b' = fst (flush_loop ops (pending ep b) s)"
    using Receive_session [OF assms(1) s(1)] f by auto
  with flush_loop_sent [OF assms(3)] flush_loop_all [of ops] s(1) show ?thesis
    by (simp add: sent_at_def)
qed

theorem receive_flushes_without_loss_witness:
  "\<exists>m b'. Receive example_ws ''127.0.0.1'' 8087 example_broker = Some ((m, SUCCESS), b') \<and>
     sent_at snd example_ep b' @ pending example_ep b' = [''hello'']"
  using receive_flushes_without_loss [OF example_endpoint _ example_stream_ok, of example_broker]
    example_session_at
  by (auto simp: open_at_def sent_at_def pending_def IsOpen_def example_session_def example_broker_def)

text \<open>A message can overtake earlier ones: \<open>Send\<close> on an open connection writes at once, in front
  of the messages that were queued while the connection was not open, which stay queued.\<close>

theorem send_overtakes_pending:
  assumes "MakeEndpoint ops a p = Some ep" "open_at ops ep b" "stream_ok ops sent"
    and "\<forall>d w. fst (ws_write ops d w)"
  shows "\<exists>m b'. Send ops a p d b = Some ((m, SUCCESS), b') \<and>
     sent_at sent ep b' = sent_at sent ep b @ [d] \<and> pending ep b' = pending ep b"
  using Send_open_effect [OF assms(1-3), of d] assms(4) by metis

definition example_wire :: "string list ws_ops" where
  "example_wire = \<lparr>
     is_open = (\<lambda>w. True), ws_write = (\<lambda>d w. (True, w @ [d])), handshake = (\<lambda>h w. (True, w)),
     async_close = (\<lambda>w. w), unconnected = [], make_address = Some, strerror = (\<lambda>i. []) \<rparr>"

definition wire_broker :: "string list broker" where
  "wire_broker = \<lparr>
     contexts = [(''h'', 1) \<mapsto> with_session ((WebsocketSession [])\<lparr>received := [''peer'']\<rparr>) (fresh_context (''h'', 1))],
     msg_queue = [(''h'', 1) \<mapsto> [''first'']] \<rparr>"

lemma wire_facts:
  "MakeEndpoint example_wire ''h'' 1 = Some (''h'', 1)" "open_at example_wire (''h'', 1) wire_broker"
  "stream_ok example_wire id" "sent_at id (''h'', 1) wire_broker = []" "pending (''h'', 1) wire_broker = [''first'']"
  "waiting (''h'', 1) wire_broker = [''peer'']"
  by (simp_all add: MakeEndpoint_def example_wire_def c_str_def to_ushort_id open_at_def session_at_def IsOpen_def
      stream_ok_def sent_at_def pending_def WebsocketSession_def wire_broker_def waiting_def)

theorem send_overtakes_pending_witness:
  "\<exists>m b'. Send example_wire ''h'' 1 ''second'' wire_broker = Some ((m, SUCCESS), b') \<and>
     sent_at id (''h'', 1) b' = [''second''] \<and> pending (''h'', 1) b' = [''first'']"
  using send_overtakes_pending [OF wire_facts(1-3), of "''second''"] wire_facts(4,5)
  by (simp add: example_wire_def)

text \<open>Taking a message is safe although its emptiness test runs outside the lock: whatever reads
  complete between the test and the locked part, the queue still has the message that was first at
  the test, and that message is the one delivered.\<close>

theorem get_message_safe_under_reads:
  assumes "received s \<noteq> []"
  shows "\<exists>s'. take_front (fold (\<lambda>(ec, data) s. read_completes ec data s) reads s) = Some (fst (GetMessage s), s')"
proof -
  have "\<exists>new. received (fold (\<lambda>(ec, data) s. read_completes ec data s) reads s) = received s @ new"
  proof (induction reads arbitrary: s)
    case (Cons r reads)
    have "\<exists>new. received ((\<lambda>(ec, data) s. read_completes ec data s) r s) = received s @ new"
      by (cases r) (auto simp: read_completes_def Let_def broker_defs)
    with Cons.IH [of "(\<lambda>(ec, data) s. read_completes ec data s) r s"] show ?case by fastforce
  qed simp
  with assms show ?thesis by (auto simp: take_front_def GetMessage_eq split: list.splits)
qed

theorem get_message_safe_under_reads_witness:
  "\<exists>s'. take_front (fold (\<lambda>(ec, data) s. read_completes ec data s) [(False, ''two''), (True, [])]
     (example_session\<lparr>received := [''one'']\<rparr>)) = Some (''one'', s')"
  using get_message_safe_under_reads [of "example_session\<lparr>received := [''one'']\<rparr>" "[(False, ''two''), (True, [])]"]
  by (simp add: GetMessage_eq)

text \<open>Opening a connection always starts afresh: for an address that parses, \<open>OpenConnection\<close> succeeds
  from every reachable state, also when the connection was open before (the code
  \<open>ALREADY_EXISTS\<close> cannot occur), and leaves no message waiting and none pending.\<close>

theorem open_starts_afresh:
  assumes "broker_reachable ops b" "MakeEndpoint ops a p = Some ep"
  shows "\<exists>b'. OpenConnection ops a p 2 b = Some (SUCCESS, b') \<and> contexts b' ep = Some (fresh_context ep) \<and>
     waiting ep b' = [] \<and> pending ep b' = []"
proof -
  have "contexts b ep = None \<Longrightarrow> msg_queue b ep = None"
    using broker_reachable_inv [OF assms(1)] unfolding broker_inv_def by blast
  then show ?thesis
    using OpenConnection_at [OF assms(2), of b]
    by (auto simp: waiting_def session_at_def pending_def fresh_context_def split: option.splits)
qed

theorem open_starts_afresh_witness:
  "\<exists>b'. OpenConnection example_ws ''127.0.0.1'' 8087 2 MessageBroker = Some (SUCCESS, b') \<and>
     waiting example_ep b' = [] \<and> pending example_ep b' = []"
  using open_starts_afresh [OF reach_start example_endpoint] by blast

text \<open>A closed connection is gone: after a successful close, sending and receiving answer
  \<open>NO_CONNECTION\<close> and change nothing, and a second close is refused with an error object that carries
  that code.\<close>

theorem closed_connection_is_gone:
  assumes "lexical_cast_ok lc" "is_int p" "MakeEndpoint ops a p = Some ep" "contexts b ep = Some c"
  shows "\<exists>b'. handle_close lc ops b [(a, 4), (to_string p, 1)] = (Reply ([], SUCCESS), b') \<and>
     handle_send lc ops b' [(a, 4), (to_string p, 1), (d, 4)] = (Reply ([], NO_CONNECTION), b') \<and>
     handle_receive lc ops b' [(a, 4), (to_string p, 1)] = (Reply ([], NO_CONNECTION), b') \<and>
     handle_close lc ops b' [(a, 4), (to_string p, 1)] =
       (ErrorReply (strerror ops NO_CONNECTION, NO_CONNECTION), b')"
proof -
  let ?b = "b\<lparr>contexts := (contexts b)(ep := None), msg_queue := (msg_queue b)(ep := None)\<rparr>"
  have args: "endpoint_args lc [(a, 4), (to_string p, 1)] = Some (a, p)"
    "send_args lc [(a, 4), (to_string p, 1), (d, 4)] = Some (a, p, d)"
    using assms(1,2) by (simp_all add: endpoint_args_def send_args_def numeral_2_eq_2)
  have "CloseConnection ops a p b = Some (SUCCESS, ?b)"
    using CloseConnection_at [OF assms(3), of b] assms(4) by simp
  moreover have "CloseConnection ops a p ?b = Some (NO_CONNECTION, ?b)"
    using CloseConnection_at [OF assms(3), of ?b] by simp
  ultimately show ?thesis
    using args Send_none [OF assms(3), of ?b]
    by (intro exI [of _ ?b]) (simp add: handle_close_def handle_send_def handle_receive_def checked_def
        reply_checked_def reply_result_def CheckError_def)
qed

theorem closed_connection_is_gone_witness:
  "\<exists>b'. handle_close decimal_cast example_ws example_broker [(''127.0.0.1'', 4), (to_string 8087, 1)] =
       (Reply ([], SUCCESS), b') \<and>
     handle_receive decimal_cast example_ws b' [(''127.0.0.1'', 4), (to_string 8087, 1)] =
       (Reply ([], NO_CONNECTION), b')"
proof -
  have "\<exists>c. contexts example_broker example_ep = Some c" by (simp add: example_broker_def)
  then obtain c where c: "contexts example_broker example_ep = Some c" ..
  have "is_int 8087" by (simp add: is_int_def)
  from closed_connection_is_gone [OF decimal_cast_ok this example_endpoint c, of "''x''"]
  show ?thesis by blast
qed

text \<open>Ports are taken modulo 65536: a request for port \<open>p + 65536\<close> reaches the same endpoint as one
  for port \<open>p\<close>, so it closes and replaces that connection instead of being refused.\<close>

theorem port_wraps:
  "MakeEndpoint ops a (p + 65536) = MakeEndpoint ops a p \<and>
   OpenConnection ops a (p + 65536) n b = OpenConnection ops a p n b"
proof -
  have "to_ushort (p + 65536) = to_ushort p" by (simp add: to_ushort_def take_bit_eq_mod)
  then have e: "MakeEndpoint ops a (p + 65536) = MakeEndpoint ops a p" by (simp add: MakeEndpoint_def)
  then show ?thesis
    unfolding OpenConnection_def GetContext_def MakeContext_def CloseConnection_def e by (rule conjI) simp
qed

text \<open>Destroying a broker is defined exactly when no connection is left: where an address that is
  printed and parsed again is the same address, the loop of the destructor erases the entry its
  iterator stands at in its first round.\<close>

theorem destructor_needs_closed_connections:
  assumes "set eps = dom (contexts b)"
    and "\<And>ep. contexts b ep \<noteq> None \<Longrightarrow> MakeEndpoint ops (fst ep) (snd ep) = Some ep"
  shows "delete_MessageBroker ops eps b = (if contexts b = Map.empty then Some b else None)"
proof (cases eps)
  case Nil
  with assms(1) have "contexts b = Map.empty" by (simp add: dom_eq_empty_conv [symmetric])
  with Nil show ?thesis by simp
next
  case (Cons ep rest)
  with assms(1) have c: "contexts b ep \<noteq> None" by auto
  with assms(2) have "MakeEndpoint ops (fst ep) (snd ep) = Some ep" by blast
  with c have "delete_MessageBroker ops eps b = None" by (simp add: Cons CloseConnection_at)
  with c show ?thesis by auto
qed

theorem destructor_needs_closed_connections_witness:
  "delete_MessageBroker example_ws [example_ep] example_broker = None"
proof -
  have "contexts example_broker ep \<noteq> None \<longleftrightarrow> ep = example_ep" for ep
    by (simp add: example_broker_def)
  then show ?thesis
    using destructor_needs_closed_connections [of "[example_ep]" example_broker example_ws] example_endpoint
    by (auto simp: fun_eq_iff dom_def split: if_splits)
qed

text \<open>No transport procedure acts on a malformed request: for each of the four procedures a request
  of the wrong length, or with a port that is not an integer, is answered with \<open>FAILED\<close> and leaves the
  broker as it was.\<close>

theorem broker_rejects_malformed:
  assumes "(name, h) \<in> set (MessageBroker_Bind lc ops)"
    and "length ps \<noteq> (if name = send_name then 3 else 2) \<or> snd (ps ! 0) \<noteq> 4 \<or> snd (ps ! 1) \<noteq> 1"
  shows "\<exists>m. h b ps = (Reply (m, FAILED), b)"
proof -
  have bad: "endpoint_args lc ps = None \<and> send_args lc ps = None" if "snd (ps ! 0) \<noteq> 4 \<or> snd (ps ! 1) \<noteq> 1"
    using that by (auto simp: endpoint_args_def send_args_def GetValue_def Let_def)
  have "name = open_handle \<and> h = handle_open lc ops \<or> name = close_handle \<and> h = handle_close lc ops \<or>
      name = send_name \<and> h = handle_send lc ops \<or> name = receive_name \<and> h = handle_receive lc ops"
    using assms(1) by (auto simp: MessageBroker_Bind_def)
  with assms(2) bad open_rpc.malformed [of ps lc] close_rpc.malformed [of ps lc] send_rpc.malformed [of ps lc]
    receive_rpc.malformed [of ps lc]
  show ?thesis by (auto simp: rpc_name_defs)
qed

theorem broker_rejects_malformed_witness:
  "\<exists>m. handle_open decimal_cast example_ws example_broker [(''127.0.0.1'', 4), (''8087'', 4)] =
     (Reply (m, FAILED), example_broker)"
  using broker_rejects_malformed [of open_handle "handle_open decimal_cast example_ws" decimal_cast example_ws
      "[(''127.0.0.1'', 4), (''8087'', 4)]" example_broker]
  by (simp add: MessageBroker_Bind_def)

end
