(* ===== verification/Broker_Spec.thy ===== *)
theory Broker_Spec
  imports Message_Broker
begin

text \<open>
  What the message broker promises, and that it keeps it: the specification is one mailbox per endpoint, a
  queue of messages that have arrived, a queue of messages not sent yet, and the wire. Contexts, listeners,
  threads, sessions and buffers are gone, and so is the connection: whether it is up shows only in what a
  call does. The broker of \<open>Message_Broker\<close> refines it.
\<close>

section \<open>The specification\<close>

record mailbox =
  inbox :: "string list"
  outbox :: "string list"
  wire :: "string list"

datatype mail_action = Open_box | Close_box | Send_mail string | Receive_mail | Connect_box | Arrive string

definition first_mail :: "mailbox \<Rightarrow> string" where
  "first_mail M = (case inbox M of [] \<Rightarrow> [] | m # ms \<Rightarrow> m)"

text \<open>One step of a mailbox, with the answer the caller gets.\<close>

inductive mail_step :: "mailbox option \<Rightarrow> mail_action \<Rightarrow> response_type option \<Rightarrow> mailbox option \<Rightarrow> bool" where
  mail_open: "mail_step M Open_box (Some ([], SUCCESS)) (Some \<lparr>inbox = [], outbox = [], wire = []\<rparr>)"
| mail_close: "mail_step (Some M) Close_box (Some ([], SUCCESS)) None"
| mail_close_none: "mail_step None Close_box (Some ([], NO_CONNECTION)) None"
| mail_send_none: "mail_step None (Send_mail d) (Some ([], NO_CONNECTION)) None"
| mail_receive_none: "mail_step None Receive_mail (Some ([], NO_CONNECTION)) None"
| mail_send: "mail_step (Some M) (Send_mail d) (Some (first_mail M, SUCCESS))
    (Some (M\<lparr>wire := wire M @ [d], inbox := tl (inbox M)\<rparr>))"
| mail_send_lost: "mail_step (Some M) (Send_mail d) (Some (first_mail M, WRITE_FAILURE)) (Some (M\<lparr>inbox := tl (inbox M)\<rparr>))"
| mail_send_later: "mail_step (Some M) (Send_mail d) (Some ([], WRITE_FAILURE)) (Some (M\<lparr>outbox := outbox M @ [d]\<rparr>))"
| mail_receive: "outbox M = xs @ ys \<Longrightarrow> mail_step (Some M) Receive_mail (Some (first_mail M, SUCCESS))
    (Some (M\<lparr>wire := wire M @ xs, outbox := ys, inbox := tl (inbox M)\<rparr>))"
| mail_connect: "mail_step M Connect_box None M"
| mail_arrive: "d \<noteq> [] \<Longrightarrow> mail_step (Some M) (Arrive d) None (Some (M\<lparr>inbox := inbox M @ [d]\<rparr>))"
| mail_ignored: "mail_step M (Arrive d) None M"

inductive_cases mail_stepE: "mail_step M act r M'"

type_synonym mail_label = "endpoint \<times> mail_action \<times> response_type option"

text \<open>A step at one endpoint leaves the others alone.\<close>

definition mailboxes_step :: "(endpoint \<rightharpoonup> mailbox) \<Rightarrow> mail_label \<Rightarrow> (endpoint \<rightharpoonup> mailbox) \<Rightarrow> bool" where
  "mailboxes_step Ms lab Ms' \<longleftrightarrow>
     (case lab of (ep, act, r) \<Rightarrow> \<exists>M'. mail_step (Ms ep) act r M' \<and> Ms' = Ms(ep := M'))"

section \<open>The broker seen from outside\<close>

fun event_action :: "'w event \<Rightarrow> mail_action" where
  "event_action (Rpc_open a p) = Open_box"
| "event_action (Rpc_close a p) = Close_box"
| "event_action (Rpc_send a p d) = Send_mail d"
| "event_action (Rpc_receive a p) = Receive_mail"
| "event_action (Io_resolve ep ec conn) = Connect_box"
| "event_action (Io_read ep ec d) = Arrive d"

fun event_answer :: "'w ws_ops \<Rightarrow> 'w broker \<Rightarrow> 'w event \<Rightarrow> response_type option" where
  "event_answer ops b (Rpc_open a p) = map_option (\<lambda>(r, b'). ([], r)) (OpenConnection ops a p 2 b)"
| "event_answer ops b (Rpc_close a p) = map_option (\<lambda>(r, b'). ([], r)) (CloseConnection ops a p b)"
| "event_answer ops b (Rpc_send a p d) = map_option fst (Send ops a p d b)"
| "event_answer ops b (Rpc_receive a p) = map_option fst (Receive ops a p b)"
| "event_answer ops b (Io_resolve ep ec conn) = None"
| "event_answer ops b (Io_read ep ec d) = None"

text \<open>Nothing has been written to a connection before the broker gets it.\<close>

fun fresh_connection :: "('w \<Rightarrow> string list) \<Rightarrow> 'w event \<Rightarrow> bool" where
  "fresh_connection sent (Io_resolve ep ec (Some w)) = (sent w = [])"
| "fresh_connection sent ev = True"

definition observed_step :: "'w ws_ops \<Rightarrow> ('w \<Rightarrow> string list) \<Rightarrow> 'w broker \<Rightarrow> mail_label \<Rightarrow> 'w broker \<Rightarrow> bool" where
  "observed_step ops sent b lab b' \<longleftrightarrow>
     (\<exists>ev ep. broker_step ops b ev b' \<and> fresh_connection sent ev \<and> event_endpoint ops ev = Some ep \<and>
        lab = (ep, event_action ev, event_answer ops b ev))"

text \<open>The mailboxes of a broker.\<close>

definition mailbox_at :: "('w \<Rightarrow> string list) \<Rightarrow> 'w broker \<Rightarrow> endpoint \<rightharpoonup> mailbox" where
  "mailbox_at sent b ep =
     (if contexts b ep = None then None
      else Some \<lparr>inbox = waiting ep b, outbox = pending ep b, wire = sent_at sent ep b\<rparr>)"

section \<open>Simulation\<close>

text \<open>What the broker relies on of the stream, and that a listener that still resolves has at most a session
  that was never connected.\<close>

definition stream_laws :: "'w ws_ops \<Rightarrow> ('w \<Rightarrow> string list) \<Rightarrow> bool" where
  "stream_laws ops sent \<longleftrightarrow> stream_ok ops sent \<and> \<not> is_open ops (unconnected ops) \<and> sent (unconnected ops) = [] \<and>
     (\<forall>h w. sent (snd (handshake ops h w)) = sent w)"

definition unlinked :: "'w ws_ops \<Rightarrow> 'w listener_context \<Rightarrow> bool" where
  "unlinked ops c \<longleftrightarrow> resolving (listener_ptr c) \<longrightarrow>
     (\<forall>s. session_ptr (listener_ptr c) = Some s \<longrightarrow> s = WebsocketSession (unconnected ops))"

definition refining :: "'w ws_ops \<Rightarrow> ('w \<Rightarrow> string list) \<Rightarrow> 'w broker \<Rightarrow> bool" where
  "refining ops sent b \<longleftrightarrow> stream_laws ops sent \<and> broker_inv b \<and> (\<forall>ep c. contexts b ep = Some c \<longrightarrow> unlinked ops c)"

lemma refiningD:
  assumes "refining ops sent b"
  shows "stream_laws ops sent" "stream_ok ops sent" "broker_inv b" "contexts b ep = Some c \<Longrightarrow> unlinked ops c"
  using assms unfolding refining_def stream_laws_def by blast+

text \<open>A session that stands for no connection is never written to and never receives.\<close>

lemma unconnected_session:
  assumes "stream_laws ops sent" "s = WebsocketSession (unconnected ops)"
  shows "\<not> IsOpen ops s" "GetMessage s = ([], s)" "flushed ops q s = (q, s)"
  using assms by (simp_all add: stream_laws_def IsOpen_def WebsocketSession_def GetMessage_def flushed_def)

lemma unlinked_session:
  assumes "unlinked ops c" "resolving (listener_ptr c)"
  shows "the_session ops c = WebsocketSession (unconnected ops)"
  using assms by (auto simp: unlinked_def the_session_def GetSession_def Let_def split: option.splits)

lemma unlinked_with_session:
  "resolving (listener_ptr c) \<longrightarrow> s = WebsocketSession (unconnected ops) \<Longrightarrow> unlinked ops (with_session s c)"
  by (simp add: unlinked_def)

lemma mailbox_at_context:
  assumes "contexts b ep = Some c"
  shows "mailbox_at sent b ep = Some \<lparr>
      inbox = (case session_ptr (listener_ptr c) of None \<Rightarrow> [] | Some s \<Rightarrow> received s), outbox = pending ep b,
      wire = (case session_ptr (listener_ptr c) of None \<Rightarrow> [] | Some s \<Rightarrow> sent (wsock s))\<rparr>"
  using assms by (simp add: mailbox_at_def waiting_def sent_at_def session_at_def)

text \<open>A made-up session has an empty inbox and an empty wire, so that it does not show.\<close>

lemma mailbox_at_the_session:
  assumes "contexts b ep = Some c" "stream_laws ops sent"
  shows "mailbox_at sent b ep = Some \<lparr>inbox = received (the_session ops c), outbox = pending ep b,
      wire = sent (wsock (the_session ops c))\<rparr>"
  using assms
  by (auto simp: mailbox_at_context stream_laws_def the_session_def GetSession_def WebsocketSession_def Let_def
      split: option.splits)

lemma mailbox_at_with_session:
  "contexts b ep = Some (with_session s c) \<Longrightarrow>
   mailbox_at sent b ep = Some \<lparr>inbox = received s, outbox = pending ep b, wire = sent (wsock s)\<rparr>"
  by (simp add: mailbox_at_context)

lemma first_mail_session: "fst (GetMessage s) = first_mail \<lparr>inbox = received s, outbox = q, wire = w\<rparr>"
  by (simp add: first_mail_def fst_GetMessage)

lemma sim_Open:
  assumes "broker_inv b" "MakeEndpoint ops a p = Some ep" "OpenConnection ops a p 2 b = Some (r, b')"
  shows "mail_step (mailbox_at sent b ep) Open_box (Some ([], r)) (mailbox_at sent b' ep) \<and>
     (\<forall>c. contexts b' ep = Some c \<longrightarrow> unlinked ops c)"
proof -
  have "contexts b ep = None \<Longrightarrow> msg_queue b ep = None" using assms(1) unfolding broker_inv_def by blast
  then have b': "r = SUCCESS" "contexts b' ep = Some (fresh_context ep)" "pending ep b' = []"
    using assms(3) by (auto simp: OpenConnection_at [OF assms(2)] pending_def)
  then show ?thesis using mail_open by (simp add: mailbox_at_context unlinked_def fresh_context_def)
qed

lemma sim_Close:
  assumes "MakeEndpoint ops a p = Some ep" "CloseConnection ops a p b = Some (r, b')"
  shows "mail_step (mailbox_at sent b ep) Close_box (Some ([], r)) (mailbox_at sent b' ep) \<and> contexts b' ep = None"
  using assms(2) mail_close_none mail_close
  by (cases "contexts b ep") (auto simp: CloseConnection_at [OF assms(1)] mailbox_at_def)

lemma sim_Send:
  assumes laws: "stream_laws ops sent" and ep: "MakeEndpoint ops a p = Some ep"
    and r: "Send ops a p d b = Some (r, b')" and links: "\<And>c. contexts b ep = Some c \<Longrightarrow> unlinked ops c"
  shows "mail_step (mailbox_at sent b ep) (Send_mail d) (Some r) (mailbox_at sent b' ep) \<and>
     (\<forall>c. contexts b' ep = Some c \<longrightarrow> unlinked ops c)"
proof (cases "contexts b ep")
  case None
  with r Send_none(1) [OF ep None, of d] mail_send_none show ?thesis by (simp add: mailbox_at_def)
next
  case (Some c)
  let ?s = "the_session ops c"
  note M = mailbox_at_the_session [OF Some laws]
  show ?thesis
  proof (cases "IsOpen ops ?s")
    case True
    let ?w = "Write ops d ?s"
    have b': "r = (fst (GetMessage (snd ?w)), fst ?w)" "b' = put_context ep (with_session (snd (GetMessage (snd ?w))) c) b"
      using r Send_open [OF ep Some True, of d] by (simp_all add: Let_def case_prod_beta)
    have "unlinked ops (with_session (snd (GetMessage (snd ?w))) c)"
      using True unlinked_session [OF links [OF Some]] unconnected_session(1) [OF laws]
      by (intro unlinked_with_session) auto
    moreover have "sent (wsock (snd ?w)) = (if fst ?w = SUCCESS then sent (wsock ?s) @ [d] else sent (wsock ?s))"
      using laws by (simp add: stream_laws_def Write_sent)
    moreover have "fst ?w = SUCCESS \<or> fst ?w = WRITE_FAILURE" by (simp add: Write_def Let_def case_prod_beta)
    moreover have "fst (GetMessage (snd ?w)) = first_mail \<lparr>inbox = received ?s, outbox = pending ep b, wire = sent (wsock ?s)\<rparr>"
      by (simp add: first_mail_def fst_GetMessage)
    ultimately show ?thesis
      using mail_send [of "\<lparr>inbox = received ?s, outbox = pending ep b, wire = sent (wsock ?s)\<rparr>" d]
        mail_send_lost [of "\<lparr>inbox = received ?s, outbox = pending ep b, wire = sent (wsock ?s)\<rparr>" d]
      by (auto simp: M b' mailbox_at_with_session pending_def)
  next
    case False
    have b': "r = ([], WRITE_FAILURE)" "contexts b' ep = Some (with_session ?s c)" "pending ep b' = pending ep b @ [d]"
      using r Send_closed [OF ep Some False, of d] by (auto simp: pending_def)
    have "unlinked ops (with_session ?s c)"
      using unlinked_session [OF links [OF Some]] by (intro unlinked_with_session) auto
    then show ?thesis
      using mail_send_later [of "\<lparr>inbox = received ?s, outbox = pending ep b, wire = sent (wsock ?s)\<rparr>" d]
      by (simp add: M b' mailbox_at_with_session)
  qed
qed

lemma flush_loop_split:
  assumes "stream_ok ops sent"
  shows "\<exists>xs. q = xs @ fst (flush_loop ops q s) \<and> sent (wsock (snd (flush_loop ops q s))) = sent (wsock s) @ xs"
proof (induction q arbitrary: s)
  case (Cons m q)
  obtain xs where "q = xs @ fst (flush_loop ops q (snd (Write ops m s)))"
      "sent (wsock (snd (flush_loop ops q (snd (Write ops m s))))) = sent (wsock (snd (Write ops m s))) @ xs"
    using Cons.IH by blast
  then show ?case
    using Write_sent [OF assms, of m s]
    by (cases "fst (Write ops m s) = SUCCESS") (auto simp: case_prod_beta intro: exI [of _ "m # xs"])
qed simp

lemma sim_Receive:
  assumes laws: "stream_laws ops sent" and ep: "MakeEndpoint ops a p = Some ep"
    and r: "Receive ops a p b = Some (r, b')" and links: "\<And>c. contexts b ep = Some c \<Longrightarrow> unlinked ops c"
  shows "mail_step (mailbox_at sent b ep) Receive_mail (Some r) (mailbox_at sent b' ep) \<and>
     (\<forall>c. contexts b' ep = Some c \<longrightarrow> unlinked ops c)"
proof (cases "contexts b ep")
  case None
  with r Send_none(2) [OF ep None] mail_receive_none show ?thesis by (simp add: mailbox_at_def)
next
  case (Some c)
  let ?s = "the_session ops c"
  let ?f = "flushed ops (pending ep b) ?s"
  let ?M = "\<lparr>inbox = received ?s, outbox = pending ep b, wire = sent (wsock ?s)\<rparr>"
  have b': "r = (fst (GetMessage (snd ?f)), SUCCESS)"
      "contexts b' ep = Some (with_session (snd (GetMessage (snd ?f))) c)" "pending ep b' = fst ?f"
    using r Receive_at [OF ep Some] by (auto simp: Let_def case_prod_beta pending_def)
  obtain xs where xs: "pending ep b = xs @ fst ?f" "sent (wsock (snd ?f)) = sent (wsock ?s) @ xs"
  proof (cases "IsOpen ops ?s")
    case True
    then show ?thesis
      using flush_loop_split [of ops sent "pending ep b" ?s] laws that by (auto simp: flushed_def stream_laws_def)
  next
    case False
    then show ?thesis using that [of "[]"] by (simp add: flushed_def)
  qed
  have "unlinked ops (with_session (snd (GetMessage (snd ?f))) c)"
    using unlinked_session [OF links [OF Some]] unconnected_session [OF laws] by (intro unlinked_with_session) auto
  moreover have "fst (GetMessage (snd ?f)) = first_mail ?M" by (simp add: first_mail_def fst_GetMessage)
  ultimately show ?thesis
    using mail_receive [of ?M xs "fst ?f"] xs
    by (simp add: mailbox_at_the_session [OF Some laws] b' mailbox_at_with_session)
qed

lemma sim_resolve:
  assumes laws: "stream_laws ops sent" and links: "\<And>c. contexts b ep = Some c \<Longrightarrow> unlinked ops c"
    and fresh: "fresh_connection sent (Io_resolve ep ec conn)"
  shows "mailbox_at sent (io_resolve ops ep ec conn b) ep = mailbox_at sent b ep \<and>
     (\<forall>c. contexts (io_resolve ops ep ec conn b) ep = Some c \<longrightarrow> unlinked ops c)"
proof -
  let ?b = "io_resolve ops ep ec conn b"
  have "mailbox_at sent ?b ep = mailbox_at sent b ep \<and> (\<forall>c. contexts ?b ep = Some c \<longrightarrow> unlinked ops c)"
  proof (cases "\<exists>c. contexts b ep = Some c \<and> resolving (listener_ptr c)")
    case False
    then have "?b = b" by (auto simp: io_resolve_def split: option.splits)
    then show ?thesis using links by simp
  next
    case True
    then obtain c where c: "contexts b ep = Some c" "resolving (listener_ptr c)" by blast
    have b': "contexts ?b ep = Some (c\<lparr>listener_ptr := OnResolve ops ec conn (listener_ptr c)\<rparr>)" "pending ep ?b = pending ep b"
      using c by (simp_all add: io_resolve_def pending_def)
    have M: "mailbox_at sent b ep = Some \<lparr>inbox = [], outbox = pending ep b, wire = []\<rparr>"
      using mailbox_at_the_session [OF c(1) laws] unlinked_session [OF links [OF c(1)] c(2)] laws
      by (simp add: WebsocketSession_def stream_laws_def)
    have un: "session_ptr (listener_ptr c) = Some s \<Longrightarrow> s = WebsocketSession (unconnected ops)" for s
      using links [OF c(1)] c(2) by (simp add: unlinked_def)
    show ?thesis
    proof (cases "\<not> ec \<and> conn \<noteq> None")
      case True
      then show ?thesis
        using laws fresh M b' by (auto simp: mailbox_at_context OnResolve_def unlinked_def stream_laws_def Let_def broker_defs)
    next
      case False
      then have "session_ptr (OnResolve ops ec conn (listener_ptr c)) = session_ptr (listener_ptr c)"
        by (auto simp: OnResolve_def DoResolve_def Let_def split: option.splits)
      with M b' c un show ?thesis by (auto simp: mailbox_at_context unlinked_def)
    qed
  qed
  then show ?thesis .
qed

lemma sim_read:
  assumes laws: "stream_laws ops sent" and links: "\<And>c. contexts b ep = Some c \<Longrightarrow> unlinked ops c" and inv: "broker_inv b"
  shows "mail_step (mailbox_at sent b ep) (Arrive d) None (mailbox_at sent (io_read ep ec d b) ep) \<and>
     (\<forall>c. contexts (io_read ep ec d b) ep = Some c \<longrightarrow> unlinked ops c)"
proof -
  let ?b = "io_read ep ec d b"
  have "mail_step (mailbox_at sent b ep) (Arrive d) None (mailbox_at sent ?b ep) \<and>
      (\<forall>c. contexts ?b ep = Some c \<longrightarrow> unlinked ops c)"
  proof (cases "\<exists>c s. contexts b ep = Some c \<and> session_ptr (listener_ptr c) = Some s \<and> reading s")
    case False
    then have "?b = b" by (auto simp: io_read_def split: option.splits)
    then show ?thesis using links mail_ignored by simp
  next
    case True
    then obtain c s where c: "contexts b ep = Some c" "session_ptr (listener_ptr c) = Some s" "reading s" by blast
    have ok: "session_ok s" using broker_inv_context [OF inv c(1)] c(2) by (simp add: context_ok_def)
    have b': "contexts ?b ep = Some (with_session (read_completes ec d s) c)" "pending ep ?b = pending ep b"
      using c by (simp_all add: io_read_def put_session_eq pending_def)
    have "s \<noteq> WebsocketSession w" for w using c(3) by (auto simp: WebsocketSession_def)
    then have "\<not> resolving (listener_ptr c)" using links [OF c(1)] c(2) unfolding unlinked_def by blast
    then have "unlinked ops (with_session (read_completes ec d s) c)" by (simp add: unlinked_def)
    moreover have "received (read_completes ec d s) = received s @ (if ec \<or> d = [] then [] else [d])"
        "wsock (read_completes ec d s) = wsock s"
      using ok c(3) by (simp_all add: read_completes_def session_ok_def Let_def broker_defs)
    ultimately show ?thesis
      using c b' mail_ignored [of "mailbox_at sent b ep" d]
        mail_arrive [of d "\<lparr>inbox = received s, outbox = pending ep b, wire = sent (wsock s)\<rparr>"]
      by (auto simp: mailbox_at_context mailbox_at_with_session)
  qed
  then show ?thesis .
qed

text \<open>Every event is a step of the mailbox of its endpoint.\<close>

lemma sim_event:
  assumes "refining ops sent b" "broker_step ops b ev b'" "fresh_connection sent ev" "event_endpoint ops ev = Some ep"
  shows "mail_step (mailbox_at sent b ep) (event_action ev) (event_answer ops b ev) (mailbox_at sent b' ep) \<and>
    (\<forall>c. contexts b' ep = Some c \<longrightarrow> unlinked ops c)"
proof -
  note inv = refiningD [OF assms(1)]
  show ?thesis
    using assms(2)
  proof (cases rule: broker_step.cases)
    case (step_open a p r)
    then show ?thesis using assms(4) sim_Open [OF inv(3), of ops a p ep r b' sent] by simp
  next
    case (step_close a p r)
    then show ?thesis using assms(4) sim_Close [of ops a p ep b r b' sent] by simp
  next
    case (step_send a p d r)
    then show ?thesis using assms(4) sim_Send [OF inv(1) _ _ inv(4), where a = a and p = p and d = d and r = r and b' = b'] by simp
  next
    case (step_receive a p r)
    then show ?thesis using assms(4) sim_Receive [OF inv(1) _ _ inv(4), where a = a and p = p and r = r and b' = b'] by simp
  next
    case (step_resolve ep' ec conn)
    then show ?thesis
      using assms(3,4) sim_resolve [OF inv(1) inv(4), where ep = ep and ec = ec and conn = conn] mail_connect by simp
  next
    case (step_read ep' ec d)
    then show ?thesis using assms(4) sim_read [OF inv(1) inv(4,3), where ep = ep and d = d and ec = ec] by simp
  qed
qed

interpretation broker_refines: refinement "observed_step ops sent" mailboxes_step "refining ops sent" "mailbox_at sent"
  for ops :: "'w ws_ops" and sent
proof
  fix b lab b'
  assume step: "observed_step ops sent b lab b'" and inv: "refining ops sent b"
  then obtain ev ep where ev: "broker_step ops b ev b'" "fresh_connection sent ev" "event_endpoint ops ev = Some ep"
      "lab = (ep, event_action ev, event_answer ops b ev)" unfolding observed_step_def by blast
  have other: "same_at e b b'" if "e \<noteq> ep" for e using broker_step_other [OF ev(1), of e] ev(3) that by simp
  note sim = sim_event [OF inv ev(1-3)]
  have "unlinked ops c" if "contexts b' e = Some c" for e c
    using sim other [of e] that refiningD(4) [OF inv, of e c] by (cases "e = ep") auto
  moreover have "broker_inv b'" using ev(1) refiningD(3) [OF inv] by (rule broker_step_inv)
  ultimately show "refining ops sent b'" using refiningD(1) [OF inv] by (simp add: refining_def)
  have "mailbox_at sent b' = (mailbox_at sent b)(ep := mailbox_at sent b' ep)"
    using other by (auto simp: fun_eq_iff mailbox_at_def waiting_def pending_def sent_at_def session_at_def)
  with sim ev(4) show "mailboxes_step (mailbox_at sent b) lab (mailbox_at sent b')"
    unfolding mailboxes_step_def by (metis (mono_tags, lifting) case_prodI)
qed

section \<open>Properties\<close>

text \<open>C4: the broker is an implementation of mailboxes: every run of it, in any interleaving of remote procedures
  with the I/O threads, is with the same calls and the same answers a run of the specification, in which a
  mailbox per endpoint has an inbox that is taken from the front, an outbox whose messages go out in their
  order, and a wire; connections, sessions, listeners and buffers do not show.\<close>

theorem broker_refines_mailboxes:
  assumes "stream_laws ops sent" "trace_run (observed_step ops sent) MessageBroker tr b"
  shows "trace_run mailboxes_step Map.empty tr (mailbox_at sent b)"
proof -
  have "refining ops sent MessageBroker" "mailbox_at sent MessageBroker = Map.empty"
    using assms(1) by (auto simp: refining_def broker_inv_def MessageBroker_def mailbox_at_def)
  then show ?thesis using broker_refines.run_simulated [OF assms(2)] by simp
qed

text \<open>A run: open, connect, a message arrives and is received.\<close>

definition example_trace :: "mail_label list" where
  "example_trace = [(example_ep, Open_box, Some ([], SUCCESS)), (example_ep, Connect_box, None),
     (example_ep, Arrive ''hi'', None), (example_ep, Receive_mail, Some (''hi'', SUCCESS))]"

definition opened_broker :: "(bool \<times> string list) broker" where
  "opened_broker = MessageBroker\<lparr>contexts := [example_ep \<mapsto> fresh_context example_ep]\<rparr>"

definition arrived_broker :: "(bool \<times> string list) broker" where
  "arrived_broker = io_read example_ep False ''hi'' (io_resolve example_ws example_ep False (Some (True, [])) opened_broker)"

lemma observed_stepI:
  "broker_step ops b ev b' \<Longrightarrow> fresh_connection sent ev \<Longrightarrow> event_endpoint ops ev = Some ep \<Longrightarrow>
   act = event_action ev \<Longrightarrow> r = event_answer ops b ev \<Longrightarrow> observed_step ops sent b (ep, act, r) b'"
  unfolding observed_step_def by blast

lemma example_run: "\<exists>b. trace_run (observed_step example_ws snd) MessageBroker example_trace b"
proof -
  let ?a = "''127.0.0.1''"
  let ?c = "io_resolve example_ws example_ep False (Some (True, [])) opened_broker"
  have o: "OpenConnection example_ws ?a 8087 2 MessageBroker = Some (SUCCESS, opened_broker)"
    by (simp add: OpenConnection_at [OF example_endpoint] opened_broker_def MessageBroker_def)
  have "session_at example_ep arrived_broker =
      Some \<lparr>wsock = (True, []), read_buffer = [], received = [''hi''], reading = True\<rparr>"
    by (simp add: session_at_def arrived_broker_def opened_broker_def io_read_def io_resolve_def fresh_context_def
        OnResolve_def read_completes_def Let_def broker_defs)
  then obtain b where r: "Receive example_ws ?a 8087 arrived_broker = Some ((''hi'', SUCCESS), b)"
    using Receive_session [OF example_endpoint] by (fastforce simp: fst_GetMessage)
  have "observed_step example_ws snd MessageBroker (example_ep, Open_box, Some ([], SUCCESS)) opened_broker"
    by (rule observed_stepI [OF step_open [OF o]]) (simp_all add: o example_endpoint del: example_ws_simps)
  moreover have "observed_step example_ws snd opened_broker (example_ep, Connect_box, None) ?c"
    by (rule observed_stepI [OF step_resolve]) simp_all
  moreover have "observed_step example_ws snd ?c (example_ep, Arrive ''hi'', None) arrived_broker"
    unfolding arrived_broker_def by (rule observed_stepI [OF step_read]) simp_all
  moreover have "observed_step example_ws snd arrived_broker (example_ep, Receive_mail, Some (''hi'', SUCCESS)) b"
    by (rule observed_stepI [OF step_receive [OF r]]) (simp_all add: r example_endpoint del: example_ws_simps)
  ultimately show ?thesis unfolding example_trace_def by (blast intro: trace_run.intros)
qed

theorem broker_refines_mailboxes_witness:
  "\<exists>b. trace_run (observed_step example_ws snd) MessageBroker example_trace b \<and>
     trace_run mailboxes_step Map.empty example_trace (mailbox_at snd b)"
proof -
  have "stream_laws example_ws snd" by (simp add: stream_laws_def example_stream_ok)
  with example_run show ?thesis using broker_refines_mailboxes by blast
qed

end
