(* ===== verification/Utils_Files.thy ===== *)
theory Utils_Files
  imports Posix_FS
begin

text \<open>
  The file, folder and command operations of the utilities plugin
  (\<open>remote_adapter_server/plugins/utils/utils_manager.cc\<close>). Every operation takes the file system
  and returns its result and the new file system; \<open>None\<close> stands for undefined behaviour, which
  \<open>JoinPath\<close> has on an empty path. The heap is a parameter \<open>malloc\<close>: \<open>malloc n\<close> is \<open>None\<close> when the
  allocation fails and otherwise the indeterminate contents of the new block.
\<close>

section \<open>Operations\<close>

definition kBackupSuffix :: string where "kBackupSuffix = ''_origin''"

definition JoinPath :: "string \<Rightarrow> string \<Rightarrow> string option" where
  "JoinPath path part_path =
     (if path = [] then None
      else Some ((if CHR ''/'' \<noteq> path ! (length path - 1) then path @ ''/'' else path) @ part_path))"

text \<open>
  \<open>dest << src.rdbuf()\<close>: nothing is inserted when either stream is not open, and inserting no
  character at all sets the failure bit of \<open>dest\<close>. The first component is the state of \<open>dest\<close>.
\<close>

definition copy_stream :: "path option \<Rightarrow> (path \<times> os) option \<Rightarrow> os \<Rightarrow> bool \<times> os" where
  "copy_stream src dest os =
     (case dest of
        None \<Rightarrow> (False, os)
      | Some (d, os1) \<Rightarrow>
          (case src of
             None \<Rightarrow> (False, os1)
           | Some s \<Rightarrow> let data = content os1 s in (data \<noteq> [], append_to d data os1)))"

definition FileBackup :: "os \<Rightarrow> string \<Rightarrow> string \<Rightarrow> (int \<times> os) option" where
  "FileBackup os file_path file_name = do {
     src_path \<leftarrow> JoinPath file_path file_name;
     let file_dest_path = src_path @ kBackupSuffix;
     let src = open_read os src_path;
     let (dest_ok, os1) = copy_stream src (open_write True os file_dest_path) os;
     Some (if src \<noteq> None \<and> dest_ok then SUCCESS else FAILED, os1) }"

definition FileDelete :: "os \<Rightarrow> string \<Rightarrow> string \<Rightarrow> (int \<times> os) option" where
  "FileDelete os file_path file_name = do {
     p \<leftarrow> JoinPath file_path file_name;
     let (res, os1) = remove_c os p;
     Some (if res \<noteq> 0 then FAILED else SUCCESS, os1) }"

definition FileRestore :: "os \<Rightarrow> string \<Rightarrow> string \<Rightarrow> (int \<times> os) option" where
  "FileRestore os file_path file_name = do {
     dest_path \<leftarrow> JoinPath file_path file_name;
     let file_src_path = dest_path @ kBackupSuffix;
     let src = open_read os file_src_path;
     let (dest_ok, os1) = copy_stream src (open_write True os dest_path) os;
     (_, os2) \<leftarrow> FileDelete os1 file_path (file_name @ kBackupSuffix);
     Some (if src \<noteq> None \<and> dest_ok then SUCCESS else FAILED, os2) }"

definition FileUpdate :: "os \<Rightarrow> string \<Rightarrow> string \<Rightarrow> string \<Rightarrow> (int \<times> os) option" where
  "FileUpdate os file_path file_name new_content = do {
     p \<leftarrow> JoinPath file_path file_name;
     Some (case open_write True os p of
             None \<Rightarrow> (FAILED, os)
           | Some (d, os1) \<Rightarrow> (SUCCESS, append_to d (c_str new_content) os1)) }"

definition FileExists :: "os \<Rightarrow> string \<Rightarrow> string \<Rightarrow> int option" where
  "FileExists os file_path file_name = do {
     p \<leftarrow> JoinPath file_path file_name;
     Some (if stat os p \<noteq> None then SUCCESS else FAILED) }"

text \<open>
  \<open>GetFileContent\<close> returns the text and the new value of its reference parameter \<open>offset\<close>. The
  lengths are \<open>unsigned long\<close> and wrap; \<open>fseek\<close> to a negative position fails and leaves the stream
  at its end; the string is built from the whole block whatever \<open>fread\<close> delivered. The length of a
  directory that \<open>fopen\<close> was willing to open is left to the system, so that case is \<open>None\<close> too.
\<close>

definition read_block ::
  "(int \<Rightarrow> string option) \<Rightarrow> string \<Rightarrow> int \<Rightarrow> int \<Rightarrow> string \<times> int" where
  "read_block malloc data offset max_size_content =
     (let file_len = to_ulong (int (length data) - offset);
          pos = (if offset < 0 then length data else nat offset);
          file_len = (if max_size_content \<noteq> 0
                      then (if max_size_content > file_len then file_len else max_size_content)
                      else file_len)
      in case malloc file_len of
           None \<Rightarrow> ([], FAILED)
         | Some buffer \<Rightarrow>
             let got = take (nat file_len) (drop pos data);
                 buffer = got @ drop (length got) buffer;
                 read = file_len;
                 file_len = int (length data);
                 sum = to_ulong (read + offset)
             in (take (nat read) buffer, to_long (if sum = file_len then SUCCESS else sum)))"

definition GetFileContent ::
  "(int \<Rightarrow> string option) \<Rightarrow> os \<Rightarrow> string \<Rightarrow> string \<Rightarrow> int \<Rightarrow> int \<Rightarrow> (string \<times> int) option" where
  "GetFileContent malloc os file_path file_name offset max_size_content = do {
     fname \<leftarrow> JoinPath file_path file_name;
     if opens_dir os fname then None
     else Some (case open_read os fname of
                  None \<Rightarrow> ([], FAILED)
                | Some file \<Rightarrow> read_block malloc (content os file) offset max_size_content) }"

definition FolderExists :: "os \<Rightarrow> string \<Rightarrow> int" where
  "FolderExists os folder_path = (if stat os folder_path \<noteq> None then SUCCESS else FAILED)"

text \<open>
  \<open>FolderDelete\<close> recurses into sub-directories; \<open>fuel\<close> bounds the depth of the recursion and running
  out of it is \<open>None\<close>. The loop over the directory stream is \<open>delete_entries\<close>, which stops at the first
  entry that could not be removed; its argument \<open>delete_folder\<close> is the recursive call. A name buffer
  that cannot be allocated has the effect of a refused \<open>stat\<close>: the entry counts as not removed.
\<close>

fun delete_entries ::
  "(os \<Rightarrow> string \<Rightarrow> (int \<times> os) option) \<Rightarrow> os \<Rightarrow> string \<Rightarrow> string list \<Rightarrow> (int \<times> os) option" where
  "delete_entries delete_folder os folder_path [] = Some (0, os)"
| "delete_entries delete_folder os folder_path (d_name # names) =
     (if d_name = ''.'' \<or> d_name = ''..'' then delete_entries delete_folder os folder_path names
      else
        let buf = c_str folder_path @ CHR ''/'' # d_name in
        (case (case stat os buf of
                 None \<Rightarrow> Some (-1, os)
               | Some (Dir es) \<Rightarrow> delete_folder os buf
               | Some (File s) \<Rightarrow> Some (unlink os buf)) of
           None \<Rightarrow> None
         | Some (res, os1) \<Rightarrow>
             if res = 0 then delete_entries delete_folder os1 folder_path names
             else Some (res, os1)))"

fun FolderDelete :: "nat \<Rightarrow> os \<Rightarrow> string \<Rightarrow> (int \<times> os) option" where
  "FolderDelete 0 os folder_path = None"
| "FolderDelete (Suc fuel) os folder_path =
     (case opendir os folder_path of
        None \<Rightarrow> Some (-1, os)
      | Some names \<Rightarrow>
          (case delete_entries (FolderDelete fuel) os folder_path names of
             None \<Rightarrow> None
           | Some (res, os1) \<Rightarrow> if res = 0 then Some (rmdir os1 folder_path) else Some (res, os1)))"

definition FolderCreate :: "os \<Rightarrow> string \<Rightarrow> int \<times> os" where
  "FolderCreate os folder_path =
     (let (dir_err, os1) = mkdir os folder_path in
      (if dir_err = -1 then FAILED else SUCCESS, os1))"

section \<open>Running a command\<close>

text \<open>
  \<open>fgets n\<close> takes at most \<open>n\<close> characters up to and including a newline; the flag says whether the
  end of the stream was met, which is when \<open>feof\<close> becomes true.
\<close>

fun fgets :: "nat \<Rightarrow> string \<Rightarrow> string \<times> string \<times> bool" where
  "fgets 0 rest = ([], rest, False)"
| "fgets (Suc n) [] = ([], [], True)"
| "fgets (Suc n) (c # cs) =
     (if c = CHR 0x0A then ([c], cs, False)
      else let (line, rest, eof) = fgets n cs in (c # line, rest, eof))"

lemma fgets_split: "fgets n s = (line, rest, eof) \<Longrightarrow> s = line @ rest"
  by (induction n s arbitrary: line rest eof rule: fgets.induct)
    (auto split: if_splits prod.splits)

lemma fgets_progress: "fgets (Suc n) s = (line, rest, False) \<Longrightarrow> line \<noteq> []"
  by (cases s) (auto split: if_splits prod.splits)

lemma fgets_length: "fgets n s = (line, rest, eof) \<Longrightarrow> length line \<le> n"
  by (induction n s arbitrary: line rest eof rule: fgets.induct)
    (auto split: if_splits prod.splits)

text \<open>The loop \<open>while (!feof(pipe))\<close> with its buffer of 128 bytes.\<close>

function pipe_loop :: "string \<Rightarrow> bool \<Rightarrow> string \<Rightarrow> string" where
  "pipe_loop rest eof command_output =
     (if eof then command_output
      else (case fgets 127 rest of
              (buffer, rest', eof') \<Rightarrow>
                pipe_loop rest' eof'
                  (if buffer \<noteq> [] then command_output @ c_str buffer else command_output)))"
  by pat_completeness auto
termination
proof (relation "measures [\<lambda>(rest, eof, out). length rest, \<lambda>(rest, eof, out). if eof then 0 else 1]",
    goal_cases)
  case 1
  then show ?case by simp
next
  case (2 rest eof out buffer y rest' eof')
  then have f: "fgets 127 rest = (buffer, rest', eof')" by simp
  then have s: "rest = buffer @ rest'" by (rule fgets_split)
  have "buffer \<noteq> []" if "\<not> eof'"
    using that f fgets_progress [of 126 rest buffer rest'] by simp
  with "2"(1) s show ?case by auto
qed

declare pipe_loop.simps [simp del]

definition WEXITSTATUS :: "int \<Rightarrow> int" where
  "WEXITSTATUS status = (status div 256) mod 256"

text \<open>
  The shell is a parameter: \<open>popen os cmd\<close> is \<open>None\<close> when no pipe can be made, otherwise what the
  command prints, the value of \<open>pclose\<close>, and the file system the command leaves.
\<close>

definition ExecuteCommand ::
  "(os \<Rightarrow> string \<Rightarrow> (string \<times> int \<times> os) option) \<Rightarrow> os \<Rightarrow> string \<Rightarrow> response_type \<times> os" where
  "ExecuteCommand popen os bash_command =
     (case popen os (c_str bash_command) of
        None \<Rightarrow> (([], FAILED), os)
      | Some (printed, term_status, os1) \<Rightarrow>
          let command_output = pipe_loop printed False [];
              term_status = (if -1 \<noteq> term_status then WEXITSTATUS term_status else FAILED);
              term_status = (if 0 = term_status then SUCCESS else FAILED)
          in ((command_output, term_status), os1))"

section \<open>File operations on an entry of a named directory\<close>

lemma JoinPath_entry:
  assumes "names_dir os d p" "good_name c"
  shows "\<exists>f. JoinPath d c = Some f \<and> resolve os f = Some (p @ [c])"
proof -
  have d: "d \<noteq> []" using assms(1) by (auto simp: names_dir_def resolve_def c_str_def)
  then obtain d' x where dx: "d = d' @ [x]" by (cases d rule: rev_cases) auto
  show ?thesis
  proof (cases "x = CHR ''/''")
    case True
    with assms dx have "resolve os (d' @ CHR ''/'' # c) = Some (p @ [c])"
      by (intro resolve_child_slash) (auto simp: names_dir_def)
    with True dx show ?thesis by (simp add: JoinPath_def)
  next
    case False
    from assms have "resolve os (d @ CHR ''/'' # c) = Some (p @ [c])"
      by (intro resolve_child) (auto simp: names_dir_def)
    with False d dx show ?thesis by (simp add: JoinPath_def)
  qed
qed

lemma JoinPath_suffix: "JoinPath d c = Some f \<Longrightarrow> JoinPath d (c @ t) = Some (f @ t)"
  by (auto simp: JoinPath_def split: if_splits)

abbreviation backup_name :: "string \<Rightarrow> string" where
  "backup_name c \<equiv> c @ kBackupSuffix"

lemma good_name_backup: "good_name c \<Longrightarrow> good_name (backup_name c)"
  by (cases c) (auto simp: good_name_def kBackupSuffix_def)

lemma kBackupSuffix_nonempty [simp]: "kBackupSuffix \<noteq> []"
  by (simp add: kBackupSuffix_def)

lemma JoinPath_both:
  assumes "names_dir os d p" "good_name c"
  obtains f where "JoinPath d c = Some f" "JoinPath d (backup_name c) = Some (f @ kBackupSuffix)"
    "resolve os f = Some (p @ [c])" "resolve os (f @ kBackupSuffix) = Some (p @ [backup_name c])"
proof -
  obtain f where f: "JoinPath d c = Some f" "resolve os f = Some (p @ [c])"
    using JoinPath_entry [OF assms] by blast
  then have b: "JoinPath d (backup_name c) = Some (f @ kBackupSuffix)" by (simp add: JoinPath_suffix)
  with JoinPath_entry [OF assms(1) good_name_backup [OF assms(2)]]
  have "resolve os (f @ kBackupSuffix) = Some (p @ [backup_name c])" by auto
  with f b that show thesis by blast
qed

text \<open>What the system lets the server do with the entry \<open>c\<close> of the directory \<open>p\<close>.\<close>

definition allowed :: "os \<Rightarrow> path \<Rightarrow> string \<Rightarrow> bool" where
  "allowed os p c \<longleftrightarrow> (\<forall>k \<in> {Open_read, Open_write, Unlink}. \<not> refuses os k (p @ [c]))"

lemma allowed_set_node [simp]: "allowed (set_node q x os) p c = allowed os p c"
  by (simp add: allowed_def)

lemma allowedD: "allowed os p c \<Longrightarrow> \<not> refuses os Open_read (p @ [c])"
  "allowed os p c \<Longrightarrow> \<not> refuses os Open_write (p @ [c])"
  "allowed os p c \<Longrightarrow> \<not> refuses os Unlink (p @ [c])"
  by (auto simp: allowed_def)

lemma FileUpdate_entry:
  assumes "names_dir os d p" "good_name c" "allowed os p c"
    and "\<not> is_Dir (lookup (root os) (p @ [c]))"
  shows "FileUpdate os d c t = Some (SUCCESS, set_node (p @ [c]) (Some (File (c_str t))) os)"
proof -
  obtain f where f: "JoinPath d c = Some f" "resolve os f = Some (p @ [c])"
    using JoinPath_entry [OF assms(1,2)] by blast
  have "is_Dir (lookup (root os) p)" using assms(1) by (simp add: names_dir_def)
  with f assms(3,4) show ?thesis
    by (simp add: FileUpdate_def open_write_trunc allowedD append_to_file)
qed

lemma FileBackup_entry:
  assumes "names_dir os d p" "good_name c" "allowed os p c" "allowed os p (backup_name c)"
    and "lookup (root os) (p @ [c]) = Some (File s)"
    and "\<not> is_Dir (lookup (root os) (p @ [backup_name c]))"
  shows "FileBackup os d c =
     Some (if s \<noteq> [] then SUCCESS else FAILED,
           set_node (p @ [backup_name c]) (Some (File s)) os)"
proof -
  obtain f where f: "JoinPath d c = Some f" "JoinPath d (backup_name c) = Some (f @ kBackupSuffix)"
    "resolve os f = Some (p @ [c])" "resolve os (f @ kBackupSuffix) = Some (p @ [backup_name c])"
    using JoinPath_both [OF assms(1,2)] by metis
  have p: "is_Dir (lookup (root os) p)" using assms(1) by (simp add: names_dir_def)
  have "content (set_node (p @ [backup_name c]) (Some (File [])) os) (p @ [c]) = s"
    by (simp add: content_def lookup_entry_other assms(5))
  with f p assms(3-6) show ?thesis
    by (simp add: FileBackup_def open_read_file open_write_trunc allowedD copy_stream_def
        append_to_file Let_def)
qed

lemma FileRestore_entry:
  assumes "names_dir os d p" "good_name c" "allowed os p c" "allowed os p (backup_name c)"
    and "lookup (root os) (p @ [backup_name c]) = Some (File s)"
    and "\<not> is_Dir (lookup (root os) (p @ [c]))"
  shows "FileRestore os d c =
     Some (if s \<noteq> [] then SUCCESS else FAILED,
           set_node (p @ [backup_name c]) None (set_node (p @ [c]) (Some (File s)) os))"
proof -
  obtain f where f: "JoinPath d c = Some f" "JoinPath d (backup_name c) = Some (f @ kBackupSuffix)"
    "resolve os f = Some (p @ [c])" "resolve os (f @ kBackupSuffix) = Some (p @ [backup_name c])"
    using JoinPath_both [OF assms(1,2)] by metis
  have p: "is_Dir (lookup (root os) p)" using assms(1) by (simp add: names_dir_def)
  let ?os1 = "set_node (p @ [c]) (Some (File s)) os"
  have data: "content (set_node (p @ [c]) (Some (File [])) os) (p @ [backup_name c]) = s"
    by (simp add: content_def lookup_entry_other assms(5))
  have nd: "names_dir ?os1 d p" using assms(1,6) by (rule names_dir_set_node)
  have r: "resolve ?os1 (f @ kBackupSuffix) = Some (p @ [backup_name c])"
    using JoinPath_entry [OF nd good_name_backup [OF assms(2)]] f(2) by auto
  have "remove_c ?os1 (f @ kBackupSuffix) = (0, set_node (p @ [backup_name c]) None ?os1)"
    using r assms(4,5) by (intro remove_c_file) (auto simp: lookup_entry_other allowedD)
  with f p data assms(3-6) show ?thesis
    by (simp add: FileRestore_def FileDelete_def open_read_file open_write_trunc allowedD
        copy_stream_def append_to_file Let_def)
qed

lemma FileRestore_no_backup:
  assumes "names_dir os d p" "good_name c" "allowed os p c"
    and "lookup (root os) (p @ [backup_name c]) = None"
    and "\<not> is_Dir (lookup (root os) (p @ [c]))"
  shows "FileRestore os d c = Some (FAILED, set_node (p @ [c]) (Some (File [])) os)"
proof -
  obtain f where f: "JoinPath d c = Some f" "JoinPath d (backup_name c) = Some (f @ kBackupSuffix)"
    "resolve os f = Some (p @ [c])" "resolve os (f @ kBackupSuffix) = Some (p @ [backup_name c])"
    using JoinPath_both [OF assms(1,2)] by metis
  let ?os1 = "set_node (p @ [c]) (Some (File [])) os"
  have nd: "names_dir ?os1 d p" using assms(1,5) by (rule names_dir_set_node)
  have r: "resolve ?os1 (f @ kBackupSuffix) = Some (p @ [backup_name c])"
    using JoinPath_entry [OF nd good_name_backup [OF assms(2)]] f(2) by auto
  have "remove_c ?os1 (f @ kBackupSuffix) = (-1, ?os1)"
    using r assms(4) by (intro remove_c_absent) (auto simp: lookup_entry_other)
  with f assms(3-5) show ?thesis
    by (simp add: FileRestore_def FileDelete_def open_read_absent open_write_trunc allowedD
        copy_stream_def Let_def)
qed

section \<open>Reading a file in pieces\<close>

definition malloc_ok :: "(int \<Rightarrow> string option) \<Rightarrow> bool" where
  "malloc_ok malloc \<longleftrightarrow> (\<forall>n \<ge> 0. \<exists>b. malloc n = Some b \<and> length b = nat n)"

definition piece_size :: "string \<Rightarrow> int \<Rightarrow> int \<Rightarrow> int" where
  "piece_size s offset max_size =
     (if max_size = 0 then int (length s) - offset else min max_size (int (length s) - offset))"

lemma read_block_slice:
  assumes "malloc_ok malloc"
    and "0 \<le> offset" "offset \<le> int (length s)" "int (length s) < 2 ^ 63" "0 \<le> max_size"
  defines "n \<equiv> piece_size s offset max_size"
  shows "read_block malloc s offset max_size =
     (take (nat n) (drop (nat offset) s), if offset + n = int (length s) then 0 else offset + n)"
proof -
  have n: "0 \<le> n" "n \<le> int (length s) - offset" using assms by (auto simp: piece_size_def)
  obtain b where b: "malloc n = Some b" "length b = nat n" using assms(1) n by (auto simp: malloc_ok_def)
  have u: "to_ulong (int (length s) - offset) = int (length s) - offset"
    and v: "to_ulong (n + offset) = n + offset" and w: "to_long (n + offset) = n + offset" "to_long 0 = 0"
    using assms n by (auto intro!: to_ulong_id to_long_id simp: is_long_def)
  have len: "(if max_size \<noteq> 0 then if max_size > int (length s) - offset
      then int (length s) - offset else max_size else int (length s) - offset) = n"
    by (auto simp: n_def piece_size_def)
  have g: "length (take (nat n) (drop (nat offset) s)) = nat n" using n assms(2,3) by simp
  show ?thesis
    unfolding read_block_def Let_def u len b option.case v
    using assms(2) g b(2) w by (auto simp: add.commute)
qed

lemma read_block_past_end:
  assumes "int (length s) < offset" "0 < max_size" "offset + max_size < 2 ^ 63"
    and "malloc max_size = Some block" "length block = nat max_size"
  shows "read_block malloc s offset max_size = (block, offset + max_size)"
proof -
  have "to_ulong (int (length s) - offset) = to_ulong (int (length s) - offset + 2 ^ 64)"
    by (simp add: to_ulong_def take_bit_eq_mod)
  also have "\<dots> = int (length s) - offset + 2 ^ 64"
    using assms(1-3) by (intro to_ulong_id) auto
  finally have u: "\<not> max_size > to_ulong (int (length s) - offset)"
    using assms(1-3) by simp
  have v: "to_ulong (max_size + offset) = max_size + offset" "to_long (max_size + offset) = max_size + offset"
    using assms(1-3) by (auto intro!: to_ulong_id to_long_id simp: is_long_def)
  have e: "drop (nat offset) s = []" using assms(1) by simp
  from u v e assms show ?thesis by (auto simp: read_block_def Let_def)
qed

lemma GetFileContent_entry:
  assumes "names_dir os d p" "good_name c" "\<not> refuses os Open_read (p @ [c])"
    and "lookup (root os) (p @ [c]) = Some (File s)"
  shows "GetFileContent malloc os d c offset max_size = Some (read_block malloc s offset max_size)"
proof -
  obtain f where f: "JoinPath d c = Some f" "resolve os f = Some (p @ [c])"
    using JoinPath_entry [OF assms(1,2)] by blast
  then have "open_read os f = Some (p @ [c])" using assms(3,4) by (simp add: open_read_file)
  with f assms(4) show ?thesis by (simp add: GetFileContent_def content_def opens_dir_def)
qed

section \<open>Removing a folder\<close>

definition deletable :: "os \<Rightarrow> string \<Rightarrow> path \<Rightarrow> node \<Rightarrow> bool" where
  "deletable os d p n \<longleftrightarrow> wf_node (root os) \<and> plain_path d \<and> resolve os d = Some p \<and> p \<noteq> [] \<and>
     lookup (root os) p = Some n \<and> (\<forall>k q. prefix p q \<longrightarrow> \<not> refuses os k q)"

lemma deletable_wf: "deletable os d p n \<Longrightarrow> wf_node n"
  by (rule wf_node_lookup [of "root os" p]) (simp_all add: deletable_def)

lemma deletable_remove_entry:
  assumes "deletable os d p (Dir es)"
  shows "deletable (set_node (p @ [c]) None os) d p (Dir (AList.delete c es))"
proof -
  let ?os = "set_node (p @ [c]) None os"
  have r: "resolve ?os d = Some p"
  proof (rule resolve_stable)
    show "is_Dir (lookup (root ?os) u)" if "prefix u p" "is_Dir (lookup (root os) u)" for u
      using that by (auto intro!: is_Dir_lookup_change dest: prefix_order.trans simp: prefix_def)
  qed (use assms in \<open>auto simp: deletable_def\<close>)
  moreover have "wf_node (root ?os)"
    using assms by (auto simp: deletable_def intro: wf_node_change)
  ultimately show ?thesis
    using assms lookup_change_parent [of "root os" p es c None] by (simp add: deletable_def)
qed

lemma deletable_entry:
  assumes "deletable os d p (Dir es)" "map_of es c = Some m"
  shows "deletable os (d @ CHR ''/'' # c) (p @ [c]) m"
proof -
  have "wf_node (Dir es)" using assms(1) by (rule deletable_wf)
  with assms(2) have c: "good_name c" using wf_node_Dir_map_of by blast
  have "NUL \<notin> set d" "is_Dir (lookup (root os) p)"
    using assms(1) by (auto simp: deletable_def plain_path_def)
  with assms c show ?thesis
    by (auto simp: deletable_def resolve_child plain_path_child lookup_snoc
        dest: append_prefixD)
qed

lemma deletable_unlink:
  assumes "deletable os d p (File s)"
  shows "unlink os d = (0, set_node p None os)"
  using assms by (simp add: deletable_def unlink_def)

lemma delete_entries_all:
  assumes "deletable os d p (Dir es)" "height (Dir es) \<le> Suc fuel"
    and IH: "\<And>os d p es. deletable os d p (Dir es) \<Longrightarrow> height (Dir es) \<le> fuel \<Longrightarrow>
      del os d = Some (0, set_node p None os)"
  shows "\<exists>os'. delete_entries del os d (map fst es) = Some (0, os') \<and>
     deletable os' d p (Dir []) \<and> set_node p None os' = set_node p None os"
  using assms(1,2)
proof (induction "map fst es" arbitrary: os es)
  case Nil
  then show ?case by auto
next
  case (Cons c ns)
  have "wf_node (Dir es)" using Cons.prems(1) by (rule deletable_wf)
  obtain m es' where es: "es = (c, m) # es'" using Cons.hyps(2) by (cases es) auto
  with \<open>wf_node (Dir es)\<close> have c: "good_name c" "c \<notin> fst ` set es'" by auto
  have d: "c_str d = d" using Cons.prems by (simp add: deletable_def plain_path_def c_str_id)
  let ?os1 = "set_node (p @ [c]) None os"
  have m: "deletable os (d @ CHR ''/'' # c) (p @ [c]) m"
    using Cons.prems(1) es by (intro deletable_entry) auto
  have st: "stat os (d @ CHR ''/'' # c) = Some m" using m by (simp add: deletable_def stat_def)
  have step: "(case m of Dir es \<Rightarrow> del os (d @ CHR ''/'' # c) | File s \<Rightarrow> Some (unlink os (d @ CHR ''/'' # c)))
      = Some (0, ?os1)"
  proof (cases m)
    case (File s)
    with m show ?thesis by (simp add: deletable_unlink)
  next
    case (Dir fs)
    have "height m \<le> fuel" using height_entry [of "(c, m)" es] es Cons.prems(2) by simp
    with m Dir show ?thesis by (simp add: IH)
  qed
  have del: "AList.delete c es = es'" using es c by simp
  have "deletable ?os1 d p (Dir es')"
    using deletable_remove_entry [OF Cons.prems(1), of c] del by simp
  moreover have "height (Dir es') \<le> Suc fuel"
    using height_mono [of es' es] height_entry [of _ es] es Cons.prems(2) by force
  moreover have "ns = map fst es'" using es Cons.hyps(2) by simp
  ultimately obtain os' where os': "delete_entries del ?os1 d ns = Some (0, os')"
      "deletable os' d p (Dir [])" "set_node p None os' = set_node p None ?os1"
    using Cons.hyps(1) by blast
  have "set_node p None ?os1 = set_node p None os"
    using Cons.prems(1) by (intro set_node_None_below) (auto simp: deletable_def)
  moreover have "delete_entries del os d (c # ns) = Some (0, os')"
    using c d st step os'(1) by (auto simp: good_name_def Let_def split: node.splits)
  ultimately show ?case using os' Cons.hyps(2) by metis
qed

lemma FolderDelete_removes:
  "deletable os d p (Dir es) \<Longrightarrow> height (Dir es) \<le> fuel \<Longrightarrow>
     FolderDelete fuel os d = Some (0, set_node p None os)"
proof (induction fuel arbitrary: os d p es)
  case 0
  then show ?case by simp
next
  case (Suc fuel)
  obtain os' where os': "delete_entries (FolderDelete fuel) os d (map fst es) = Some (0, os')"
      "deletable os' d p (Dir [])" "set_node p None os' = set_node p None os"
    using delete_entries_all [OF Suc.prems] Suc.IH by metis
  have "opendir os d = Some (''.'' # ''..'' # map fst es)"
    using Suc.prems(1) by (simp add: opendir_def deletable_def)
  moreover have "rmdir os' d = (0, set_node p None os')"
    using os'(2) last_component_plain [of d] by (simp add: deletable_def rmdir_def)
  ultimately show ?case using os' by simp
qed

text \<open>The recursion never runs out of fuel once the fuel covers the height of the tree, whatever
  the system refuses on the way.\<close>

definition returns_shrunk :: "os \<Rightarrow> (int \<times> os) option \<Rightarrow> bool" where
  "returns_shrunk os res \<longleftrightarrow> (\<exists>r os'. res = Some (r, os') \<and> shrinks os os' \<and> wf_node (root os'))"

lemma returns_shrunkI:
  "shrinks os (snd x) \<Longrightarrow> wf_node (root (snd x)) \<Longrightarrow> returns_shrunk os (Some x)"
  by (cases x) (auto simp: returns_shrunk_def)

text \<open>One entry of a directory, of which something may be gone already.\<close>

lemma delete_entry_total:
  assumes "resolve os d = Some p" "lookup (root os) p = Some (Dir es)" "height (Dir es) \<le> Suc fuel"
    and "shrinks os os1" "wf_node (root os1)" and c: "good_name c"
    and IH: "\<And>os1 d1 p1 fs. wf_node (root os1) \<Longrightarrow> resolve os1 d1 = Some p1 \<Longrightarrow>
      lookup (root os1) p1 = Some (Dir fs) \<Longrightarrow> height (Dir fs) \<le> fuel \<Longrightarrow> returns_shrunk os1 (del os1 d1)"
  shows "returns_shrunk os1 (case stat os1 (c_str d @ CHR ''/'' # c) of None \<Rightarrow> Some (-1, os1)
    | Some (Dir fs) \<Rightarrow> del os1 (c_str d @ CHR ''/'' # c) | Some (File s) \<Rightarrow> Some (unlink os1 (c_str d @ CHR ''/'' # c)))"
proof (cases "stat os1 (c_str d @ CHR ''/'' # c)")
  case None
  with assms(5) show ?thesis by (auto intro: returns_shrunkI)
next
  case (Some m)
  have d: "c_str d \<noteq> []" using assms(1) by (auto simp: resolve_def Let_def)
  from Some obtain q where q: "resolve os1 (c_str d @ CHR ''/'' # c) = Some q" "lookup (root os1) q = Some m"
    by (auto simp: stat_def split: option.splits if_splits)
  with resolve_child_inv [OF q(1) d c] obtain p' where p': "resolve os1 d = Some p'" "q = p' @ [c]"
    by blast
  then have "p' = p" using resolve_unique [OF assms(1)] assms(4) by (auto simp: shrinks_def)
  with q p' assms(4) obtain n where "lookup (root os) (p @ [c]) = Some n" "height m \<le> height n"
    by (auto simp: shrinks_def)
  with assms(2,3) have "height m \<le> fuel"
    using height_child [of es c n] by (simp add: lookup_snoc)
  with Some q assms(5) show ?thesis
    by (cases m) (auto intro: returns_shrunkI shrinks_unlink wf_unlink IH)
qed

lemma delete_entries_total:
  assumes "resolve os d = Some p" "lookup (root os) p = Some (Dir es)" "height (Dir es) \<le> Suc fuel"
    and "shrinks os os1" "wf_node (root os1)" "\<And>c. c \<in> set ns \<Longrightarrow> c \<in> {''.'', ''..''} \<or> good_name c"
    and IH: "\<And>os1 d1 p1 fs. wf_node (root os1) \<Longrightarrow> resolve os1 d1 = Some p1 \<Longrightarrow>
      lookup (root os1) p1 = Some (Dir fs) \<Longrightarrow> height (Dir fs) \<le> fuel \<Longrightarrow> returns_shrunk os1 (del os1 d1)"
  shows "returns_shrunk os (delete_entries del os1 d ns)"
  using assms(4-6)
proof (induction ns arbitrary: os1)
  case Nil
  then show ?case by (auto intro: returns_shrunkI)
next
  case (Cons c ns)
  let ?buf = "c_str d @ CHR ''/'' # c"
  let ?step = "case stat os1 ?buf of None \<Rightarrow> Some (-1, os1)
    | Some (Dir fs) \<Rightarrow> del os1 ?buf | Some (File s) \<Rightarrow> Some (unlink os1 ?buf)"
  show ?case
  proof (cases "c \<in> {''.'', ''..''}")
    case True
    with Cons show ?thesis by auto
  next
    case False
    with Cons.prems(3) have c: "good_name c" by auto
    have "returns_shrunk os1 ?step" by (rule delete_entry_total [OF assms(1-3) Cons.prems(1,2) c IH])
    then obtain r os2 where r: "?step = Some (r, os2)" "shrinks os1 os2" "wf_node (root os2)"
      by (auto simp: returns_shrunk_def)
    with Cons.prems have s: "shrinks os os2" by (blast intro: shrinks_trans)
    have "delete_entries del os1 d (c # ns) =
        (case ?step of None \<Rightarrow> None
         | Some (res, os2) \<Rightarrow> if res = 0 then delete_entries del os2 d ns else Some (res, os2))"
      using False by (simp add: Let_def)
    also have "\<dots> = (if r = 0 then delete_entries del os2 d ns else Some (r, os2))"
      by (simp only: r(1) option.case prod.case)
    finally show ?thesis
      using Cons.IH [OF s r(3)] Cons.prems(3) s r(3) by (auto intro: returns_shrunkI)
  qed
qed

lemma FolderDelete_fuel:
  "wf_node (root os) \<Longrightarrow> resolve os d = Some p \<Longrightarrow> lookup (root os) p = Some (Dir es) \<Longrightarrow>
     height (Dir es) \<le> fuel \<Longrightarrow> returns_shrunk os (FolderDelete fuel os d)"
proof (induction fuel arbitrary: os d p es)
  case 0
  then show ?case by simp
next
  case (Suc fuel)
  show ?case
  proof (cases "opendir os d")
    case None
    with Suc.prems show ?thesis by (auto intro: returns_shrunkI)
  next
    case (Some names)
    have wf: "wf_node (Dir es)" using Suc.prems(1,3) by (rule wf_node_lookup)
    from Some Suc.prems have "names = ''.'' # ''..'' # map fst es"
      by (auto simp: opendir_def split: if_splits)
    with wf have ns: "c \<in> {''.'', ''..''} \<or> good_name c" if "c \<in> set names" for c
      using that by auto
    have "returns_shrunk os (delete_entries (FolderDelete fuel) os d names)"
      using Suc.IH by (intro delete_entries_total [OF Suc.prems(2-4) shrinks_refl Suc.prems(1) ns]) auto
    then obtain r os1 where r: "delete_entries (FolderDelete fuel) os d names = Some (r, os1)"
        "shrinks os os1" "wf_node (root os1)"
      by (auto simp: returns_shrunk_def)
    with Some shrinks_trans [OF r(2) shrinks_rmdir] wf_rmdir [OF r(3)] show ?thesis
      by (auto intro: returns_shrunkI)
  qed
qed

lemma FolderDelete_returns:
  assumes "wf_node (root os)" "height (root os) < fuel"
  shows "returns_shrunk os (FolderDelete fuel os d)"
proof (cases "opendir os d")
  case None
  obtain f where "fuel = Suc f" using assms(2) by (cases fuel) auto
  with None assms(1) show ?thesis by (simp add: returns_shrunkI)
next
  case (Some names)
  then obtain p es where p: "resolve os d = Some p" "lookup (root os) p = Some (Dir es)"
    by (auto simp: opendir_def split: option.splits if_splits node.splits)
  then have "height (Dir es) \<le> fuel" using height_lookup [OF p(2)] assms(2) by simp
  with assms(1) p show ?thesis by (rule FolderDelete_fuel)
qed

section \<open>The output of a command\<close>

lemma fgets_eof: "fgets n s = (line, rest, True) \<Longrightarrow> rest = []"
  by (induction n s arbitrary: line rest rule: fgets.induct) (auto split: if_splits prod.splits)

lemma pipe_loop_output:
  "NUL \<notin> set rest \<Longrightarrow> pipe_loop rest eof out = (if eof then out else out @ rest)"
proof (induction rest eof out rule: pipe_loop.induct)
  case (1 rest eof out)
  show ?case
  proof (cases eof)
    case True
    then show ?thesis by (simp add: pipe_loop.simps)
  next
    case False
    obtain b r e where f: "fgets 127 rest = (b, r, e)" by (cases "fgets 127 rest") auto
    then have s: "rest = b @ r" by (rule fgets_split)
    have e: "r = []" if e using that f fgets_eof [of 127 rest b r] by simp
    have b: "c_str b = b" using s "1.prems" by (simp add: c_str_id)
    have "pipe_loop rest eof out = pipe_loop r e (if b \<noteq> [] then out @ c_str b else out)"
      using False f by (simp add: pipe_loop.simps [of rest False out])
    also have "\<dots> = (if e then out @ b else out @ b @ r)"
      using "1.IH" [OF False f [symmetric] refl] s b "1.prems" by (auto split: if_splits)
    finally show ?thesis using False s e by simp
  qed
qed

section \<open>Properties\<close>



text \<open>Restoring a file that has no backup destroys it: \<open>FileRestore\<close> opens the target for
  writing, and so truncates it, before it knows whether the backup exists; it answers \<open>FAILED\<close> and
  leaves an empty file.\<close>

theorem restore_without_backup_truncates:
  assumes "names_dir os d p" "good_name c" "allowed os p c"
    and "lookup (root os) (p @ [c]) = Some (File s)"
    and "lookup (root os) (p @ [backup_name c]) = None"
  shows "\<exists>os'. FileRestore os d c = Some (FAILED, os') \<and> lookup (root os') (p @ [c]) = Some (File [])"
proof -
  have "is_Dir (lookup (root os) p)" using assms(1) by (simp add: names_dir_def)
  with FileRestore_no_backup [OF assms(1-3,5)] assms(4) show ?thesis
    by (simp add: lookup_entry_same)
qed

theorem restore_without_backup_truncates_witness:
  "\<exists>os'. FileRestore example_os ''/home'' ''a.txt'' = Some (FAILED, os') \<and>
     lookup (root os') [''home'', ''a.txt''] = Some (File [])"
  using restore_without_backup_truncates [OF example_names_home, of "''a.txt''" "''hello''"]
  by (simp add: good_name_def allowed_def kBackupSuffix_def)

text \<open>A backup of an empty file is made and yet reported as failed, because copying no
  character sets the failure bit of the output stream.\<close>

theorem backup_of_empty_file_fails:
  assumes "names_dir os d p" "good_name c" "allowed os p c" "allowed os p (backup_name c)"
    and "lookup (root os) (p @ [c]) = Some (File [])"
    and "\<not> is_Dir (lookup (root os) (p @ [backup_name c]))"
  shows "\<exists>os'. FileBackup os d c = Some (FAILED, os') \<and>
     lookup (root os') (p @ [backup_name c]) = Some (File [])"
proof -
  have "is_Dir (lookup (root os) p)" using assms(1) by (simp add: names_dir_def)
  with FileBackup_entry [OF assms] show ?thesis by (simp add: lookup_entry_same)
qed

theorem backup_of_empty_file_fails_witness:
  "\<exists>os'. FileBackup example_os ''/home'' ''empty'' = Some (FAILED, os') \<and>
     lookup (root os') [''home'', backup_name ''empty''] = Some (File [])"
  using backup_of_empty_file_fails [OF example_names_home, of "''empty''"]
  by (simp add: good_name_def allowed_def kBackupSuffix_def)



text \<open>An offset past the end of the file is not refused: the length computed as an unsigned
  difference wraps around, so the reply is a full block of memory that was allocated and never
  written, with an offset that moves on by the size of that block.\<close>

theorem get_file_content_past_end:
  assumes "names_dir os d p" "good_name c" "\<not> refuses os Open_read (p @ [c])"
    and "lookup (root os) (p @ [c]) = Some (File s)"
    and "int (length s) < offset" "0 < max_size" "offset + max_size < 2 ^ 63"
    and "malloc max_size = Some block" "length block = nat max_size"
  shows "GetFileContent malloc os d c offset max_size = Some (block, offset + max_size)"
  using GetFileContent_entry [OF assms(1-4)] assms(5-9)
  by (simp add: read_block_past_end)

theorem get_file_content_past_end_witness:
  "GetFileContent (\<lambda>n. Some (replicate (nat n) (CHR ''?''))) example_os ''/home'' ''a.txt'' 9 2 =
     Some (''??'', 11)"
  using get_file_content_past_end [OF example_names_home, of "''a.txt''" "''hello''" 9 2
      "\<lambda>n. Some (replicate (nat n) (CHR ''?''))" "''??''"]
  by (simp add: good_name_def numeral_2_eq_2)



text \<open>C25: \<open>FolderDelete\<close> always returns: for any name and whatever calls the system refuses, fuel
  beyond the height of the tree suffices, and the tree it leaves has no path the old one did not
  have.\<close>

theorem folder_delete_terminates:
  assumes "wf_node (root os)" "height (root os) < fuel"
  shows "\<exists>res os'. FolderDelete fuel os d = Some (res, os') \<and> shrinks os os'"
  using FolderDelete_returns [OF assms, of d] by (auto simp: returns_shrunk_def)

theorem folder_delete_terminates_witness:
  "\<exists>res os'. FolderDelete 5 example_os ''/home/../home'' = Some (res, os') \<and> shrinks example_os os'"
  using folder_delete_terminates [OF example_wf, of 5 "''/home/../home''"] by simp

text \<open>The output of a command reaches the client complete: reading the pipe in pieces of at
  most 127 characters loses and adds nothing as long as the command prints no NUL byte, and the code
  is \<open>SUCCESS\<close> exactly when the command exited with status 0.\<close>

theorem execute_command_output:
  assumes "popen os (c_str cmd) = Some (printed, status, os1)" "NUL \<notin> set printed"
    and "status = 256 * code" "0 \<le> code" "code < 256"
  shows "ExecuteCommand popen os cmd = ((printed, if code = 0 then SUCCESS else FAILED), os1)"
  using assms pipe_loop_output [of printed False "[]"]
  by (simp add: ExecuteCommand_def WEXITSTATUS_def)

theorem execute_command_output_witness:
  "fst (ExecuteCommand (\<lambda>os cmd. Some (replicate 300 (CHR ''z''), 256, os)) example_os ''cat z'') =
     (replicate 300 (CHR ''z''), FAILED)"
  using execute_command_output [of "\<lambda>os cmd. Some (replicate 300 (CHR ''z''), 256, os)" example_os
      "''cat z''" "replicate 300 (CHR ''z'')" 256 example_os 1]
  by simp

text \<open>A command that is killed by a signal is reported as successful: only the exit status of
  the value of \<open>pclose\<close> is looked at, and that is 0 for every termination by a signal.\<close>

theorem killed_command_reported_success:
  assumes "popen os (c_str cmd) = Some (printed, sig, os1)" "1 \<le> sig" "sig < 128"
  shows "snd (fst (ExecuteCommand popen os cmd)) = SUCCESS"
proof -
  have "sig div 256 = 0" using assms(2,3) by simp
  with assms show ?thesis by (simp add: ExecuteCommand_def WEXITSTATUS_def Let_def)
qed

theorem killed_command_reported_success_witness:
  "snd (fst (ExecuteCommand (\<lambda>os cmd. Some ([], 9, os)) example_os ''sleep 9'')) = SUCCESS"
  using killed_command_reported_success [of "\<lambda>os cmd. Some ([], 9, os)" example_os "''sleep 9''" "[]" 9
      example_os]
  by simp

end
