(* ===== verification/Utils_Apps.thy ===== *)
theory Utils_Apps
  imports Posix_FS
begin

text \<open>
  The application control of the utilities plugin (\<open>utils_manager.cc\<close>): starting, stopping and
  watching an application, and what \<open>/proc\<close> says about it (the branch for systems other than QNX).
  The kernel's process services are a parameter, a record of functions over a host state \<open>'h\<close>; the
  results of the code are stated for all of them.
\<close>

section \<open>Process services\<close>

record 'h proc_ops =
  readdir_proc :: "'h \<Rightarrow> string list option"
  readdir_task :: "'h \<Rightarrow> int \<Rightarrow> string list option"
  read_cmdline :: "'h \<Rightarrow> int \<Rightarrow> string option"
  stat_proc :: "'h \<Rightarrow> int \<Rightarrow> bool"
  kill :: "'h \<Rightarrow> int \<Rightarrow> int \<Rightarrow> int \<times> 'h"
  posix_spawn :: "'h \<Rightarrow> path \<Rightarrow> string \<Rightarrow> int option \<times> 'h"

definition SIGTERM :: int where "SIGTERM = 15"
definition SIGKILL :: int where "SIGKILL = 9"
definition PATH_MAX :: nat where "PATH_MAX = 4096"

section \<open>Operations\<close>

definition AppExists :: "'h proc_ops \<Rightarrow> 'h \<Rightarrow> int \<Rightarrow> bool" where
  "AppExists ops h app_pid = stat_proc ops h app_pid"

definition KillApp :: "'h proc_ops \<Rightarrow> 'h \<Rightarrow> int \<Rightarrow> int \<Rightarrow> int \<times> 'h" where
  "KillApp ops h app_pid sig =
     (let (r, h1) = kill ops h app_pid sig in
      if 0 = r then (SUCCESS, h1)
      else if \<not> AppExists ops h1 app_pid then (SUCCESS, h1)
      else (FAILED, h1))"

text \<open>The number of entries of \<open>/proc/<pid>/task\<close> that start with a digit.\<close>

definition starts_with_digit :: "string \<Rightarrow> bool" where
  "starts_with_digit name = (case name of [] \<Rightarrow> False | c # cs \<Rightarrow> isdigit c)"

fun count_threads :: "string list \<Rightarrow> int \<Rightarrow> int" where
  "count_threads [] n = n"
| "count_threads (d_name # names) n =
     count_threads names (if starts_with_digit d_name then n + 1 else n)"

definition num_threads :: "'h proc_ops \<Rightarrow> 'h \<Rightarrow> int \<Rightarrow> int" where
  "num_threads ops h app_pid =
     (case readdir_task ops h app_pid of None \<Rightarrow> 0 | Some names \<Rightarrow> count_threads names 0)"

text \<open>
  The name \<open>GetAppStatus\<close> returns. The array \<open>paths\<close> first holds the name of the file it opens and
  indeterminate bytes (\<open>stack\<close>); \<open>fread\<close> overwrites as many bytes as the file has, a final newline
  becomes a terminator, and the text after the last slash of the C string is the name. \<open>None\<close> is a
  string that runs out of the array.
\<close>

definition after_last_slash :: "string \<Rightarrow> string" where
  "after_last_slash s =
     (if CHR ''/'' \<in> set s then rev (takeWhile (\<lambda>c. c \<noteq> CHR ''/'') (rev s)) else s)"

definition GetAppStatus :: "'h proc_ops \<Rightarrow> string \<Rightarrow> 'h \<Rightarrow> int \<Rightarrow> (string \<times> int) option" where
  "GetAppStatus ops stack h app_pid =
     (let n = num_threads ops h app_pid;
          name = ''/proc/'' @ to_string app_pid @ ''/cmdline'' @ [NUL];
          paths = take PATH_MAX (name @ drop (length name) stack)
      in case read_cmdline ops h app_pid of
           None \<Rightarrow> Some ([], n)
         | Some file \<Rightarrow>
             let data = take PATH_MAX file;
                 size = length data;
                 paths = data @ drop size paths
             in if size > 0 then
                  let paths = (if paths ! (size - 1) = CHR 0x0A then paths[size - 1 := NUL] else paths)
                  in map_option (\<lambda>s. (after_last_slash s, n)) (buf_str paths)
                else Some ([], n))"

fun collect_pids ::
  "'h proc_ops \<Rightarrow> string \<Rightarrow> 'h \<Rightarrow> string \<Rightarrow> string list \<Rightarrow> int list \<Rightarrow> int list option" where
  "collect_pids ops stack h app_name [] pid_list = Some pid_list"
| "collect_pids ops stack h app_name (d_name # names) pid_list =
     (if starts_with_digit d_name then
        (case GetAppStatus ops stack h (atoi d_name) of
           None \<Rightarrow> None
         | Some (name, n) \<Rightarrow>
             collect_pids ops stack h app_name names
               (if app_name = name then pid_list @ [atoi d_name] else pid_list))
      else collect_pids ops stack h app_name names pid_list)"

definition GetAppPids :: "'h proc_ops \<Rightarrow> string \<Rightarrow> 'h \<Rightarrow> string \<Rightarrow> int list option" where
  "GetAppPids ops stack h app_name =
     (case readdir_proc ops h of
        None \<Rightarrow> Some []
      | Some names \<Rightarrow> collect_pids ops stack h app_name names [])"

fun sum_threads :: "'h proc_ops \<Rightarrow> string \<Rightarrow> 'h \<Rightarrow> int list \<Rightarrow> int \<Rightarrow> int option" where
  "sum_threads ops stack h [] acc = Some acc"
| "sum_threads ops stack h (app_pid # pids) acc =
     (case GetAppStatus ops stack h app_pid of
        None \<Rightarrow> None | Some (name, n) \<Rightarrow> sum_threads ops stack h pids (acc + n))"

definition CheckAppStatus :: "'h proc_ops \<Rightarrow> string \<Rightarrow> 'h \<Rightarrow> string \<Rightarrow> int option" where
  "CheckAppStatus ops stack h app_name = do {
     pid_list \<leftarrow> GetAppPids ops stack h app_name;
     if 0 = length pid_list then Some NOT_RUNNING
     else do {
       threads \<leftarrow> sum_threads ops stack h pid_list 0;
       Some (if threads > 1 then RUNNING else CRASHED) } }"

fun kill_all :: "'h proc_ops \<Rightarrow> 'h \<Rightarrow> int list \<Rightarrow> int \<Rightarrow> bool \<Rightarrow> bool \<times> 'h" where
  "kill_all ops h [] sig is_all_killed = (is_all_killed, h)"
| "kill_all ops h (app_pid # pids) sig is_all_killed =
     (case KillApp ops h app_pid sig of
        (r, h1) \<Rightarrow> kill_all ops h1 pids sig (if FAILED = r then False else is_all_killed))"

fun kill_remaining :: "'h proc_ops \<Rightarrow> 'h \<Rightarrow> int list \<Rightarrow> bool \<Rightarrow> bool \<times> 'h" where
  "kill_remaining ops h [] is_all_killed = (is_all_killed, h)"
| "kill_remaining ops h (app_pid # pids) is_all_killed =
     (if AppExists ops h app_pid then
        (case KillApp ops h app_pid SIGKILL of
           (r, h1) \<Rightarrow> kill_remaining ops h1 pids (if FAILED = r then False else is_all_killed))
      else kill_remaining ops h pids is_all_killed)"

definition StopApp :: "'h proc_ops \<Rightarrow> string \<Rightarrow> 'h \<Rightarrow> string \<Rightarrow> int \<Rightarrow> (int \<times> 'h) option" where
  "StopApp ops stack h app_name sig = do {
     pid_list \<leftarrow> GetAppPids ops stack h app_name;
     let (is_all_killed, h1) = kill_all ops h pid_list sig True;
     if is_all_killed then Some (SUCCESS, h1)
     else
       let (is_all_killed, h2) = kill_remaining ops h1 pid_list True
       in Some (if is_all_killed then SUCCESS else FAILED, h2) }"

text \<open>
  \<open>StartApp\<close> changes the working directory of the whole server around the spawn. \<open>getcwd\<close> leaves its
  buffer empty when the path does not fit. The monitor thread gets its own copy of the process id
  and does not touch the state modelled here.
\<close>

definition path_string :: "path \<Rightarrow> string" where
  "path_string p = (if p = [] then ''/'' else concat (map (\<lambda>c. CHR ''/'' # c) p))"

definition getcwd :: "os \<Rightarrow> string" where
  "getcwd os = (let s = path_string (cwd os) in if length s < PATH_MAX then s else [])"

definition StartApp :: "'h proc_ops \<Rightarrow> os \<Rightarrow> 'h \<Rightarrow> string \<Rightarrow> string \<Rightarrow> int \<times> os \<times> 'h" where
  "StartApp ops os h app_path app_name =
     (let cwd_buf = getcwd os;
          os1 = snd (chdir os app_path);
          (spawned, h1) = posix_spawn ops h (cwd os1) (c_str app_name);
          app_pid = (case spawned of None \<Rightarrow> FAILED | Some pid \<Rightarrow> pid);
          os2 = snd (chdir os1 cwd_buf)
      in if FAILED \<noteq> app_pid then
           let (r, h2) = kill ops h1 app_pid 0
           in if 0 = r then (SUCCESS, os2, h2) else (FAILED, os2, h2)
         else (FAILED, os2, h1))"

text \<open>The monitor thread: it waits for status changes of the application until a wait fails or the
  application has exited or was killed. The status changes are the argument; \<open>None\<close> is a thread that
  is still waiting when they are used up.\<close>

datatype wait_result = WaitError | Exited int | Signaled int | Stopped int | Continued

fun thread_monitor_app :: "wait_result list \<Rightarrow> wait_result list option" where
  "thread_monitor_app [] = None"
| "thread_monitor_app (r # rest) =
     (case r of
        WaitError \<Rightarrow> Some rest
      | Exited code \<Rightarrow> Some rest
      | Signaled sig \<Rightarrow> Some rest
      | Stopped sig \<Rightarrow> thread_monitor_app rest
      | Continued \<Rightarrow> thread_monitor_app rest)"

section \<open>Names of processes\<close>

lemma buf_str_prefix: "NUL \<notin> set s \<Longrightarrow> prefix (s @ [NUL]) b \<Longrightarrow> buf_str b = Some s"
  by (auto simp: prefix_def buf_str_append_NUL)

text \<open>Ending the file's last line does not touch the first argument.\<close>

lemma newline_after_argv0:
  assumes "data = argv0 @ NUL # zs" "n = length data"
    and "(data @ rest) ! (n - 1) = CHR 0x0A"
  shows "prefix (argv0 @ [NUL]) ((data @ rest)[n - 1 := NUL])"
proof -
  have "zs \<noteq> []" using assms by (auto simp: nth_append)
  then obtain ys z where "zs = ys @ [z]" by (cases zs rule: rev_cases) auto
  with assms(1,2) show ?thesis by (auto simp: list_update_append nth_append intro!: prefixI)
qed

lemma GetAppStatus_name:
  assumes "read_cmdline ops h app_pid = Some (argv0 @ NUL # args)" "NUL \<notin> set argv0"
    and "length argv0 < PATH_MAX"
  shows "GetAppStatus ops stack h app_pid = Some (after_last_slash argv0, num_threads ops h app_pid)"
proof -
  define data where "data = take PATH_MAX (argv0 @ NUL # args)"
  obtain k where k: "PATH_MAX = length argv0 + Suc k" using assms(3) less_imp_Suc_add by fastforce
  have zs: "data = argv0 @ NUL # take k args" by (simp add: data_def k)
  have upd: "buf_str ((data @ rest)[length data - 1 := NUL]) = Some argv0"
    if "(data @ rest) ! (length data - 1) = CHR 0x0A" for rest
    using newline_after_argv0 [OF zs refl that] by (rule buf_str_prefix [OF assms(2)])
  have same: "buf_str (data @ rest) = Some argv0" for rest
    using zs assms(2) by (simp add: buf_str_append_NUL)
  have "length data > 0" using zs by simp
  then show ?thesis
    unfolding GetAppStatus_def Let_def assms(1) option.case data_def [symmetric]
    using upd same by (simp del: nth_append)
qed

text \<open>A process whose command line the code reads as it is meant to be read: arguments ended by
  NUL bytes, the first one short enough for the buffer. Its application is the last component of
  that argument.\<close>

definition argv0 :: "string \<Rightarrow> string" where
  "argv0 cmdline = c_str cmdline"

definition readable :: "'h proc_ops \<Rightarrow> 'h \<Rightarrow> int \<Rightarrow> bool" where
  "readable ops h app_pid =
     (case read_cmdline ops h app_pid of
        None \<Rightarrow> True
      | Some file \<Rightarrow> file = [] \<or> NUL \<in> set file \<and> length (argv0 file) < PATH_MAX)"

definition app_of :: "'h proc_ops \<Rightarrow> 'h \<Rightarrow> int \<Rightarrow> string" where
  "app_of ops h app_pid =
     (case read_cmdline ops h app_pid of None \<Rightarrow> [] | Some file \<Rightarrow> after_last_slash (argv0 file))"

lemma GetAppStatus_readable:
  assumes "readable ops h app_pid"
  shows "GetAppStatus ops stack h app_pid = Some (app_of ops h app_pid, num_threads ops h app_pid)"
proof (cases "read_cmdline ops h app_pid")
  case None
  then show ?thesis by (simp add: GetAppStatus_def app_of_def Let_def)
next
  case (Some cmd)
  show ?thesis
  proof (cases "cmd = []")
    case True
    with Some show ?thesis
      by (simp add: GetAppStatus_def app_of_def Let_def argv0_def c_str_def after_last_slash_def)
  next
    case False
    with Some assms have f: "NUL \<in> set cmd" "length (argv0 cmd) < PATH_MAX"
      by (auto simp: readable_def)
    then obtain args where "cmd = argv0 cmd @ NUL # args"
      by (metis argv0_def c_str_append_NUL split_list_first)
    with Some f GetAppStatus_name [of ops h app_pid "argv0 cmd" args]
    show ?thesis by (simp add: app_of_def argv0_def NUL_notin_c_str)
  qed
qed

abbreviation pids_listed :: "string list \<Rightarrow> int list" where
  "pids_listed names \<equiv> map atoi (filter starts_with_digit names)"

lemma collect_pids_readable:
  "(\<And>pid. pid \<in> set (pids_listed names) \<Longrightarrow> readable ops h pid) \<Longrightarrow>
   collect_pids ops stack h app_name names acc =
     Some (acc @ filter (\<lambda>pid. app_of ops h pid = app_name) (pids_listed names))"
  by (induction names arbitrary: acc) (auto simp: GetAppStatus_readable)

lemma GetAppPids_readable:
  assumes "readdir_proc ops h = Some names" "\<And>pid. readable ops h pid"
  shows "GetAppPids ops stack h app_name =
     Some (filter (\<lambda>pid. app_of ops h pid = app_name) (pids_listed names))"
  using assms by (simp add: GetAppPids_def collect_pids_readable)

lemma sum_threads_readable:
  "(\<And>pid. readable ops h pid) \<Longrightarrow>
   sum_threads ops stack h pids acc = Some (acc + sum_list (map (num_threads ops h) pids))"
  by (induction pids arbitrary: acc) (simp_all add: GetAppStatus_readable)

lemma count_threads_eq: "count_threads names n = n + int (length (filter starts_with_digit names))"
  by (induction names arbitrary: n) auto

section \<open>Signalling a list of processes\<close>

text \<open>The two loops of \<open>StopApp\<close> visit every process, whatever happens to the others.\<close>

lemma kill_all_state:
  "snd (kill_all ops h pids sig b) = fold (\<lambda>pid h. snd (kill ops h pid sig)) pids h"
  by (induction pids arbitrary: h b) (auto simp: KillApp_def Let_def split: prod.splits if_splits)

lemma KillApp_cases: "KillApp ops h pid sig = (r, h1) \<Longrightarrow> r = SUCCESS \<or> r = FAILED"
  by (auto simp: KillApp_def Let_def split: prod.splits if_splits)

lemma KillApp_failed:
  "KillApp ops h pid sig = (FAILED, h1) \<Longrightarrow>
     fst (kill ops h pid sig) \<noteq> 0 \<and> h1 = snd (kill ops h pid sig) \<and> stat_proc ops h1 pid"
  by (auto simp: KillApp_def AppExists_def Let_def split: prod.splits if_splits)

text \<open>A process that is there before and after a signal the system would not deliver.\<close>

definition survives :: "'h proc_ops \<Rightarrow> int \<Rightarrow> int \<Rightarrow> bool" where
  "survives ops sig pid \<longleftrightarrow>
     (\<exists>h h1. stat_proc ops h pid \<and> fst (kill ops h pid sig) \<noteq> 0 \<and>
        h1 = snd (kill ops h pid sig) \<and> stat_proc ops h1 pid)"

lemma kill_remaining_False: "\<not> fst (kill_remaining ops h pids False)"
  by (induction pids arbitrary: h) (auto split: prod.splits)

lemma kill_remaining_failed:
  "\<not> fst (kill_remaining ops h pids True) \<Longrightarrow> \<exists>pid \<in> set pids. survives ops SIGKILL pid"
proof (induction pids arbitrary: h)
  case (Cons pid pids)
  obtain r h1 where k: "KillApp ops h pid SIGKILL = (r, h1)" by fastforce
  show ?case
  proof (cases "AppExists ops h pid \<and> r = FAILED")
    case True
    then have "survives ops SIGKILL pid"
      using KillApp_failed [of ops h pid SIGKILL h1] k
      by (auto simp: survives_def AppExists_def)
    then show ?thesis by simp
  next
    case False
    then have "\<exists>h'. \<not> fst (kill_remaining ops h' pids True)"
      using Cons.prems k by (auto split: if_splits)
    with Cons.IH show ?thesis by auto
  qed
qed simp

lemma kill_all_delivered:
  "(\<And>h pid. fst (kill ops h pid sig) = 0) \<Longrightarrow> fst (kill_all ops h pids sig b) = b"
proof (induction pids arbitrary: h)
  case (Cons pid pids)
  obtain h1 where "kill ops h pid sig = (0, h1)" using Cons.prems by (metis prod.collapse)
  with Cons show ?case by (simp add: KillApp_def)
qed simp

section \<open>The working directory\<close>

lemma split_on_path_string:
  "(\<forall>c \<in> set p. CHR ''/'' \<notin> set c) \<Longrightarrow>
     split_on (CHR ''/'') (concat (map (\<lambda>c. CHR ''/'' # c) p)) = [] # p"
proof (induction p rule: rev_induct)
  case (snoc c p)
  then show ?case by (simp add: split_on_append split_on_simple)
qed simp

lemma canon_dirs:
  "(\<forall>c \<in> set q. good_name c) \<Longrightarrow> is_Dir (lookup r (p @ q)) \<Longrightarrow> canon r p q = Some (p @ q)"
proof (induction q arbitrary: p)
  case (Cons c q)
  have "is_Dir (lookup r p)"
    using Cons.prems(2)
    by (intro lookup_prefix_is_Dir [of r "p @ c # q"]) (auto simp: is_Dir_iff strict_prefix_def)
  with Cons show ?case by (simp add: good_name_def)
qed simp

lemma resolve_path_string:
  assumes "\<forall>c \<in> set p. good_name c" "is_Dir (lookup (root os) p)"
  shows "resolve os (path_string p) = Some p"
proof -
  have n: "NUL \<notin> set (path_string p)" "\<forall>c \<in> set p. CHR ''/'' \<notin> set c"
    using assms(1) by (auto simp: path_string_def good_name_def)
  have r: "is_Dir (lookup (root os) [])"
  proof (cases p)
    case Nil then show ?thesis using assms(2) by simp
  next
    case (Cons c cs)
    then show ?thesis using assms(2) lookup_prefix_is_Dir [of "root os" p "[]"]
      by (auto simp: is_Dir_iff)
  qed
  have "canon (root os) [] p = Some p" using canon_dirs [of p "root os" "[]"] assms by simp
  then show ?thesis
    using n r split_on_path_string [OF n(2)]
    by (cases p) (simp_all add: resolve_def c_str_id path_string_def)
qed

lemma StartApp_cwd:
  assumes "\<forall>c \<in> set (cwd os). good_name c" "is_Dir (lookup (root os) (cwd os))"
    and "\<not> refuses os Chdir (cwd os)" "length (path_string (cwd os)) < PATH_MAX"
  shows "snd (chdir (snd (chdir os d)) (getcwd os)) = os"
proof -
  let ?os1 = "snd (chdir os d)"
  have e: "root ?os1 = root os" "refuses ?os1 = refuses os" "?os1\<lparr>cwd := cwd os\<rparr> = os"
    by (auto simp: chdir_def split: option.splits)
  have "resolve ?os1 (path_string (cwd os)) = Some (cwd os)"
    using assms(1,2) e by (intro resolve_path_string) simp_all
  with e assms(2-4) show ?thesis by (simp add: chdir_def [of ?os1] getcwd_def)
qed

section \<open>Processes for closed examples\<close>

text \<open>Two processes; process 7 is started from \<open>/usr/bin/app\<close> with one thread. Signals reach the
  processes and are recorded.\<close>

definition example_procs :: "(int \<times> int) list proc_ops" where
  "example_procs = \<lparr>
     readdir_proc = (\<lambda>h. Some [''.'', ''7'', ''12'', ''self'']),
     readdir_task = (\<lambda>h pid. Some [''.'', ''..'', to_string pid]),
     read_cmdline = (\<lambda>h pid. Some (if pid = 7 then ''/usr/bin/app'' @ NUL # ''-v'' @ [NUL] else [])),
     stat_proc = (\<lambda>h pid. True),
     kill = (\<lambda>h pid sig. (0, h @ [(pid, sig)])),
     posix_spawn = (\<lambda>h p name. (Some 7, h)) \<rparr>"

lemma example_procs_simps [simp]:
  "readdir_proc example_procs h = Some [''.'', ''7'', ''12'', ''self'']"
  "readdir_task example_procs h pid = Some [''.'', ''..'', to_string pid]"
  "read_cmdline example_procs h pid =
     Some (if pid = 7 then ''/usr/bin/app'' @ NUL # ''-v'' @ [NUL] else [])"
  "stat_proc example_procs h pid" "kill example_procs h pid sig = (0, h @ [(pid, sig)])"
  "posix_spawn example_procs h p name = (Some 7, h)"
  by (simp_all add: example_procs_def)

lemma example_readable: "readable example_procs h pid"
  by (simp add: readable_def argv0_def c_str_def PATH_MAX_def)

lemma example_pids:
  "filter (\<lambda>pid. app_of example_procs h pid = ''app'') (pids_listed [''.'', ''7'', ''12'', ''self'']) = [7]"
  by (simp add: app_of_def starts_with_digit_def isdigit_def atoi_def read_nat_def digit_val_def to_int_id
      is_int_def argv0_def c_str_def after_last_slash_def)

lemma starts_with_digit_show: "0 \<le> i \<Longrightarrow> starts_with_digit (to_string i)"
  using hd_show_nat [of "nat i"] show_nat_nonempty [of "nat i"]
  by (auto simp: to_string_nonneg starts_with_digit_def split: list.splits)

lemma example_threads: "num_threads example_procs h 7 = 1"
  by (simp add: num_threads_def count_threads_eq starts_with_digit_show)
    (simp add: starts_with_digit_def isdigit_def)

section \<open>Properties\<close>



text \<open>The status of an application is decided by its processes and their threads: it is
  \<open>NOT_RUNNING\<close> when it has no process, \<open>RUNNING\<close> when its processes have more than one thread
  together, and \<open>CRASHED\<close> otherwise.\<close>

theorem check_app_status_by_threads:
  assumes "readdir_proc ops h = Some names" "\<And>pid. readable ops h pid"
    and "pids = filter (\<lambda>pid. app_of ops h pid = app_name) (map atoi (filter starts_with_digit names))"
  shows "CheckAppStatus ops stack h app_name =
     Some (if pids = [] then NOT_RUNNING
           else if sum_list (map (num_threads ops h) pids) > 1 then RUNNING else CRASHED)"
  using GetAppPids_readable [OF assms(1,2)] sum_threads_readable [OF assms(2)] assms(3)
  by (simp add: CheckAppStatus_def)

theorem check_app_status_by_threads_witness:
  "CheckAppStatus example_procs [] [] ''app'' = Some CRASHED"
  using check_app_status_by_threads [of example_procs "[]" "[''.'', ''7'', ''12'', ''self'']" "[7]"
      "''app''" "[]"] example_pids [of "[]"] example_threads
  by (simp add: example_readable)

text \<open>A healthy application with a single thread is reported as crashed: one process with one
  thread in its task directory gives \<open>CRASHED\<close>.\<close>

theorem single_thread_reported_crashed:
  assumes "GetAppPids ops stack h app_name = Some [pid]" "readable ops h pid"
    and "readdir_task ops h pid = Some [''.'', ''..'', tid]" "starts_with_digit tid"
  shows "CheckAppStatus ops stack h app_name = Some CRASHED"
proof -
  have "num_threads ops h pid = 1"
    using assms(3,4) by (simp add: num_threads_def starts_with_digit_def isdigit_def)
  with assms(1,2) show ?thesis by (simp add: CheckAppStatus_def GetAppStatus_readable)
qed

theorem single_thread_reported_crashed_witness:
  "CheckAppStatus example_procs [] [] ''app'' = Some CRASHED"
  using single_thread_reported_crashed [of example_procs "[]" "[]" "''app''" 7 "to_string 7"]
    GetAppPids_readable [of example_procs "[]" _ "[]" "''app''"] example_pids [of "[]"]
  by (simp add: example_readable starts_with_digit_show)

text \<open>C35: stopping an application signals each of its processes exactly once and in order when the
  system delivers the signal, and answers \<open>SUCCESS\<close>.\<close>

theorem stop_app_signals_each:
  assumes "GetAppPids ops stack h app_name = Some pids" "\<And>h pid. fst (kill ops h pid sig) = 0"
  shows "StopApp ops stack h app_name sig =
     Some (SUCCESS, fold (\<lambda>pid h. snd (kill ops h pid sig)) pids h)"
proof -
  have "kill_all ops h pids sig True = (True, fold (\<lambda>pid h. snd (kill ops h pid sig)) pids h)"
    using kill_all_state [of ops h pids sig True] kill_all_delivered [of ops sig, OF assms(2)]
    by (metis prod.collapse)
  with assms(1) show ?thesis by (simp add: StopApp_def)
qed

theorem stop_app_signals_each_witness:
  "StopApp example_procs [] [] ''app'' SIGTERM = Some (SUCCESS, [(7, SIGTERM)])"
  using stop_app_signals_each [of example_procs "[]" "[]" "''app''" "[7]" SIGTERM]
    GetAppPids_readable [of example_procs "[]" _ "[]" "''app''"] example_pids [of "[]"]
  by (simp add: example_readable)

text \<open>Stopping fails only against the system: when \<open>StopApp\<close> answers \<open>FAILED\<close>, some process of the
  application was there before and after a \<open>SIGKILL\<close> that the system refused to deliver.\<close>

theorem stop_app_failed_survivor:
  assumes "StopApp ops stack h app_name sig = Some (FAILED, h')"
  shows "\<exists>pids pid. GetAppPids ops stack h app_name = Some pids \<and> pid \<in> set pids \<and>
     survives ops SIGKILL pid"
proof -
  obtain pids where p: "GetAppPids ops stack h app_name = Some pids"
    using assms by (auto simp: StopApp_def bind_eq_Some_conv)
  obtain k h1 where k: "kill_all ops h pids sig True = (k, h1)" by fastforce
  have "\<not> fst (kill_remaining ops h1 pids True)"
    using assms p k by (auto simp: StopApp_def split: prod.splits if_splits)
  then show ?thesis using p kill_remaining_failed [of ops h1 pids] by blast
qed

theorem stop_app_failed_survivor_witness:
  "\<exists>pids pid. GetAppPids (example_procs\<lparr>kill := \<lambda>h pid sig. (-1, h)\<rparr>) [] [] ''app'' = Some pids \<and>
     pid \<in> set pids \<and> survives (example_procs\<lparr>kill := \<lambda>h pid sig. (-1, h)\<rparr>) SIGKILL pid"
proof -
  let ?ops = "example_procs\<lparr>kill := \<lambda>h pid sig. (-1, h)\<rparr>"
  have "readable ?ops [] pid" "app_of ?ops [] pid = app_of example_procs [] pid" for pid
    using example_readable [of "[]" pid] by (simp_all add: readable_def app_of_def)
  then have "GetAppPids ?ops [] [] ''app'' = Some [7]"
    using GetAppPids_readable [of ?ops "[]" _ "[]" "''app''"] example_pids [of "[]"] by simp
  then have "StopApp ?ops [] [] ''app'' SIGTERM = Some (FAILED, [])"
    by (simp add: StopApp_def KillApp_def AppExists_def)
  then show ?thesis by (rule stop_app_failed_survivor)
qed

text \<open>Starting an application changes the server's working directory only for the duration of
  the spawn: the application is spawned in its own directory, and whatever the spawn did, the server
  is left where it was, with \<open>SUCCESS\<close> exactly when a live process resulted.\<close>

theorem start_app_in_its_directory:
  assumes "\<forall>c \<in> set (cwd os). good_name c" "is_Dir (lookup (root os) (cwd os))"
    and "\<not> refuses os Chdir (cwd os)" "length (path_string (cwd os)) < PATH_MAX"
    and "names_dir os app_path p" "\<not> refuses os Chdir p"
    and "posix_spawn ops h p (c_str app_name) = (spawned, h1)" "spawned \<noteq> Some (-1)"
  shows "StartApp ops os h app_path app_name =
     (case spawned of None \<Rightarrow> (FAILED, os, h1)
      | Some pid \<Rightarrow> (if fst (kill ops h1 pid 0) = 0 then SUCCESS else FAILED, os, snd (kill ops h1 pid 0)))"
proof -
  have "chdir os app_path = (0, os\<lparr>cwd := p\<rparr>)" using assms(5,6) by (simp add: chdir_def names_dir_def)
  with StartApp_cwd [OF assms(1-4), of app_path] assms(7,8) show ?thesis
    by (auto simp: StartApp_def Let_def split: option.splits prod.splits)
qed

theorem start_app_in_its_directory_witness:
  "StartApp example_procs example_os [] ''/home'' ''./app'' = (SUCCESS, example_os, [(7, 0)])"
  using start_app_in_its_directory [of example_os "''/home''" "[''home'']" example_procs "[]" "''./app''"
      "Some 7" "[]"] example_names_home
  by (simp add: path_string_def PATH_MAX_def)

text \<open>C39: the monitor thread ends with the application: it consumes the status changes up to and
  including the first that is an exit, a death by signal or a failed wait, and keeps waiting while
  the application is only stopped and continued.\<close>

theorem monitor_ends_with_app:
  "thread_monitor_app rs = Some rest \<longleftrightarrow>
     (\<exists>pre r. rs = pre @ r # rest \<and> (\<forall>x \<in> set pre. x = Continued \<or> (\<exists>sig. x = Stopped sig)) \<and>
        (r = WaitError \<or> (\<exists>c. r = Exited c) \<or> (\<exists>sig. r = Signaled sig)))"
proof (induction rs)
  case (Cons x rs)
  show ?case
  proof (cases "x = Continued \<or> (\<exists>sig. x = Stopped sig)")
    case True
    then have "thread_monitor_app (x # rs) = thread_monitor_app rs" by auto
    with Cons.IH True show ?thesis by (auto simp: Cons_eq_append_conv)
  next
    case False
    then have "thread_monitor_app (x # rs) = Some rs" by (cases x) auto
    with False show ?thesis by (cases x) (auto simp: Cons_eq_append_conv)
  qed
qed simp

theorem monitor_ends_with_app_witness:
  "thread_monitor_app [Stopped 19, Continued, Exited 0] = Some []"
  using monitor_ends_with_app [of "[Stopped 19, Continued, Exited 0]" "[]"] by simp

end
