(* ===== verification/Utils_Rpc.thy ===== *)
theory Utils_Rpc
  imports Utils_Files Utils_Apps
begin

text \<open>
  The remote procedures of the utilities plugin: the thirteen functors \<open>UtilsManager::Bind\<close> registers
  in \<open>utils_manager.cc\<close>, each with its arity check, its parameter decoding and its reply, over the
  state of the host the server runs on: the file system and the processes. What the functors use of
  the outside is collected in \<open>env\<close>. Every functor is an instance of the handler contract.
\<close>

section \<open>Handlers\<close>

record 'h env =
  casts :: lexical_cast
  heap :: "int \<Rightarrow> string option"
  shell :: "os \<Rightarrow> string \<Rightarrow> (string \<times> int \<times> os) option"
  procs :: "'h proc_ops"
  stack_bytes :: string

type_synonym 'h host = "os \<times> 'h"
type_synonym 'h handler = "'h env \<Rightarrow> 'h host \<Rightarrow> parameter_type list \<Rightarrow> outcome \<times> 'h host"

text \<open>\<open>response_type(std::string(), res)\<close> for an operation on the file system; \<open>None\<close> is undefined
  behaviour.\<close>

definition reply_code :: "'h host \<Rightarrow> (int \<times> os) option \<Rightarrow> outcome \<times> 'h host" where
  "reply_code s res =
     (case res of None \<Rightarrow> (Undefined, s) | Some (code, os1) \<Rightarrow> (Reply ([], code), (os1, snd s)))"

definition handle_app_start :: "'h handler" where
  "handle_app_start env =
     checked 2 (two_strings (casts env)) (\<lambda>(app_path, app_name) (os, h).
       let (res, os1, h1) = StartApp (procs env) os h app_path app_name
       in (Reply ([], res), (os1, h1)))"

definition handle_app_stop :: "'h handler" where
  "handle_app_stop env =
     checked 1 (one_string (casts env)) (\<lambda>app_name (os, h).
       case StopApp (procs env) (stack_bytes env) h app_name SIGTERM of
         None \<Rightarrow> (Undefined, (os, h))
       | Some (res, h1) \<Rightarrow> (Reply ([], res), (os, h1)))"

definition handle_app_check_status :: "'h handler" where
  "handle_app_check_status env =
     checked 1 (one_string (casts env)) (\<lambda>app_name (os, h).
       case CheckAppStatus (procs env) (stack_bytes env) h app_name of
         None \<Rightarrow> (Undefined, (os, h))
       | Some res \<Rightarrow> (Reply (to_string res, SUCCESS), (os, h)))"

definition handle_file_backup :: "'h handler" where
  "handle_file_backup env =
     checked 2 (two_strings (casts env)) (\<lambda>(file_path, file_name) (os, h).
       reply_code (os, h) (FileBackup os file_path file_name))"

definition handle_file_restore :: "'h handler" where
  "handle_file_restore env =
     checked 2 (two_strings (casts env)) (\<lambda>(file_path, file_name) (os, h).
       reply_code (os, h) (FileRestore os file_path file_name))"

definition handle_file_update :: "'h handler" where
  "handle_file_update env =
     checked 3 (three_strings (casts env)) (\<lambda>(file_path, file_name, new_content) (os, h).
       reply_code (os, h) (FileUpdate os file_path file_name new_content))"

definition handle_file_exists :: "'h handler" where
  "handle_file_exists env =
     checked 2 (two_strings (casts env)) (\<lambda>(file_path, file_name) (os, h).
       reply_code (os, h) (map_option (\<lambda>res. (res, os)) (FileExists os file_path file_name)))"

definition handle_file_delete :: "'h handler" where
  "handle_file_delete env =
     checked 2 (two_strings (casts env)) (\<lambda>(file_path, file_name) (os, h).
       reply_code (os, h) (FileDelete os file_path file_name))"

text \<open>The new offset is a \<open>long\<close> and the second component of a response an \<open>int\<close>.\<close>

definition content_args ::
  "lexical_cast \<Rightarrow> parameter_type list \<Rightarrow> (string \<times> string \<times> int \<times> int) option" where
  "content_args lc ps =
     (let a = GetValue STRING_T (cast_string lc) (ps ! 0);
          b = GetValue STRING_T (cast_string lc) (ps ! 1);
          c = GetValue INT_T (cast_long lc) (ps ! 2);
          d = GetValue INT_T (cast_size lc) (ps ! 3)
      in if IsAllValid [a \<noteq> None, b \<noteq> None, c \<noteq> None, d \<noteq> None]
         then Some (the a, the b, the c, the d) else None)"

definition handle_file_content :: "'h handler" where
  "handle_file_content env =
     checked 4 (content_args (casts env)) (\<lambda>(file_path, file_name, offset, max_size_content) (os, h).
       case GetFileContent (heap env) os file_path file_name offset max_size_content of
         None \<Rightarrow> (Undefined, (os, h))
       | Some (text_read, offset) \<Rightarrow> (Reply (text_read, to_int offset), (os, h)))"

definition handle_folder_exists :: "'h handler" where
  "handle_folder_exists env =
     checked 1 (one_string (casts env)) (\<lambda>folder_path (os, h).
       (Reply ([], FolderExists os folder_path), (os, h)))"

text \<open>The depth of the tree bounds the recursion of \<open>FolderDelete\<close>, so the fuel never runs out.\<close>

definition handle_folder_delete :: "'h handler" where
  "handle_folder_delete env =
     checked 1 (one_string (casts env)) (\<lambda>folder_path (os, h).
       reply_code (os, h)
         (map_option (\<lambda>(res, os1). (if res \<noteq> 0 then FAILED else SUCCESS, os1))
            (FolderDelete (Suc (height (root os))) os folder_path)))"

definition handle_folder_create :: "'h handler" where
  "handle_folder_create env =
     checked 1 (one_string (casts env)) (\<lambda>folder_path (os, h).
       reply_code (os, h) (Some (FolderCreate os folder_path)))"

definition handle_command_execute :: "'h handler" where
  "handle_command_execute env =
     checked 1 (one_string (casts env)) (\<lambda>bash_command (os, h).
       let (receive_result, os1) = ExecuteCommand (shell env) os bash_command
       in (Reply receive_result, (os1, h)))"

definition UtilsManager_Bind :: "'h env \<Rightarrow> (string \<times> ('h host \<Rightarrow> parameter_type list \<Rightarrow> outcome \<times> 'h host)) list" where
  "UtilsManager_Bind env =
     [(app_start, handle_app_start env), (app_stop, handle_app_stop env),
      (app_check_status, handle_app_check_status env), (file_backup, handle_file_backup env),
      (file_restore, handle_file_restore env), (file_update, handle_file_update env),
      (file_exists, handle_file_exists env), (file_delete, handle_file_delete env),
      (file_content, handle_file_content env), (folder_exists, handle_folder_exists env),
      (folder_delete, handle_folder_delete env), (folder_create, handle_folder_create env),
      (command_execute, handle_command_execute env)]"

definition UtilsManager_PluginName :: string where "UtilsManager_PluginName = ''RemoteUtilsManager''"

section \<open>The handler contract\<close>

text \<open>What each procedure wants: the codes its parameters have to carry, in order.\<close>

definition signature :: "(string \<times> param_type list) list" where
  "signature =
     [(app_start, [STRING_T, STRING_T]), (app_stop, [STRING_T]), (app_check_status, [STRING_T]),
      (file_backup, [STRING_T, STRING_T]), (file_restore, [STRING_T, STRING_T]),
      (file_update, [STRING_T, STRING_T, STRING_T]), (file_exists, [STRING_T, STRING_T]),
      (file_delete, [STRING_T, STRING_T]), (file_content, [STRING_T, STRING_T, INT_T, INT_T]),
      (folder_exists, [STRING_T]), (folder_delete, [STRING_T]), (folder_create, [STRING_T]),
      (command_execute, [STRING_T])]"

abbreviation typed :: "param_type list \<Rightarrow> parameter_type list \<Rightarrow> bool" where
  "typed ts ps \<equiv> map snd ps = map param_code ts"

lemma typed_conv:
  "typed ts ps \<longleftrightarrow> length ps = length ts \<and> (\<forall>i < length ts. snd (ps ! i) = param_code (ts ! i))"
  by (auto simp: list_eq_iff_nth_eq)

lemma all_less_simps:
  "(\<forall>i < Suc 0. P i) = P 0" "(\<forall>i < Suc (Suc n). P i) = (P 0 \<and> (\<forall>i < Suc n. P (Suc i)))"
  by (auto simp: less_Suc_eq_0_disj)

lemma decoded_typed:
  "length ps = 1 \<Longrightarrow> one_string lc ps \<noteq> None \<Longrightarrow> typed [STRING_T] ps"
  "length ps = 2 \<Longrightarrow> two_strings lc ps \<noteq> None \<Longrightarrow> typed [STRING_T, STRING_T] ps"
  "length ps = 3 \<Longrightarrow> three_strings lc ps \<noteq> None \<Longrightarrow> typed [STRING_T, STRING_T, STRING_T] ps"
  "length ps = 4 \<Longrightarrow> content_args lc ps \<noteq> None \<Longrightarrow> typed [STRING_T, STRING_T, INT_T, INT_T] ps"
  unfolding typed_conv
  by (auto simp: one_string_def two_strings_def three_strings_def content_args_def GetValue_def Let_def
      all_less_simps numeral_eq_Suc split: if_splits)

lemma checked_typed:
  assumes "\<And>s ps. h s ps = checked n decode run s ps" "length ts = n"
    and "\<And>ps. length ps = n \<Longrightarrow> decode ps \<noteq> None \<Longrightarrow> typed ts ps"
  shows "request_handler h n (\<lambda>ps. typed ts ps \<and> decode ps \<noteq> None)"
  by unfold_locales (use assms in \<open>auto simp: checked_def split: option.splits\<close>)

interpretation app_start: request_handler "handle_app_start env" 2
    "\<lambda>ps. typed [STRING_T, STRING_T] ps \<and> two_strings (casts env) ps \<noteq> None" for env
  by (rule checked_typed [OF fun_cong [OF fun_cong [OF handle_app_start_def]]]) (simp_all add: decoded_typed)

interpretation app_stop: request_handler "handle_app_stop env" 1
    "\<lambda>ps. typed [STRING_T] ps \<and> one_string (casts env) ps \<noteq> None" for env
  by (rule checked_typed [OF fun_cong [OF fun_cong [OF handle_app_stop_def]]]) (simp_all add: decoded_typed)

interpretation app_check_status: request_handler "handle_app_check_status env" 1
    "\<lambda>ps. typed [STRING_T] ps \<and> one_string (casts env) ps \<noteq> None" for env
  by (rule checked_typed [OF fun_cong [OF fun_cong [OF handle_app_check_status_def]]]) (simp_all add: decoded_typed)

interpretation file_backup: request_handler "handle_file_backup env" 2
    "\<lambda>ps. typed [STRING_T, STRING_T] ps \<and> two_strings (casts env) ps \<noteq> None" for env
  by (rule checked_typed [OF fun_cong [OF fun_cong [OF handle_file_backup_def]]]) (simp_all add: decoded_typed)

interpretation file_restore: request_handler "handle_file_restore env" 2
    "\<lambda>ps. typed [STRING_T, STRING_T] ps \<and> two_strings (casts env) ps \<noteq> None" for env
  by (rule checked_typed [OF fun_cong [OF fun_cong [OF handle_file_restore_def]]]) (simp_all add: decoded_typed)

interpretation file_update: request_handler "handle_file_update env" 3
    "\<lambda>ps. typed [STRING_T, STRING_T, STRING_T] ps \<and> three_strings (casts env) ps \<noteq> None" for env
  by (rule checked_typed [OF fun_cong [OF fun_cong [OF handle_file_update_def]]]) (simp_all add: decoded_typed)

interpretation file_exists: request_handler "handle_file_exists env" 2
    "\<lambda>ps. typed [STRING_T, STRING_T] ps \<and> two_strings (casts env) ps \<noteq> None" for env
  by (rule checked_typed [OF fun_cong [OF fun_cong [OF handle_file_exists_def]]]) (simp_all add: decoded_typed)

interpretation file_delete: request_handler "handle_file_delete env" 2
    "\<lambda>ps. typed [STRING_T, STRING_T] ps \<and> two_strings (casts env) ps \<noteq> None" for env
  by (rule checked_typed [OF fun_cong [OF fun_cong [OF handle_file_delete_def]]]) (simp_all add: decoded_typed)

interpretation file_content: request_handler "handle_file_content env" 4
    "\<lambda>ps. typed [STRING_T, STRING_T, INT_T, INT_T] ps \<and> content_args (casts env) ps \<noteq> None" for env
  by (rule checked_typed [OF fun_cong [OF fun_cong [OF handle_file_content_def]]]) (simp_all add: decoded_typed)

interpretation folder_exists: request_handler "handle_folder_exists env" 1
    "\<lambda>ps. typed [STRING_T] ps \<and> one_string (casts env) ps \<noteq> None" for env
  by (rule checked_typed [OF fun_cong [OF fun_cong [OF handle_folder_exists_def]]]) (simp_all add: decoded_typed)

interpretation folder_delete: request_handler "handle_folder_delete env" 1
    "\<lambda>ps. typed [STRING_T] ps \<and> one_string (casts env) ps \<noteq> None" for env
  by (rule checked_typed [OF fun_cong [OF fun_cong [OF handle_folder_delete_def]]]) (simp_all add: decoded_typed)

interpretation folder_create: request_handler "handle_folder_create env" 1
    "\<lambda>ps. typed [STRING_T] ps \<and> one_string (casts env) ps \<noteq> None" for env
  by (rule checked_typed [OF fun_cong [OF fun_cong [OF handle_folder_create_def]]]) (simp_all add: decoded_typed)

interpretation command_execute: request_handler "handle_command_execute env" 1
    "\<lambda>ps. typed [STRING_T] ps \<and> one_string (casts env) ps \<noteq> None" for env
  by (rule checked_typed [OF fun_cong [OF fun_cong [OF handle_command_execute_def]]]) (simp_all add: decoded_typed)

text \<open>The contract in terms of the signature: what is not typed is rejected.\<close>

definition rejects_untyped ::
  "('s \<Rightarrow> parameter_type list \<Rightarrow> outcome \<times> 's) \<Rightarrow> param_type list \<Rightarrow> bool" where
  "rejects_untyped h ts \<longleftrightarrow> (\<forall>s ps. \<not> typed ts ps \<longrightarrow> (\<exists>m. h s ps = (Reply (m, FAILED), s)))"

lemma rejects_untypedI:
  assumes "request_handler h n (\<lambda>ps. typed ts ps \<and> acc ps)"
  shows "rejects_untyped h ts"
  using request_handler.malformed [OF assms] by (auto simp: rejects_untyped_def)

lemmas handlers_reject =
    rejects_untypedI [OF app_start.request_handler_axioms]
    rejects_untypedI [OF app_stop.request_handler_axioms]
    rejects_untypedI [OF app_check_status.request_handler_axioms]
    rejects_untypedI [OF file_backup.request_handler_axioms]
    rejects_untypedI [OF file_restore.request_handler_axioms]
    rejects_untypedI [OF file_update.request_handler_axioms]
    rejects_untypedI [OF file_exists.request_handler_axioms]
    rejects_untypedI [OF file_delete.request_handler_axioms]
    rejects_untypedI [OF file_content.request_handler_axioms]
    rejects_untypedI [OF folder_exists.request_handler_axioms]
    rejects_untypedI [OF folder_delete.request_handler_axioms]
    rejects_untypedI [OF folder_create.request_handler_axioms]
    rejects_untypedI [OF command_execute.request_handler_axioms]

lemma handlers_reject_untyped:
  "list_all2 (\<lambda>(name, h) (name', ts). name = name' \<and> rejects_untyped h ts)
     (UtilsManager_Bind env) signature"
  by (simp add: UtilsManager_Bind_def signature_def handlers_reject)

lemma list_all2_map_of:
  "list_all2 (\<lambda>(a, x) (b, y). a = b \<and> P x y) xs ys \<Longrightarrow>
     map_of xs k = Some x \<Longrightarrow> map_of ys k = Some y \<Longrightarrow> P x y"
  by (induction xs ys rule: list_all2_induct) (auto split: if_splits)

section \<open>Serving requests\<close>

text \<open>A request for a name the plugin did not bind leaves the host alone.\<close>

definition utils_serve :: "'h env \<Rightarrow> string \<times> parameter_type list \<Rightarrow> 'h host \<Rightarrow> 'h host" where
  "utils_serve env req s =
     (case map_of (UtilsManager_Bind env) (fst req) of
        None \<Rightarrow> s | Some h \<Rightarrow> snd (h s (snd req)))"

text \<open>Commands leave a tree that is well-formed.\<close>

definition shell_wf :: "'h env \<Rightarrow> bool" where
  "shell_wf env \<longleftrightarrow> (\<forall>os cmd out st os1. shell env os cmd = Some (out, st, os1) \<longrightarrow>
     wf_node (root os) \<longrightarrow> wf_node (root os1))"

abbreviation wf_host :: "'h host \<Rightarrow> bool" where
  "wf_host s \<equiv> wf_node (root (fst s))"

definition keeps_wf :: "('h host \<Rightarrow> parameter_type list \<Rightarrow> outcome \<times> 'h host) \<Rightarrow> bool" where
  "keeps_wf h \<longleftrightarrow> (\<forall>s ps. wf_host s \<longrightarrow> wf_host (snd (h s ps)))"

lemma checked_keeps_wf:
  "h = checked n decode run \<Longrightarrow> (\<And>args s. wf_host s \<Longrightarrow> wf_host (snd (run args s))) \<Longrightarrow> keeps_wf h"
  by (auto simp: keeps_wf_def checked_def split: option.splits)

lemma wf_reply_code:
  "wf_host s \<Longrightarrow> (\<And>code os1. res = Some (code, os1) \<Longrightarrow> wf_node (root os1)) \<Longrightarrow>
     wf_host (snd (reply_code s res))"
  by (auto simp: reply_code_def split: option.splits)

lemma wf_copy_stream:
  assumes "wf_node (root os)"
  shows "wf_node (root (snd (copy_stream src (open_write True os f) os)))"
  using assms wf_open_write [OF assms]
  by (auto simp: copy_stream_def Let_def intro!: wf_append_to split: option.splits)

lemma wf_FileBackup: "wf_node (root os) \<Longrightarrow> FileBackup os d c = Some (r, os1) \<Longrightarrow> wf_node (root os1)"
  by (auto simp: FileBackup_def bind_eq_Some_conv Let_def case_prod_beta wf_copy_stream)

lemma wf_FileDelete: "wf_node (root os) \<Longrightarrow> FileDelete os d c = Some (r, os1) \<Longrightarrow> wf_node (root os1)"
  by (auto simp: FileDelete_def bind_eq_Some_conv Let_def case_prod_beta wf_remove_c)

lemma wf_FileRestore: "wf_node (root os) \<Longrightarrow> FileRestore os d c = Some (r, os1) \<Longrightarrow> wf_node (root os1)"
  by (auto simp: FileRestore_def bind_eq_Some_conv Let_def case_prod_beta wf_copy_stream
      dest!: wf_FileDelete [rotated])

lemma wf_FileUpdate:
  assumes "wf_node (root os)" "FileUpdate os d c t = Some (r, os1)"
  shows "wf_node (root os1)"
  using assms wf_open_write [OF assms(1)]
  by (fastforce simp: FileUpdate_def bind_eq_Some_conv intro: wf_append_to split: option.splits)

lemma wf_FolderCreate: "wf_node (root os) \<Longrightarrow> wf_node (root (snd (FolderCreate os d)))"
  using wf_mkdir [of os d] by (auto simp: FolderCreate_def split: prod.splits)

lemma wf_StartApp: "wf_node (root os) \<Longrightarrow> wf_node (root (fst (snd (StartApp ops os h d a))))"
  by (auto simp: StartApp_def Let_def split: prod.splits)

lemma wf_ExecuteCommand:
  "shell_wf env \<Longrightarrow> wf_node (root os) \<Longrightarrow> wf_node (root (snd (ExecuteCommand (shell env) os cmd)))"
  by (auto simp: ExecuteCommand_def shell_wf_def Let_def split: option.splits prod.splits)

lemma wf_FolderDelete:
  assumes "wf_node (root os)" "FolderDelete (Suc (height (root os))) os d = Some (r, os1)"
  shows "wf_node (root os1)"
  using FolderDelete_returns [OF assms(1) lessI, of d] assms(2) by (auto simp: returns_shrunk_def)

lemma handlers_keep_wf:
  assumes "shell_wf env"
  shows "list_all (\<lambda>(name, h). keeps_wf h) (UtilsManager_Bind env)"
proof -
  have "keeps_wf (handle_app_start env)"
    by (rule checked_keeps_wf [OF handle_app_start_def]) (auto simp: case_prod_beta wf_StartApp)
  moreover have "keeps_wf (handle_app_stop env)"
    by (rule checked_keeps_wf [OF handle_app_stop_def]) (auto split: option.splits)
  moreover have "keeps_wf (handle_app_check_status env)"
    by (rule checked_keeps_wf [OF handle_app_check_status_def]) (auto split: option.splits)
  moreover have "keeps_wf (handle_file_backup env)"
    by (rule checked_keeps_wf [OF handle_file_backup_def]) (auto intro!: wf_reply_code dest!: wf_FileBackup [rotated])
  moreover have "keeps_wf (handle_file_restore env)"
    by (rule checked_keeps_wf [OF handle_file_restore_def]) (auto intro!: wf_reply_code dest!: wf_FileRestore [rotated])
  moreover have "keeps_wf (handle_file_update env)"
    by (rule checked_keeps_wf [OF handle_file_update_def]) (auto intro!: wf_reply_code dest!: wf_FileUpdate [rotated])
  moreover have "keeps_wf (handle_file_exists env)"
    by (rule checked_keeps_wf [OF handle_file_exists_def]) (auto intro!: wf_reply_code)
  moreover have "keeps_wf (handle_file_delete env)"
    by (rule checked_keeps_wf [OF handle_file_delete_def]) (auto intro!: wf_reply_code dest!: wf_FileDelete [rotated])
  moreover have "keeps_wf (handle_file_content env)"
    by (rule checked_keeps_wf [OF handle_file_content_def]) (auto split: option.splits)
  moreover have "keeps_wf (handle_folder_exists env)"
    by (rule checked_keeps_wf [OF handle_folder_exists_def]) auto
  moreover have "keeps_wf (handle_folder_delete env)"
    by (rule checked_keeps_wf [OF handle_folder_delete_def]) 
      (auto simp del: FolderDelete.simps intro!: wf_reply_code dest!: wf_FolderDelete [rotated])
  moreover have "keeps_wf (handle_folder_create env)"
    by (rule checked_keeps_wf [OF handle_folder_create_def])
      (auto simp: reply_code_def case_prod_beta wf_FolderCreate)
  moreover have "keeps_wf (handle_command_execute env)"
    by (rule checked_keeps_wf [OF handle_command_execute_def])
      (auto simp: case_prod_beta wf_ExecuteCommand [OF assms])
  ultimately show ?thesis by (simp add: UtilsManager_Bind_def)
qed

lemma utils_serve_wf: "shell_wf env \<Longrightarrow> wf_host s \<Longrightarrow> wf_host (utils_serve env req s)"
proof (cases "map_of (UtilsManager_Bind env) (fst req)")
  case (Some h)
  assume "shell_wf env" "wf_host s"
  with Some handlers_keep_wf [of env] have "keeps_wf h" by (auto simp: list_all_iff dest!: map_of_SomeD)
  with \<open>wf_host s\<close> Some show ?thesis unfolding keeps_wf_def by (cases s) (simp add: utils_serve_def)
qed (simp add: utils_serve_def)

lemma fold_utils_serve_wf: "shell_wf env \<Longrightarrow> wf_host s \<Longrightarrow> wf_host (fold (utils_serve env) reqs s)"
  by (induction reqs arbitrary: s) (simp_all add: utils_serve_wf)

section \<open>A source of file pieces\<close>

text \<open>The procedure \<open>file_content\<close> with the limit the client uses. A file is ready for it when the server may read
  it, memory is there, and its length is a \<open>long\<close>.\<close>

definition content_request :: "string \<Rightarrow> string \<Rightarrow> int \<Rightarrow> parameter_type list" where
  "content_request d c off = [(d, 4), (c, 4), (to_string off, 1), (to_string kMaxSizeData, 1)]"

definition file_ready :: "'h env \<Rightarrow> string \<Rightarrow> string \<Rightarrow> path \<Rightarrow> 'h host \<Rightarrow> bool" where
  "file_ready env d c p s \<longleftrightarrow>
     lexical_cast_ok (casts env) \<and> malloc_ok (heap env) \<and> names_dir (fst s) d p \<and> good_name c \<and>
     \<not> refuses (fst s) Open_read (p @ [c]) \<and> (\<exists>t. lookup (root (fst s)) (p @ [c]) = Some (File t)) \<and>
     int (length (content (fst s) (p @ [c]))) < 2 ^ 63"

definition reply_of :: "outcome \<Rightarrow> response_type" where
  "reply_of r = (case r of Reply x \<Rightarrow> x | ErrorReply x \<Rightarrow> x | Thrown \<Rightarrow> ([], 0) | Undefined \<Rightarrow> ([], 0))"

definition fetch_piece :: "'h env \<Rightarrow> string \<Rightarrow> string \<Rightarrow> 'h host \<Rightarrow> int \<Rightarrow> response_type" where
  "fetch_piece env d c s off = reply_of (fst (handle_file_content env s (content_request d c off)))"

lemma content_args_request:
  assumes "lexical_cast_ok lc" "0 \<le> off" "off < 2 ^ 63"
  shows "content_args lc (content_request d c off) = Some (d, c, off, kMaxSizeData)"
  using assms GetValue_long [of lc off] GetValue_size [of lc kMaxSizeData]
  by (simp add: content_args_def content_request_def numeral_2_eq_2 numeral_3_eq_3 is_long_def kMaxSizeData_def)

lemma handle_file_content_piece:
  assumes "file_ready env d c p s" "0 \<le> off" "off \<le> int (length (content (fst s) (p @ [c])))"
  shows "handle_file_content env s (content_request d c off) =
     (Reply (take (nat kMaxSizeData) (drop (nat off) (content (fst s) (p @ [c]))),
             if off + kMaxSizeData \<ge> int (length (content (fst s) (p @ [c]))) then 0
             else to_int (off + kMaxSizeData)), s)"
proof -
  obtain os h where s: "s = (os, h)" by fastforce
  then obtain t where f: "lexical_cast_ok (casts env)" "malloc_ok (heap env)" "names_dir os d p" "good_name c"
      "\<not> refuses os Open_read (p @ [c])" "lookup (root os) (p @ [c]) = Some (File t)" "int (length t) < 2 ^ 63"
    using assms(1) by (auto simp: file_ready_def content_def)
  then have t: "content (fst s) (p @ [c]) = t" using s by (simp add: content_def)
  let ?n = "piece_size t off kMaxSizeData"
  have "GetFileContent (heap env) os d c off kMaxSizeData =
      Some (take (nat ?n) (drop (nat off) t), if off + ?n = int (length t) then 0 else off + ?n)"
    using GetFileContent_entry [OF f(3-6)] read_block_slice [OF f(2) assms(2) _ f(7), of kMaxSizeData] assms(3) t
    by (simp add: kMaxSizeData_def)
  moreover have "take (nat ?n) (drop (nat off) t) = take (nat kMaxSizeData) (drop (nat off) t)"
    by (auto simp: piece_size_def kMaxSizeData_def min_def nat_diff_distrib' intro!: take_all [symmetric])
  moreover have "to_int (if off + ?n = int (length t) then 0 else off + ?n) =
      (if off + kMaxSizeData \<ge> int (length t) then 0 else to_int (off + kMaxSizeData))"
    by (auto simp: piece_size_def kMaxSizeData_def min_def to_int_def)
  moreover have "content_args (casts env) (content_request d c off) = Some (d, c, off, kMaxSizeData)"
    using f(1,7) assms(2,3) t by (intro content_args_request) simp_all
  ultimately show ?thesis
    using s t by (simp add: handle_file_content_def checked_def) (simp add: content_request_def)
qed

text \<open>Whatever the offset, the request is answered and the host is left alone.\<close>

lemma handle_file_content_replies:
  assumes "file_ready env d c p s"
  shows "handle_file_content env s (content_request d c off) = (Reply (fetch_piece env d c s off), s)"
proof -
  obtain os h where s: "s = (os, h)" by fastforce
  then obtain t where f: "lexical_cast_ok (casts env)" "names_dir os d p" "good_name c"
      "\<not> refuses os Open_read (p @ [c])" "lookup (root os) (p @ [c]) = Some (File t)"
    using assms by (auto simp: file_ready_def content_def)
  have "\<exists>r. handle_file_content env s (content_request d c off) = (Reply r, s)"
  proof (cases "content_args (casts env) (content_request d c off)")
    case None
    then show ?thesis by (simp add: handle_file_content_def checked_def)
  next
    case (Some args)
    then obtain x y where "content_args (casts env) (content_request d c off) = Some (d, c, x, y)"
      using f(1) by (auto simp: content_args_def content_request_def Let_def split: if_splits)
    with s GetFileContent_entry [OF f(2-5), of "heap env" x y] show ?thesis
      by (simp add: handle_file_content_def checked_def split: prod.splits)
  qed
  then show ?thesis by (auto simp: fetch_piece_def reply_of_def)
qed

interpretation utils_file: chunk_source "file_ready env d c p" "\<lambda>s. content (fst s) (p @ [c])"
    "fetch_piece env d c" kMaxSizeData for env d c p
  by unfold_locales (simp_all add: kMaxSizeData_def [symmetric] fetch_piece_def reply_of_def
      handle_file_content_piece, simp add: kMaxSizeData_def)

section \<open>Properties\<close>

text \<open>C26: no remote procedure acts on a malformed request: for each of the thirteen procedures, a
  request whose parameters do not carry exactly the type codes of its signature is answered with
  \<open>FAILED\<close> and leaves the file system and the processes as they were.\<close>

theorem utils_rejects_malformed:
  assumes "map_of (UtilsManager_Bind env) name = Some h" "map_of signature name = Some ts"
    and "map snd ps \<noteq> map param_code ts"
  shows "\<exists>m. h s ps = (Reply (m, FAILED), s)"
proof -
  have "rejects_untyped h ts" using handlers_reject_untyped assms(1,2) by (rule list_all2_map_of)
  with assms(3) show ?thesis unfolding rejects_untyped_def by blast
qed

definition example_env :: "(int \<times> int) list env" where
  "example_env = \<lparr> casts = decimal_cast, heap = (\<lambda>n. Some (replicate (nat n) NUL)),
     shell = (\<lambda>os cmd. Some ([], 0, os)), procs = example_procs, stack_bytes = [] \<rparr>"

theorem utils_rejects_malformed_witness:
  "\<exists>m. handle_file_delete example_env (example_os, []) [(''/home'', 4), (''5'', 1)] =
     (Reply (m, FAILED), (example_os, []))"
  using utils_rejects_malformed [of example_env file_delete "handle_file_delete example_env"
      "[STRING_T, STRING_T]" "[(''/home'', 4), (''5'', 1)]" "(example_os, [])"]
  by (simp add: UtilsManager_Bind_def signature_def rpc_name_defs)


lemma example_shell_wf: "shell_wf example_env"
  by (simp add: shell_wf_def example_env_def)


text \<open>Procedure names identify procedures: the thirteen names are pairwise distinct and each has
  a signature, so that no later registration hides an earlier one.\<close>

theorem utils_names_distinct:
  "distinct (map fst (UtilsManager_Bind env)) \<and> map fst (UtilsManager_Bind env) = map fst signature \<and>
   client_connected \<notin> set (map fst (UtilsManager_Bind env))"
  by (simp add: UtilsManager_Bind_def signature_def rpc_name_defs)

end
