(* ===== verification/Plugin_Manager.thy ===== *)
theory Plugin_Manager
  imports Posix_FS "HOL-Library.Multiset"
begin

text \<open>
  How the server starts: the plugin manager (\<open>remote_adapter_plugin_manager.cc\<close>), which loads every
  shared library of a directory that exports the two plugin functions, and the choice of the port in
  \<open>main.cc\<close>. The dynamic loader is a parameter: a library is known by the functions it exports and by
  what its \<open>create_plugin\<close> returns. The handles that are open are a part of the state.
\<close>

section \<open>Library files\<close>

text \<open>\<open>std::string::find_last_of\<close> for one character.\<close>

fun find_last_of :: "string \<Rightarrow> char \<Rightarrow> nat option" where
  "find_last_of [] c = None"
| "find_last_of (x # xs) c =
     (case find_last_of xs c of Some i \<Rightarrow> Some (Suc i) | None \<Rightarrow> if x = c then Some 0 else None)"

definition IsLibraryFile :: "string \<Rightarrow> bool" where
  "IsLibraryFile file_path =
     (case find_last_of file_path (CHR ''.'') of
        None \<Rightarrow> False
      | Some pos \<Rightarrow> if drop (pos + 1) file_path \<noteq> ''so'' then False else True)"

section \<open>Loading\<close>

record 'p library =
  exports :: "string \<Rightarrow> bool"
  created :: "'p option"

text \<open>\<open>dlopen\<close> finds a library or does not; the state lists the files whose handles are open.\<close>

type_synonym 'p loader = "string \<Rightarrow> 'p library option"

definition dlclose :: "string \<Rightarrow> string list \<Rightarrow> string list" where
  "dlclose handle opened = remove1 handle opened"

definition GetFuncFromLib :: "'p library \<Rightarrow> string \<Rightarrow> bool" where
  "GetFuncFromLib lib function_name = exports lib function_name"

text \<open>A loaded plugin is the object together with the handle its destroyer closes. A null object from
  \<open>create_plugin\<close> is no plugin, and nothing closes its handle.\<close>

definition LoadPlugin :: "'p loader \<Rightarrow> string \<Rightarrow> string list \<Rightarrow> ('p \<times> string) option \<times> string list" where
  "LoadPlugin dlopen full_plugin_path opened =
     (if \<not> IsLibraryFile full_plugin_path then (None, opened)
      else
        (case dlopen (c_str full_plugin_path) of
           None \<Rightarrow> (None, opened)
         | Some lib \<Rightarrow>
             let plugin_handle = c_str full_plugin_path;
                 opened = plugin_handle # opened
             in if \<not> GetFuncFromLib lib ''create_plugin'' then (None, dlclose plugin_handle opened)
                else if \<not> GetFuncFromLib lib ''delete_plugin'' then (None, dlclose plugin_handle opened)
                else (map_option (\<lambda>p. (p, plugin_handle)) (created lib), opened)))"

record 'p manager =
  loaded_plugins :: "('p \<times> string) list"
  handles :: "string list"

definition RemoteAdapterPluginManager :: "'p manager" where
  "RemoteAdapterPluginManager = \<lparr>loaded_plugins = [], handles = []\<rparr>"

fun load_each :: "'p loader \<Rightarrow> string \<Rightarrow> string list \<Rightarrow> 'p manager \<Rightarrow> 'p manager" where
  "load_each dlopen plugins_path [] m = m"
| "load_each dlopen plugins_path (plugin_file # plugin_files) m =
     (let full_name = plugins_path @ ''/'' @ plugin_file;
          (plugin, opened) = LoadPlugin dlopen full_name (handles m);
          m = m\<lparr>handles := opened\<rparr>
      in case plugin of
           None \<Rightarrow> load_each dlopen plugins_path plugin_files m
         | Some p \<Rightarrow>
             load_each dlopen plugins_path plugin_files (m\<lparr>loaded_plugins := loaded_plugins m @ [p]\<rparr>))"

text \<open>The directory iterator throws for a path that is no readable directory (\<open>None\<close>), so that the
  test behind it never fails. The result is the number of plugins as a 32 bit number.\<close>

definition list_files :: "os \<Rightarrow> string \<Rightarrow> string list option" where
  "list_files os directory_name =
     map_option (filter (\<lambda>f. f \<noteq> ''.'' \<and> f \<noteq> ''..'')) (opendir os directory_name)"

definition LoadPlugins :: "'p loader \<Rightarrow> os \<Rightarrow> string \<Rightarrow> 'p manager \<Rightarrow> (int \<times> 'p manager) option" where
  "LoadPlugins dlopen os plugins_path m = do {
     plugin_files \<leftarrow> list_files os plugins_path;
     let m = load_each dlopen plugins_path plugin_files m;
     Some (int (length (loaded_plugins m)) mod 2 ^ 32, m) }"

text \<open>The constructor with a path; \<open>None\<close> when it throws.\<close>

definition RemoteAdapterPluginManager_at :: "'p loader \<Rightarrow> os \<Rightarrow> string \<Rightarrow> 'p manager option" where
  "RemoteAdapterPluginManager_at dlopen os plugins_path =
     map_option snd (LoadPlugins dlopen os plugins_path RemoteAdapterPluginManager)"

definition ForEachPlugin :: "('p \<Rightarrow> 's \<Rightarrow> 's) \<Rightarrow> 'p manager \<Rightarrow> 's \<Rightarrow> 's" where
  "ForEachPlugin functor m s = fold (\<lambda>plugin. functor (fst plugin)) (loaded_plugins m) s"

text \<open>Destroying the manager deletes the plugins, each of which closes its handle.\<close>

definition unload_all :: "'p manager \<Rightarrow> 'p manager" where
  "unload_all m =
     m\<lparr>loaded_plugins := [], handles := fold (\<lambda>plugin. dlclose (snd plugin)) (loaded_plugins m) (handles m)\<rparr>"

section \<open>The port\<close>

text \<open>Indexing a \<open>std::string\<close> at its size gives the terminator.\<close>

definition char_at :: "string \<Rightarrow> nat \<Rightarrow> char" where
  "char_at s i = (if i < length s then s ! i else NUL)"

fun all_digits :: "string \<Rightarrow> bool" where
  "all_digits [] = True"
| "all_digits (c # cs) = (if \<not> isdigit c then False else all_digits cs)"

definition IsUnsignedNumber :: "string \<Rightarrow> bool" where
  "IsUnsignedNumber number =
     (if CHR ''-'' = char_at number 0 \<and> isdigit (char_at number 1) then False else all_digits number)"

text \<open>The part of \<open>main\<close> up to the port; \<open>None\<close> prints the usage and returns 1.\<close>

definition select_port :: "string list \<Rightarrow> int option" where
  "select_port argv =
     (let port = 5555 in
      if 2 = length argv then
        let number = argv ! 1 in
        if IsUnsignedNumber number then
          let arg_port = to_ushort (atoi number) in Some (if 0 \<noteq> arg_port then arg_port else port)
        else None
      else if length argv > 2 then None
      else Some port)"

section \<open>Lemmas\<close>

lemma find_last_of_None: "find_last_of s c = None \<longleftrightarrow> c \<notin> set s"
  by (induction s) (auto split: option.splits)

lemma find_last_of_split: "c \<notin> set ys \<Longrightarrow> find_last_of (xs @ c # ys) c = Some (length xs)"
proof (induction xs)
  case Nil
  then have "find_last_of ys c = None" by (simp add: find_last_of_None)
  then show ?case by simp
qed simp

lemma all_digits_iff: "all_digits s \<longleftrightarrow> list_all isdigit s"
  by (induction s) auto

lemma IsUnsignedNumber_show: "IsUnsignedNumber (show_nat n)"
proof -
  have "char_at (show_nat n) 0 \<noteq> CHR ''-''"
    using hd_show_nat [of n] show_nat_nonempty [of n] isdigit_not_minus
    by (auto simp: char_at_def hd_conv_nth)
  then show ?thesis by (simp add: IsUnsignedNumber_def all_digits_iff show_nat_digits)
qed

text \<open>What one file contributes.\<close>

definition plugin_of :: "'p loader \<Rightarrow> string \<Rightarrow> ('p \<times> string) option" where
  "plugin_of dlopen full_name =
     (if IsLibraryFile full_name then
        Option.bind (dlopen (c_str full_name)) (\<lambda>lib.
          if exports lib ''create_plugin'' \<and> exports lib ''delete_plugin''
          then map_option (\<lambda>p. (p, c_str full_name)) (created lib) else None)
      else None)"

text \<open>Libraries whose \<open>create_plugin\<close> returns an object.\<close>

definition creates :: "'p loader \<Rightarrow> bool" where
  "creates dlopen \<longleftrightarrow> (\<forall>f lib. dlopen f = Some lib \<longrightarrow> created lib \<noteq> None)"

lemma LoadPlugin_eq:
  assumes "creates dlopen"
  shows "LoadPlugin dlopen f opened =
     (plugin_of dlopen f, (case plugin_of dlopen f of None \<Rightarrow> opened | Some p \<Rightarrow> snd p # opened))"
  using assms
  by (auto simp: LoadPlugin_def plugin_of_def dlclose_def GetFuncFromLib_def Let_def creates_def
      split: option.splits) (metis option.distinct(1))

lemma load_each_eq:
  assumes "creates dlopen"
  shows "load_each dlopen d fs m =
     m\<lparr>loaded_plugins := loaded_plugins m @ List.map_filter (\<lambda>f. plugin_of dlopen (d @ ''/'' @ f)) fs,
       handles := rev (map snd (List.map_filter (\<lambda>f. plugin_of dlopen (d @ ''/'' @ f)) fs)) @ handles m\<rparr>"
proof (induction fs arbitrary: m)
  case Nil
  then show ?case by (simp add: map_filter_simps)
next
  case (Cons f fs)
  then show ?case
    by (auto simp: LoadPlugin_eq [OF assms] map_filter_simps split: option.splits)
qed

lemma fold_dlclose:
  "mset (fold (\<lambda>plugin. dlclose (snd plugin)) ps opened) = mset opened - mset (map snd ps)"
  by (induction ps arbitrary: opened) (simp_all add: dlclose_def)

section \<open>Properties\<close>

text \<open>The manager tries exactly the files whose names end in \<open>.so\<close>.\<close>

theorem library_file_suffix: "IsLibraryFile f \<longleftrightarrow> suffix ''.so'' f"
proof (cases "CHR ''.'' \<in> set f")
  case True
  then obtain xs ys where f: "f = xs @ CHR ''.'' # ys" "CHR ''.'' \<notin> set ys"
    by (meson split_list_last)
  then have "IsLibraryFile f \<longleftrightarrow> ys = ''so''"
    by (simp add: IsLibraryFile_def find_last_of_split)
  moreover have "suffix ''.so'' f \<longleftrightarrow> ys = ''so''"
  proof
    assume "suffix ''.so'' f"
    then obtain zs where zs: "f = zs @ CHR ''.'' # ''so''" by (auto simp: suffix_def)
    then have "find_last_of f (CHR ''.'') = Some (length zs)" by (simp add: find_last_of_split)
    then have "length zs = length xs" using f by (simp add: find_last_of_split)
    with zs f(1) show "ys = ''so''" by simp
  qed (use f in \<open>simp add: suffix_def\<close>)
  ultimately show ?thesis by simp
next
  case False
  then have "\<not> suffix ''.so'' f" by (auto simp: suffix_def)
  with False show ?thesis by (simp add: IsLibraryFile_def find_last_of_None [THEN iffD2])
qed

lemma load_plugins:
  assumes "creates dlopen" "opendir os d = Some (''.'' # ''..'' # fs)" "''.'' \<notin> set fs" "''..'' \<notin> set fs"
    and "length fs < 2 ^ 32"
  shows "\<exists>m. LoadPlugins dlopen os d RemoteAdapterPluginManager = Some (int (length (loaded_plugins m)), m) \<and>
     loaded_plugins m = List.map_filter (\<lambda>f. plugin_of dlopen (d @ ''/'' @ f)) fs \<and>
     handles (unload_all m) = []"
proof -
  let ?ps = "List.map_filter (\<lambda>f. plugin_of dlopen (d @ ''/'' @ f)) fs"
  let ?m = "load_each dlopen d fs RemoteAdapterPluginManager"
  have m: "loaded_plugins ?m = ?ps" "handles ?m = rev (map snd ?ps)"
    by (simp_all add: load_each_eq [OF assms(1)] RemoteAdapterPluginManager_def)
  have "filter (\<lambda>f. f \<noteq> ''.'' \<and> f \<noteq> ''..'') fs = fs"
    using assms(3,4) by (induction fs) auto
  then have fs: "list_files os d = Some fs" using assms(2) by (simp add: list_files_def)
  have "length ?ps \<le> length fs" by (simp add: map_filter_def)
  then have "int (length ?ps) mod 2 ^ 32 = int (length ?ps)" using assms(5) by simp
  moreover have "handles (unload_all ?m) = []"
    using m fold_dlclose [of ?ps "rev (map snd ?ps)"] by (simp add: unload_all_def)
  ultimately show ?thesis using m fs by (intro exI [of _ ?m]) (simp add: LoadPlugins_def)
qed

text \<open>Loading a directory loads its plugins and nothing else: when every library that exports the
  plugin functions also creates an object, the plugins are, in the order of the directory, those of
  the files that are libraries with both functions, the result is their number, and destroying the
  manager closes every handle that loading opened.\<close>

theorem load_plugins_exact:
  assumes "creates dlopen" "opendir os d = Some (''.'' # ''..'' # fs)" "''.'' \<notin> set fs" "''..'' \<notin> set fs"
    and "length fs < 2 ^ 32"
  shows "\<exists>m. LoadPlugins dlopen os d RemoteAdapterPluginManager = Some (int (length (loaded_plugins m)), m) \<and>
     loaded_plugins m = List.map_filter (\<lambda>f. plugin_of dlopen (d @ ''/'' @ f)) fs \<and>
     handles (unload_all m) = []"
  using assms by (rule load_plugins)

definition example_loader :: "nat loader" where
  "example_loader f =
     (if f = ''/home/p.so'' then Some \<lparr>exports = (\<lambda>n. True), created = Some 1\<rparr>
      else if f = ''/home/q.so'' then Some \<lparr>exports = (\<lambda>n. n = ''create_plugin''), created = Some 2\<rparr> else None)"

definition plugin_os :: os where
  "plugin_os = \<lparr>root = Dir [(''home'', Dir [(''q.so'', File []), (''readme'', File []), (''p.so'', File [])])],
     cwd = [], refuses = (\<lambda>k p. False)\<rparr>"

theorem load_plugins_exact_witness:
  "\<exists>m. LoadPlugins example_loader plugin_os ''/home'' RemoteAdapterPluginManager = Some (1, m) \<and>
     loaded_plugins m = [(1, ''/home/p.so'')] \<and> handles (unload_all m) = []"
proof -
  have "creates example_loader" by (simp add: creates_def example_loader_def)
  moreover have "opendir plugin_os ''/home'' = Some (''.'' # ''..'' # [''q.so'', ''readme'', ''p.so''])"
    by (simp add: opendir_def resolve_def plugin_os_def c_str_def)
  moreover have "List.map_filter (\<lambda>f. plugin_of example_loader (''/home'' @ ''/'' @ f)) [''q.so'', ''readme'', ''p.so''] =
      [(1, ''/home/p.so'')]"
    by (simp add: map_filter_simps plugin_of_def example_loader_def IsLibraryFile_def c_str_def)
  ultimately show ?thesis
    using load_plugins_exact [of example_loader plugin_os "''/home''" "[''q.so'', ''readme'', ''p.so'']"]
    by auto
qed

lemma select_port_decimal:
  assumes "n < 65536"
  shows "select_port [prog, show_nat n] = Some (if n = 0 then 5555 else int n) \<and> select_port [prog] = Some 5555"
proof -
  have "to_ushort (atoi (show_nat n)) = int n"
    using assms by (simp add: atoi_show_nat to_int_id is_int_def to_ushort_id)
  then show ?thesis by (simp add: select_port_def IsUnsignedNumber_show)
qed

text \<open>A port given in decimal is used as it is from 1 to 65535; no argument and port 0 select 5555.\<close>

theorem port_selection:
  assumes "n < 65536"
  shows "select_port [prog, show_nat n] = Some (if n = 0 then 5555 else int n) \<and> select_port [prog] = Some 5555"
  using assms by (rule select_port_decimal)

theorem port_selection_witness: "select_port [''srv'', show_nat 80] = Some 80"
  using port_selection [of 80 "''srv''"] by simp

text \<open>A port outside the documented range is not refused: a number up to 2147483647 is taken modulo
  65536, so that the server listens on a port nobody asked for.\<close>

theorem port_out_of_range_wraps:
  assumes "65536 \<le> n" "n < 2 ^ 31"
  shows "select_port [prog, show_nat n] = Some (if int n mod 65536 = 0 then 5555 else int n mod 65536)"
proof -
  have "to_ushort (atoi (show_nat n)) = int n mod 65536"
    using assms by (simp add: atoi_show_nat to_int_id is_int_def to_ushort_def take_bit_eq_mod)
  then show ?thesis by (simp add: select_port_def IsUnsignedNumber_show)
qed

theorem port_out_of_range_wraps_witness: "select_port [''srv'', show_nat 70000] = Some 4464"
  using port_out_of_range_wraps [of 70000 "''srv''"] by simp

end
