(* ===== verification/Adapter_Server.thy ===== *)
theory Adapter_Server
  imports Utils_Rpc Message_Broker Plugin_Manager
begin

text \<open>
  The remote adapter server as \<open>main.cc\<close> puts it together: the procedure \<open>client_connected\<close> and the
  procedures every loaded plugin binds, over the state of both plugins.
\<close>

section \<open>The dispatch table\<close>

record ('h, 'w) server =
  server_host :: "'h host"
  server_broker :: "'w broker"

type_synonym ('h, 'w) server_handler = "('h, 'w) server \<Rightarrow> parameter_type list \<Rightarrow> outcome \<times> ('h, 'w) server"

text \<open>The plugins the sources build.\<close>

datatype plugin = Utils_plugin | Broker_plugin

definition on_host ::
  "('h host \<Rightarrow> parameter_type list \<Rightarrow> outcome \<times> 'h host) \<Rightarrow> ('h, 'w) server_handler" where
  "on_host h s ps = (case h (server_host s) ps of (r, x) \<Rightarrow> (r, s\<lparr>server_host := x\<rparr>))"

definition on_broker ::
  "('w broker \<Rightarrow> parameter_type list \<Rightarrow> outcome \<times> 'w broker) \<Rightarrow> ('h, 'w) server_handler" where
  "on_broker h s ps = (case h (server_broker s) ps of (r, x) \<Rightarrow> (r, s\<lparr>server_broker := x\<rparr>))"

fun plugin_Bind :: "'h env \<Rightarrow> 'w ws_ops \<Rightarrow> plugin \<Rightarrow> (string \<times> ('h, 'w) server_handler) list" where
  "plugin_Bind env ops Utils_plugin = map (\<lambda>(n, h). (n, on_host h)) (UtilsManager_Bind env)"
| "plugin_Bind env ops Broker_plugin =
     map (\<lambda>(n, h). (n, on_broker h)) (MessageBroker_Bind (casts env) ops)"

definition handle_client_connected :: "('h, 'w) server_handler" where
  "handle_client_connected s ps = (Reply ([], SUCCESS), s)"

text \<open>\<open>main\<close> binds \<open>client_connected\<close> and then lets every plugin bind its own.\<close>

definition bind_all ::
  "'h env \<Rightarrow> 'w ws_ops \<Rightarrow> plugin manager \<Rightarrow> (string \<times> ('h, 'w) server_handler) list" where
  "bind_all env ops plugin_manager =
     ForEachPlugin (\<lambda>plugin srv. srv @ plugin_Bind env ops plugin) plugin_manager
       [(client_connected, handle_client_connected)]"

text \<open>What \<open>create_plugin\<close> of the transport plugin makes and \<open>delete_plugin\<close> destroys; the other plugin has no state of its
  own. The deleter of a plugin then closes its library.\<close>

definition create_plugin :: "'w broker" where
  "create_plugin = MessageBroker"

definition delete_plugin :: "'w ws_ops \<Rightarrow> endpoint list \<Rightarrow> 'w broker \<Rightarrow> 'w broker option" where
  "delete_plugin ops eps plugin = delete_MessageBroker ops eps plugin"

text \<open>\<open>main\<close> as a whole: it returns a code, with the handles of libraries that are then open, or serves a table on
  a port until it is killed. A port that cannot be opened throws, and the plugins are destroyed before they were
  used. \<open>Crashes\<close> is undefined behaviour.\<close>

datatype ('h, 'w) server_run =
  Exits int "string list" | Serves int "(string \<times> ('h, 'w) server_handler) list" | Crashes

definition server_main ::
  "'h env \<Rightarrow> 'w ws_ops \<Rightarrow> plugin loader \<Rightarrow> (int \<Rightarrow> bool) \<Rightarrow> os \<Rightarrow> string list \<Rightarrow> ('h, 'w) server_run" where
  "server_main env ops dlopen listens os argv =
     (case select_port argv of
        None \<Rightarrow> Exits 1 []
      | Some port \<Rightarrow>
          let cwd = path_string (cwd os);
              cwd = (if length cwd < PATH_MAX then cwd else ''./'')
          in (case RemoteAdapterPluginManager_at dlopen os cwd of
                None \<Rightarrow> Exits 0 []
              | Some plugin_manager \<Rightarrow>
                  if listens port then Serves port (bind_all env ops plugin_manager)
                  else if Broker_plugin \<in> fst ` set (loaded_plugins plugin_manager) \<and> delete_plugin ops [] create_plugin = None
                  then Crashes
                  else Exits 0 (handles (unload_all plugin_manager))))"

section \<open>Lemmas\<close>

lemma bind_all_eq:
  "bind_all env ops m =
     (client_connected, handle_client_connected) # concat (map (\<lambda>p. plugin_Bind env ops (fst p)) (loaded_plugins m))"
proof -
  have "fold (\<lambda>p srv. srv @ plugin_Bind env ops (fst p)) ps t =
      t @ concat (map (\<lambda>p. plugin_Bind env ops (fst p)) ps)" for ps :: "(plugin \<times> string) list" and t
    by (induction ps arbitrary: t) simp_all
  then show ?thesis by (simp add: bind_all_def ForEachPlugin_def)
qed

lemma broker_names: "map fst (MessageBroker_Bind lc ops) = [open_handle, close_handle, send_name, receive_name]"
  by (simp add: MessageBroker_Bind_def)

lemma utils_names:
  "map fst (UtilsManager_Bind env) =
     [app_start, app_stop, app_check_status, file_backup, file_restore, file_update, file_exists, file_delete,
      file_content, folder_exists, folder_delete, folder_create, command_execute]"
  by (simp add: UtilsManager_Bind_def)

lemma plugin_names:
  "map fst (plugin_Bind env ops Utils_plugin) = map fst (UtilsManager_Bind env)"
  "map fst (plugin_Bind env ops Broker_plugin) = map fst (MessageBroker_Bind (casts env) ops)"
  by (simp_all add: case_prod_beta comp_def)

text \<open>A server that has both plugins, in the order the directory listed them.\<close>

definition both_loaded :: "plugin manager \<Rightarrow> bool" where
  "both_loaded m \<longleftrightarrow> map fst (loaded_plugins m) \<in> {[Utils_plugin, Broker_plugin], [Broker_plugin, Utils_plugin]}"

lemma bind_all_both:
  assumes "both_loaded m"
  shows "bind_all env ops m \<in>
     {(client_connected, handle_client_connected) # plugin_Bind env ops Utils_plugin @ plugin_Bind env ops Broker_plugin,
      (client_connected, handle_client_connected) # plugin_Bind env ops Broker_plugin @ plugin_Bind env ops Utils_plugin}"
proof -
  have "map (\<lambda>p. plugin_Bind env ops (fst p)) (loaded_plugins m) =
      map (plugin_Bind env ops) (map fst (loaded_plugins m))" by simp
  then show ?thesis using assms unfolding bind_all_eq both_loaded_def by auto
qed

lemma bind_all_handlers:
  assumes "both_loaded m"
  shows "map_of (bind_all env ops m) file_content = Some (on_host (handle_file_content env))"
    and "map_of (bind_all env ops m) send_name = Some (on_broker (handle_send (casts env) ops))"
    and "map_of (bind_all env ops m) receive_name = Some (on_broker (handle_receive (casts env) ops))"
    and "map_of (bind_all env ops m) open_handle = Some (on_broker (handle_open (casts env) ops))"
  using bind_all_both [OF assms, of env ops]
  by (auto simp: UtilsManager_Bind_def MessageBroker_Bind_def rpc_name_defs)

definition example_manager :: "plugin manager" where
  "example_manager = \<lparr>loaded_plugins = [(Utils_plugin, ''u.so''), (Broker_plugin, ''b.so'')],
     handles = [''b.so'', ''u.so'']\<rparr>"

lemma example_both: "both_loaded example_manager"
  by (simp add: both_loaded_def example_manager_def)

section \<open>Properties\<close>

text \<open>The two plugins do not get in each other's way: with both loaded, in whichever order the
  directory lists them, the server offers eighteen procedures under pairwise different names.\<close>

theorem server_procedures_distinct:
  assumes "both_loaded m"
  shows "distinct (map fst (bind_all env ops m)) \<and> length (bind_all env ops m) = 18"
proof -
  have "distinct (client_connected # map fst (UtilsManager_Bind env) @ map fst (MessageBroker_Bind (casts env) ops))"
    by (simp add: utils_names broker_names rpc_name_defs)
  moreover have "length (UtilsManager_Bind env) = 13" "length (MessageBroker_Bind (casts env) ops) = 4"
    by (simp_all add: UtilsManager_Bind_def MessageBroker_Bind_def)
  ultimately show ?thesis
    using bind_all_both [OF assms, of env ops]
    by (auto simp: plugin_names simp del: plugin_Bind.simps)
      (auto simp: UtilsManager_Bind_def MessageBroker_Bind_def)
qed

theorem server_procedures_distinct_witness:
  "distinct (map fst (bind_all example_env example_ws example_manager)) \<and>
   length (bind_all example_env example_ws example_manager) = 18"
  using server_procedures_distinct [OF example_both] by blast


definition server_loader :: "plugin loader" where
  "server_loader f =
     (if f = ''/home/u.so'' then Some \<lparr>exports = (\<lambda>n. True), created = Some Utils_plugin\<rparr>
      else if f = ''/home/b.so'' then Some \<lparr>exports = (\<lambda>n. True), created = Some Broker_plugin\<rparr> else None)"

definition server_os :: os where
  "server_os = \<lparr>root = Dir [(''home'', Dir [(''u.so'', File []), (''readme'', File []), (''b.so'', File [])])],
     cwd = [''home''], refuses = (\<lambda>k p. False)\<rparr>"


end
