(* ===== verification/Client_Server.thy ===== *)
theory Client_Server
  imports Hmi_Adapter Adapter_Server
begin

text \<open>
  Client and server together: what rpclib promises of a connection between them, the transfer of a file, and the
  calls of an adapter as they reach the broker. The definitions for closed examples are at the end of each section.
\<close>

section \<open>Connections\<close>

text \<open>
  What rpclib promises of a connection: a call of a procedure the server's table has, made in a
  connection state that is \<open>live\<close>, runs the handler on the server's state and brings its reply back,
  and the connection stays live. \<open>view\<close> is the server's state behind a connection.
\<close>

definition serves ::
  "('c, 'o) rpc_ops \<Rightarrow> (string \<times> ('s \<Rightarrow> parameter_type list \<Rightarrow> outcome \<times> 's)) list \<Rightarrow> ('c \<Rightarrow> 's) \<Rightarrow>
   ('c \<Rightarrow> bool) \<Rightarrow> bool" where
  "serves ops table view live \<longleftrightarrow>
     (\<forall>k n h ps r s1. live k \<longrightarrow> map_of table n = Some h \<longrightarrow> h (view k) ps = (Reply r, s1) \<longrightarrow>
        get_connection_state ops k \<and>
        (\<exists>k1. client_call ops n (Some ps) k = (Returned (pack ops r), k1) \<and> live k1 \<and> view k1 = s1))"

lemma serves_call:
  assumes "serves ops table view live" "msgpack_ok ops" "live k" "map_of table n = Some h"
    and "h (view k) ps = (Reply r, s1)"
  obtains k1 where "content_call ops n ps k = (Some r, k1)" "live k1" "view k1 = s1"
proof -
  have "get_connection_state ops k \<and>
      (\<exists>k1. client_call ops n (Some ps) k = (Returned (pack ops r), k1) \<and> live k1 \<and> view k1 = s1)"
    using assms(1,3-5) unfolding serves_def by blast
  then obtain k1 where "get_connection_state ops k"
      "client_call ops n (Some ps) k = (Returned (pack ops r), k1)" "live k1" "view k1 = s1" by blast
  moreover have "as_response ops (pack ops r) = Some r" using assms(2) unfolding msgpack_ok_def by blast
  ultimately show thesis
    using that by (simp add: content_call_def client_is_connected_def call_response_def RpcConnection_call_def)
qed

text \<open>A file that is ready on the server is a source of pieces for the client.\<close>

lemma answers_file_content:
  assumes "serves ops (bind_all env ws m) view live" "both_loaded m" "file_ready env d c p s"
  shows "answers ops file_content (file_request d c) (fetch_piece env d c s)
     (\<lambda>k. live k \<and> server_host (view k) = s)"
proof -
  have r: "on_host (handle_file_content env) (view k) (file_request d c off) =
      (Reply (fetch_piece env d c s off), view k)" if "server_host (view k) = s" for k off
    using handle_file_content_replies [OF assms(3), of off] that
    by (simp add: on_host_def content_request_def)
  show ?thesis
    unfolding answers_def
    using assms(1) bind_all_handlers(1) [OF assms(2), of env ws] r unfolding serves_def by metis
qed

text \<open>A connection that runs the table, for closed examples.\<close>

definition dispatch ::
  "(string \<times> ('s \<Rightarrow> parameter_type list \<Rightarrow> outcome \<times> 's)) list \<Rightarrow> string \<Rightarrow> parameter_type list \<Rightarrow> 's \<Rightarrow> outcome \<times> 's" where
  "dispatch table n ps s = (case map_of table n of None \<Rightarrow> (Thrown, s) | Some h \<Rightarrow> h s ps)"

lemma dispatch_serves: "serves (function_client (dispatch table)) table (\<lambda>s. s) (\<lambda>s. True)"
  by (auto simp: serves_def dispatch_def)

definition example_server :: "((int \<times> int) list, bool \<times> string list) server" where
  "example_server = \<lparr>server_host = (example_os, []), server_broker = example_broker\<rparr>"

abbreviation example_table ::
  "(string \<times> ((int \<times> int) list, bool \<times> string list) server_handler) list" where
  "example_table \<equiv> bind_all example_env example_ws example_manager"

lemma example_file_ready: "file_ready example_env ''/home'' ''a.txt'' [''home''] (server_host example_server)"
  using example_names_home decimal_cast_ok
  by (simp add: file_ready_def example_env_def example_server_def malloc_ok_def good_name_def content_def)

lemma example_tmp: "tmp_usable example_os [''tmp''] ''a.txt''"
  by (simp add: tmp_usable_def names_dir_def kTmpPath_def resolve_def c_str_def good_name_def)

section \<open>Files\<close>

text \<open>The transfer of a file, from the client's call to its file system.\<close>

lemma file_transfer:
  assumes "serves ops (bind_all env ws m) view live" "msgpack_ok ops" "both_loaded m" "live k"
    and "file_ready env d c p (server_host (view k))" "tmp_usable os q c"
    and "length (content (fst (server_host (view k))) (p @ [c])) \<le> 2 ^ 31"
  shows "\<exists>k' os'. file_call ops file_content [(d, 4), (c, 4)] k os =
       Some (Some (kTmpPath @ c, SUCCESS), k', os') \<and>
     lookup (root os') (q @ [c]) = Some (File (content (fst (server_host (view k))) (p @ [c])))"
proof -
  let ?s = "server_host (view k)"
  let ?t = "content (fst ?s) (p @ [c])"
  have len: "int (length ?t) \<le> 2 ^ 31" using assms(7) by simp
  have "int (length ?t) \<le> int (Suc (length ?t)) * kMaxSizeData" by (simp add: kMaxSizeData_def)
  then have "gather (fetch_piece env d c ?s) (Suc (length ?t)) 0 = Some (Some ?t)"
    using utils_file.gather_rest [OF assms(5) len, of 0 "Suc (length ?t)"] by simp
  from file_call_gathers [OF answers_file_content [OF assms(1,3,5)] assms(2) _ assms(6) this]
  show ?thesis using assms(4) by simp
qed

section \<open>Adapters\<close>

text \<open>The parameters with which an adapter names its endpoint.\<close>

definition adapter_for :: "hmi \<Rightarrow> string \<Rightarrow> int \<Rightarrow> bool" where
  "adapter_for h a p \<longleftrightarrow> is_connected h \<and> connection_parameters h = [(a, 4), (to_string p, 1)] \<and> is_int p"

lemma send_args_adapter:
  "lexical_cast_ok lc \<Longrightarrow> is_int p \<Longrightarrow> send_args lc [(a, 4), (to_string p, 1), (d, 4)] = Some (a, p, d)"
  by (simp add: send_args_def numeral_2_eq_2)

text \<open>What \<open>send\<close> of an adapter does when the broker answers.\<close>

lemma adapter_send:
  assumes "serves ops (bind_all env ws m) view live" "msgpack_ok ops" "both_loaded m" "live k"
    and "lexical_cast_ok (casts env)" "adapter_for h a p"
    and "Send ws a p d (server_broker (view k)) = Some (r, b1)"
  obtains k1 where "content_call ops send_name (connection_parameters h @ [(d, 4)]) k = (Some r, k1)"
    "server_broker (view k1) = b1" "live k1"
proof -
  have ps: "connection_parameters h @ [(d, 4)] = [(a, 4), (to_string p, 1), (d, 4)]"
    using assms(6) by (simp add: adapter_for_def)
  have "on_broker (handle_send (casts env) ws) (view k) [(a, 4), (to_string p, 1), (d, 4)] =
      (Reply r, (view k)\<lparr>server_broker := b1\<rparr>)"
    using assms(5-7) send_args_adapter [of "casts env" p a d]
    by (simp add: on_broker_def handle_send_def checked_def reply_result_def adapter_for_def)
  with serves_call [OF assms(1,2,4) bind_all_handlers(2) [OF assms(3)]] ps that
  show thesis by (metis server.select_convs(2) server.simps(6) server.surjective server.update_convs(2))
qed

text \<open>The same for \<open>receive\<close>, which the listener thread calls.\<close>

lemma adapter_receive:
  assumes "serves ops (bind_all env ws m) view live" "msgpack_ok ops" "both_loaded m" "live k"
    and "lexical_cast_ok (casts env)" "adapter_for h a p"
    and "Receive ws a p (server_broker (view k)) = Some (r, b1)"
  obtains k1 where "content_call ops receive_name (connection_parameters h) k = (Some r, k1)"
    "server_broker (view k1) = b1" "live k1"
proof -
  have "endpoint_args (casts env) [(a, 4), (to_string p, 1)] = Some (a, p)"
    using assms(5,6) by (simp add: endpoint_args_def adapter_for_def)
  then have "on_broker (handle_receive (casts env) ws) (view k) [(a, 4), (to_string p, 1)] =
      (Reply r, (view k)\<lparr>server_broker := b1\<rparr>)"
    using assms(7) by (simp add: on_broker_def handle_receive_def checked_def reply_result_def)
  with serves_call [OF assms(1,2,4) bind_all_handlers(3) [OF assms(3)]] assms(6) that
  show thesis unfolding adapter_for_def
    by (metis server.select_convs(2) server.simps(6) server.surjective server.update_convs(2))
qed

definition wire_server :: "((int \<times> int) list, string list) server" where
  "wire_server = \<lparr>server_host = (example_os, []), server_broker = wire_broker\<rparr>"

definition wire_adapter :: hmi where
  "wire_adapter = (HmiAdapterClient [(''h'', 4), (to_string 1, 1)])\<lparr>is_connected := True\<rparr>"

lemma wire_adapter_for: "adapter_for wire_adapter ''h'' 1"
  by (simp add: adapter_for_def wire_adapter_def HmiAdapterClient_def is_int_def)

lemma example_casts: "lexical_cast_ok (casts example_env)"
  using decimal_cast_ok by (simp add: example_env_def)

end
