(* ===== verification/Conversations.thy ===== *)
theory Conversations
  imports Client_Server "HOL-Library.Multiset"
begin

text \<open>
  Conversations between a script and the peer of a websocket, through adapter, client, server and broker: with calls
  one at a time, and with the script and the listener thread interleaved between a call and its report.
\<close>

section \<open>Conversations\<close>

text \<open>
  A script talks to the peer of a websocket through an adapter: messages of the peer arrive at the broker, the
  script sends, and the listener thread asks for messages, in any order and one at a time. The two lists are
  what the peer and the script have said.
\<close>

inductive conversation ::
  "('c, 'o) rpc_ops \<Rightarrow> ('c \<Rightarrow> ('h, 'w) server) \<Rightarrow> ('c \<Rightarrow> bool) \<Rightarrow> endpoint \<Rightarrow> hmi \<Rightarrow> 'c \<Rightarrow> string list \<Rightarrow> string list \<Rightarrow>
   hmi \<Rightarrow> 'c \<Rightarrow> bool" for ops view live ep h0 k0 where
  talk_start: "conversation ops view live ep h0 k0 [] [] h0 k0"
| talk_peer: "conversation ops view live ep h0 k0 peer script h k \<Longrightarrow> m \<noteq> [] \<Longrightarrow> NUL \<notin> set m \<Longrightarrow> live k' \<Longrightarrow>
    view k' = (view k)\<lparr>server_broker := io_read ep False m (server_broker (view k))\<rparr> \<Longrightarrow>
    conversation ops view live ep h0 k0 (peer @ [m]) script h k'"
| talk_script: "conversation ops view live ep h0 k0 peer script h k \<Longrightarrow> send ops d h k = (r, h', k') \<Longrightarrow>
    conversation ops view live ep h0 k0 peer (script @ [d]) h' k'"
| talk_listener: "conversation ops view live ep h0 k0 peer script h k \<Longrightarrow> listener_tick ops h k = (h', k') \<Longrightarrow>
    conversation ops view live ep h0 k0 peer script h' k'"

text \<open>The texts an adapter has reported to its script.\<close>

definition texts :: "hmi \<Rightarrow> string list" where
  "texts h = List.map_filter (\<lambda>sig. case sig of TextMessageReceived t \<Rightarrow> Some t | _ \<Rightarrow> None) (signals h)"

lemma texts_emit [simp]:
  "texts (emit (TextMessageReceived t) h) = texts h @ [t]" "texts (emit (BytesWritten n) h) = texts h"
  "texts (h\<lparr>listener_running := x\<rparr>) = texts h"
  by (simp_all add: texts_def emit_def map_filter_def)

text \<open>The listener thread of an adapter runs and nobody has asked it to end.\<close>

definition listening :: "hmi \<Rightarrow> bool" where
  "listening h \<longleftrightarrow> listener_running h \<and> \<not> exit_requested h"

lemma listening_emit [simp]: "listening (emit sig h) = listening h"
  by (simp add: listening_def emit_def)

lemma adapter_for_emit [simp]:
  "adapter_for (emit sig h) a p = adapter_for h a p" "adapter_for (h\<lparr>listener_running := x\<rparr>) a p = adapter_for h a p"
  by (simp_all add: adapter_for_def emit_def)

text \<open>What holds at every moment of a conversation.\<close>

definition talk_inv ::
  "'w ws_ops \<Rightarrow> string \<Rightarrow> int \<Rightarrow> endpoint \<Rightarrow> ('w \<Rightarrow> string list) \<Rightarrow> string list \<Rightarrow> string list \<Rightarrow> hmi \<Rightarrow> ('h, 'w) server \<Rightarrow> bool" where
  "talk_inv ws a p ep sent heard said h srv \<longleftrightarrow>
     adapter_for h a p \<and> talking ws a p ep (server_broker srv) \<and> (\<forall>x \<in> set (waiting ep (server_broker srv)). x \<noteq> [] \<and> NUL \<notin> set x) \<and>
     texts h @ waiting ep (server_broker srv) = heard \<and> sent_at sent ep (server_broker srv) = said"

lemma talk_send:
  assumes "serves ops (bind_all env ws m) view live" "msgpack_ok ops" "both_loaded m" "live k"
    and "lexical_cast_ok (casts env)" "stream_ok ws sent" "stream_up ws" "talk_inv ws a p ep sent heard said h (view k)"
    and "send ops d h k = (r, h', k')"
  shows "live k'" "talk_inv ws a p ep sent heard (said @ [d]) h' (view k')" "listening h' = listening h"
proof -
  let ?b = "server_broker (view k)"
  note inv = assms(8) [unfolded talk_inv_def]
  obtain b1 where b1: "Send ws a p d ?b = Some ((case waiting ep ?b of [] \<Rightarrow> [] | x # xs \<Rightarrow> x, SUCCESS), b1)"
      "talking ws a p ep b1" "waiting ep b1 = tl (waiting ep ?b)" "sent_at sent ep b1 = sent_at sent ep ?b @ [d]"
    using talking_send [OF conjunct1 [OF conjunct2 [OF inv]] assms(6,7), of d] by blast
  obtain k1 where k1: "content_call ops send_name (connection_parameters h @ [(d, 4)]) k =
      (Some (case waiting ep ?b of [] \<Rightarrow> [] | x # xs \<Rightarrow> x, SUCCESS), k1)" "server_broker (view k1) = b1" "live k1"
    by (rule adapter_send [OF assms(1-5) conjunct1 [OF inv] b1(1)])
  have "is_connected h" using inv by (simp add: adapter_for_def)
  then have h': "k' = k1" "h' = (case waiting ep ?b of [] \<Rightarrow> emit (BytesWritten (int (length d))) h
      | x # xs \<Rightarrow> emit (TextMessageReceived x) (emit (BytesWritten (int (length d))) h))"
    using assms(9) k1(1) inv by (auto simp: send_def Let_def c_str_id split: list.splits)
  show "live k'" using k1(3) h'(1) by simp
  show "talk_inv ws a p ep sent heard (said @ [d]) h' (view k')"
    unfolding talk_inv_def h' k1(2) using inv b1 by (auto split: list.splits)
  show "listening h' = listening h" by (simp add: h'(2) split: list.splits)
qed

lemma talk_receive:
  assumes "serves ops (bind_all env ws m) view live" "msgpack_ok ops" "both_loaded m" "live k"
    and "lexical_cast_ok (casts env)" "talk_inv ws a p ep sent heard said h (view k)"
    and "listener_tick ops h k = (h', k')"
  shows "live k'" "talk_inv ws a p ep sent heard said h' (view k')"
    "listening h \<Longrightarrow> listening h' \<and> waiting ep (server_broker (view k')) = tl (waiting ep (server_broker (view k)))"
proof -
  let ?b = "server_broker (view k)"
  note inv = assms(6) [unfolded talk_inv_def]
  obtain b1 where b1: "Receive ws a p ?b = Some ((case waiting ep ?b of [] \<Rightarrow> [] | x # xs \<Rightarrow> x, SUCCESS), b1)"
      "talking ws a p ep b1" "waiting ep b1 = tl (waiting ep ?b)" "sent_at sent ep b1 = sent_at sent ep ?b"
    using talking_receive [OF conjunct1 [OF conjunct2 [OF inv]], of sent] by blast
  obtain k1 where k1: "content_call ops receive_name (connection_parameters h) k =
      (Some (case waiting ep ?b of [] \<Rightarrow> [] | x # xs \<Rightarrow> x, SUCCESS), k1)" "server_broker (view k1) = b1" "live k1"
    by (rule adapter_receive [OF assms(1-5) conjunct1 [OF inv] b1(1)])
  have c: "is_connected h" using inv by (simp add: adapter_for_def)
  have rec: "receive ops h k = (Some (case waiting ep ?b of [] \<Rightarrow> [] | x # xs \<Rightarrow> x, SUCCESS),
      (case waiting ep ?b of [] \<Rightarrow> h | x # xs \<Rightarrow> emit (TextMessageReceived x) h), k1)"
    using c k1(1) inv by (auto simp: receive_def Let_def c_str_id split: list.splits)
  consider "h' = h\<lparr>listener_running := False\<rparr>" "k' = k" "\<not> listening h"
    | "h' = (case waiting ep ?b of [] \<Rightarrow> h | x # xs \<Rightarrow> emit (TextMessageReceived x) h)" "k' = k1"
    using assms(7) rec by (auto simp: listener_tick_def listening_def split: if_splits)
  then have "live k' \<and> talk_inv ws a p ep sent heard said h' (view k') \<and>
      (listening h \<longrightarrow> listening h' \<and> waiting ep (server_broker (view k')) = tl (waiting ep ?b))"
  proof cases
    case 1
    with assms(4) inv show ?thesis by (simp add: talk_inv_def)
  next
    case 2
    with k1(2,3) inv b1 show ?thesis unfolding talk_inv_def by (auto split: list.splits)
  qed
  then show "live k'" "talk_inv ws a p ep sent heard said h' (view k')"
    "listening h \<Longrightarrow> listening h' \<and> waiting ep (server_broker (view k')) = tl (waiting ep ?b)" by blast+
qed

lemma conversation_inv:
  assumes "serves ops (bind_all env ws m) view live" "msgpack_ok ops" "both_loaded m" "lexical_cast_ok (casts env)"
    and "stream_ok ws sent" "stream_up ws" "live k" "adapter_for h a p" "talking ws a p ep (server_broker (view k))"
    and "waiting ep (server_broker (view k)) = []" "conversation ops view live ep h k peer script h' k'"
  shows "live k' \<and> talk_inv ws a p ep sent (texts h @ peer) (sent_at sent ep (server_broker (view k)) @ script) h' (view k') \<and>
     (listening h \<longrightarrow> listening h')"
  using assms(11)
proof (induction rule: conversation.induct)
  case talk_start
  with assms(7-10) show ?case by (simp add: talk_inv_def)
next
  case (talk_peer peer script h1 k1 m k2)
  then show ?case
    using talking_read(1,2) [of ws a p ep "server_broker (view k1)" m] talking_read(3) [of ws a p ep "server_broker (view k1)" m sent]
    by (auto simp: talk_inv_def simp flip: append_assoc)
next
  case (talk_script peer script h1 k1 d r h2 k2)
  then show ?case using talk_send [OF assms(1-3) _ assms(4-6) _ talk_script.hyps(2)] by (metis append_assoc)
next
  case (talk_listener peer script h1 k1 h2 k2)
  then show ?case using talk_receive [OF assms(1-3) _ assms(4) _ talk_listener.hyps(2)] by blast
qed


text \<open>Turns of the listener thread, one after the other.\<close>

primrec listener_turns :: "nat \<Rightarrow> ('c, 'o) rpc_ops \<Rightarrow> hmi \<Rightarrow> 'c \<Rightarrow> hmi \<times> 'c" where
  "listener_turns 0 ops h k = (h, k)"
| "listener_turns (Suc n) ops h k = (case listener_tick ops h k of (h', k') \<Rightarrow> listener_turns n ops h' k')"

lemma turns_deliver:
  assumes "serves ops (bind_all env ws m) view live" "msgpack_ok ops" "both_loaded m" "lexical_cast_ok (casts env)"
    and "live k" "talk_inv ws a p ep sent heard said h (view k)" "listening h" "length (waiting ep (server_broker (view k))) \<le> n"
  shows "\<exists>h' k'. listener_turns n ops h k = (h', k') \<and> texts h' = heard \<and> waiting ep (server_broker (view k')) = [] \<and>
     sent_at sent ep (server_broker (view k')) = said"
  using assms(5-8)
proof (induction n arbitrary: h k)
  case 0
  then show ?case by (simp add: talk_inv_def)
next
  case (Suc n)
  obtain h1 k1 where tick: "listener_tick ops h k = (h1, k1)" by fastforce
  note step = talk_receive [OF assms(1-3) Suc.prems(1) assms(4) Suc.prems(2) tick]
  have "length (waiting ep (server_broker (view k1))) \<le> n" using step(3) [OF Suc.prems(3)] Suc.prems(4) by simp
  then show ?case using Suc.IH [OF step(1,2)] step(3) [OF Suc.prems(3)] tick by simp
qed


text \<open>A peer says something, the script answers, and the listener thread runs.\<close>

definition talk_server :: "((int \<times> int) list, string list) server" where
  "talk_server = \<lparr>server_host = (example_os, []), server_broker = \<lparr>
     contexts = [(''h'', 1) \<mapsto> with_session ((WebsocketSession [])\<lparr>reading := True\<rparr>) (fresh_context (''h'', 1))],
     msg_queue = [(''h'', 1) \<mapsto> []] \<rparr>\<rparr>"

lemma talk_server_facts:
  "talking example_wire ''h'' 1 (''h'', 1) (server_broker talk_server)" "waiting (''h'', 1) (server_broker talk_server) = []"
  "sent_at id (''h'', 1) (server_broker talk_server) = []" "stream_up example_wire"
proof -
  have at: "session_at (''h'', 1) (server_broker talk_server) = Some ((WebsocketSession [])\<lparr>reading := True\<rparr>)"
    by (simp add: talk_server_def session_at_def)
  have "broker_inv (server_broker talk_server)"
    by (simp add: talk_server_def broker_inv_def context_ok_def fresh_context_def session_ok_def WebsocketSession_def)
  then show "talking example_wire ''h'' 1 (''h'', 1) (server_broker talk_server)"
    by (rule talkingI [OF wire_facts(1) _ at])
      (simp_all add: IsOpen_def example_wire_def talk_server_def pending_def)
  show "waiting (''h'', 1) (server_broker talk_server) = []" "sent_at id (''h'', 1) (server_broker talk_server) = []"
    by (simp_all add: waiting_def sent_at_def at) (simp_all add: WebsocketSession_def)
qed (simp add: stream_up_def example_wire_def)

lemma wire_adapter_silent: "texts wire_adapter = []"
  by (simp add: texts_def wire_adapter_def HmiAdapterClient_def map_filter_simps)


text \<open>Two messages arrive, one after the other.\<close>

definition pair_server :: "((int \<times> int) list, string list) server" where
  "pair_server = (let read = (\<lambda>m k. k\<lparr>server_broker := io_read (''h'', 1) False m (server_broker k)\<rparr>)
     in read ''again'' (read ''hello'' talk_server))"

lemma pair_server_facts:
  "talking example_wire ''h'' 1 (''h'', 1) (server_broker pair_server)"
  "waiting (''h'', 1) (server_broker pair_server) = [''hello'', ''again'']"
proof -
  note one = talking_read [OF talk_server_facts(1), of "''hello''"]
  note two = talking_read [OF one(1), of "''again''"]
  show "talking example_wire ''h'' 1 (''h'', 1) (server_broker pair_server)"
    using two(1) by (simp add: pair_server_def)
  show "waiting (''h'', 1) (server_broker pair_server) = [''hello'', ''again'']"
    using one(2) two(2) talk_server_facts(2) by (simp add: pair_server_def)
qed

lemma pair_talk:
  "conversation (function_client (dispatch (bind_all example_env example_wire example_manager))) (\<lambda>s. s) (\<lambda>s. True)
     (''h'', 1) h talk_server [''hello'', ''again''] [] h pair_server"
proof -
  let ?talk = "conversation (function_client (dispatch (bind_all example_env example_wire example_manager))) (\<lambda>s. s) (\<lambda>s. True)
     (''h'', 1) h talk_server"
  let ?read = "\<lambda>m k. k\<lparr>server_broker := io_read (''h'', 1) False m (server_broker k)\<rparr>"
  have "?talk ([] @ [''hello'']) [] h (?read ''hello'' talk_server)" by (rule talk_peer [OF talk_start]) simp_all
  then have "?talk (([] @ [''hello'']) @ [''again'']) [] h (?read ''again'' (?read ''hello'' talk_server))"
    by (rule talk_peer) simp_all
  then show ?thesis by (simp add: pair_server_def)
qed


section \<open>Two threads\<close>

text \<open>
  The script and the listener thread each make a call and report its result later; in between the other thread and the
  peer may act. The responses that have come back and are not reported yet are parts of the state, one for each
  thread.
\<close>

inductive interleaved ::
  "('c, 'o) rpc_ops \<Rightarrow> ('c \<Rightarrow> ('h, 'w) server) \<Rightarrow> ('c \<Rightarrow> bool) \<Rightarrow> endpoint \<Rightarrow> hmi \<Rightarrow> 'c \<Rightarrow> string list \<Rightarrow> string list \<Rightarrow>
   (string \<times> response_type) option \<Rightarrow> response_type option \<Rightarrow> hmi \<Rightarrow> 'c \<Rightarrow> bool" for ops view live ep h0 k0 where
  il_start: "interleaved ops view live ep h0 k0 [] [] None None h0 k0"
| il_peer: "interleaved ops view live ep h0 k0 peer script s l h k \<Longrightarrow> m \<noteq> [] \<Longrightarrow> NUL \<notin> set m \<Longrightarrow> live k' \<Longrightarrow>
    view k' = (view k)\<lparr>server_broker := io_read ep False m (server_broker (view k))\<rparr> \<Longrightarrow>
    interleaved ops view live ep h0 k0 (peer @ [m]) script s l h k'"
| il_script_calls: "interleaved ops view live ep h0 k0 peer script None l h k \<Longrightarrow> is_connected h \<Longrightarrow>
    content_call ops send_name (connection_parameters h @ [(d, param_code STRING_T)]) k = (Some r, k') \<Longrightarrow>
    interleaved ops view live ep h0 k0 peer (script @ [d]) (Some (d, r)) l h k'"
| il_script_reports: "interleaved ops view live ep h0 k0 peer script (Some (d, r)) l h k \<Longrightarrow>
    interleaved ops view live ep h0 k0 peer script None l (report_send d r h) k"
| il_listener_calls: "interleaved ops view live ep h0 k0 peer script s None h k \<Longrightarrow> is_connected h \<Longrightarrow>
    content_call ops receive_name (connection_parameters h) k = (Some r, k') \<Longrightarrow>
    interleaved ops view live ep h0 k0 peer script s (Some r) h k'"
| il_listener_reports: "interleaved ops view live ep h0 k0 peer script s (Some r) h k \<Longrightarrow>
    interleaved ops view live ep h0 k0 peer script s None (report_receive r h) k"

text \<open>The text a thread holds.\<close>

definition in_hand :: "response_type option \<Rightarrow> string list" where
  "in_hand r = (case r of None \<Rightarrow> [] | Some (m, code) \<Rightarrow> if m = [] then [] else [m])"

definition good_response :: "response_type option \<Rightarrow> bool" where
  "good_response r \<longleftrightarrow> (case r of None \<Rightarrow> True | Some (m, code) \<Rightarrow> code = SUCCESS \<and> NUL \<notin> set m)"

definition threads_inv ::
  "'w ws_ops \<Rightarrow> string \<Rightarrow> int \<Rightarrow> endpoint \<Rightarrow> ('w \<Rightarrow> string list) \<Rightarrow> string multiset \<Rightarrow> string list \<Rightarrow>
   (string \<times> response_type) option \<Rightarrow> response_type option \<Rightarrow> hmi \<Rightarrow> ('h, 'w) server \<Rightarrow> bool" where
  "threads_inv ws a p ep sent heard said s l h srv \<longleftrightarrow>
     adapter_for h a p \<and> talking ws a p ep (server_broker srv) \<and> (\<forall>x \<in> set (waiting ep (server_broker srv)). x \<noteq> [] \<and> NUL \<notin> set x) \<and>
     good_response (map_option snd s) \<and> good_response l \<and>
     mset (texts h) + mset (in_hand (map_option snd s)) + mset (in_hand l) + mset (waiting ep (server_broker srv)) = heard \<and>
     sent_at sent ep (server_broker srv) = said"

lemma report_texts:
  assumes "good_response (Some r)"
  shows "adapter_for (report_send d r h) a p = adapter_for h a p" "adapter_for (report_receive r h) a p = adapter_for h a p"
    "texts (report_send d r h) = texts h @ in_hand (Some r)" "texts (report_receive r h) = texts h @ in_hand (Some r)"
  using assms
  by (cases r; simp add: report_send_def report_receive_def good_response_def in_hand_def c_str_id Let_def)+

text \<open>A message taken from the queue is in hand.\<close>

lemma taken_in_hand:
  assumes "\<forall>x \<in> set q. x \<noteq> [] \<and> NUL \<notin> set x"
  shows "good_response (Some (case q of [] \<Rightarrow> [] | x # xs \<Rightarrow> x, SUCCESS))"
    "mset (in_hand (Some (case q of [] \<Rightarrow> [] | x # xs \<Rightarrow> x, SUCCESS))) + mset (tl q) = mset q"
    "\<forall>x \<in> set (tl q). x \<noteq> [] \<and> NUL \<notin> set x"
  using assms by (cases q; simp add: good_response_def in_hand_def)+

lemma nothing_in_hand [simp]: "in_hand None = []" "good_response None"
  by (simp_all add: in_hand_def good_response_def)

text \<open>Whichever thread takes the first message, the account stays the same.\<close>

lemma threads_take:
  fixes srv srv' :: "('h, 'w) server" and ep :: endpoint
  defines "r \<equiv> (case waiting ep (server_broker srv) of [] \<Rightarrow> [] | x # xs \<Rightarrow> x, SUCCESS)"
  assumes inv: "threads_inv ws a p ep sent heard said s l h srv" and tk: "talking ws a p ep (server_broker srv')"
    and w: "waiting ep (server_broker srv') = tl (waiting ep (server_broker srv))" and said': "sent_at sent ep (server_broker srv') = said'"
  shows "s = None \<Longrightarrow> threads_inv ws a p ep sent heard said' (Some (d, r)) l h srv'"
    and "l = None \<Longrightarrow> threads_inv ws a p ep sent heard said' s (Some r) h srv'"
proof -
  let ?q = "waiting ep (server_broker srv)"
  have ok: "\<forall>x \<in> set ?q. x \<noteq> [] \<and> NUL \<notin> set x" and sum: "mset (texts h) + mset (in_hand (map_option snd s)) + mset (in_hand l) + mset ?q = heard"
    and ad: "adapter_for h a p" and g: "good_response (map_option snd s)" "good_response l"
    using inv unfolding threads_inv_def by blast+
  have t: "good_response (Some r)" "mset ?q = mset (in_hand (Some r)) + mset (tl ?q)" "\<forall>x \<in> set (tl ?q). x \<noteq> [] \<and> NUL \<notin> set x"
    using taken_in_hand [OF ok] by (simp_all only: r_def)
  show "threads_inv ws a p ep sent heard said' (Some (d, r)) l h srv'" if "s = None"
    using ad g t(1,3) tk said' sum that unfolding threads_inv_def w t(2) by (simp add: ac_simps)
  show "threads_inv ws a p ep sent heard said' s (Some r) h srv'" if "l = None"
    using ad g t(1,3) tk said' sum that unfolding threads_inv_def w t(2) by (simp add: ac_simps)
qed

lemma threads_call:
  assumes "serves ops (bind_all env ws m) view live" "msgpack_ok ops" "both_loaded m" "live k"
    and "lexical_cast_ok (casts env)" "stream_ok ws sent" "stream_up ws" "threads_inv ws a p ep sent heard said s l h (view k)"
  shows "content_call ops send_name (connection_parameters h @ [(d, param_code STRING_T)]) k = (Some r, k') \<Longrightarrow> s = None \<Longrightarrow>
      live k' \<and> threads_inv ws a p ep sent heard (said @ [d]) (Some (d, r)) l h (view k')"
    and "content_call ops receive_name (connection_parameters h) k = (Some r, k') \<Longrightarrow> l = None \<Longrightarrow>
      live k' \<and> threads_inv ws a p ep sent heard said s (Some r) h (view k')"
proof -
  let ?b = "server_broker (view k)"
  let ?r = "(case waiting ep ?b of [] \<Rightarrow> [] | x # xs \<Rightarrow> x, SUCCESS)"
  note inv = assms(8) [unfolded threads_inv_def]
  note ad = conjunct1 [OF inv] and tk = conjunct1 [OF conjunct2 [OF inv]]
  have sa: "sent_at sent ep ?b = said" using inv by (simp only:)
  show "live k' \<and> threads_inv ws a p ep sent heard (said @ [d]) (Some (d, r)) l h (view k')"
    if call: "content_call ops send_name (connection_parameters h @ [(d, param_code STRING_T)]) k = (Some r, k')" "s = None"
  proof -
    obtain b1 where b1: "Send ws a p d ?b = Some (?r, b1)" "talking ws a p ep b1" "waiting ep b1 = tl (waiting ep ?b)"
        "sent_at sent ep b1 = sent_at sent ep ?b @ [d]"
      using talking_send [OF tk assms(6,7), of d] by blast
    obtain k1 where k1: "content_call ops send_name (connection_parameters h @ [(d, 4)]) k = (Some ?r, k1)"
        "server_broker (view k1) = b1" "live k1"
      by (rule adapter_send [OF assms(1-5) ad b1(1)])
    have "r = ?r" "k' = k1" using call(1) k1(1) by simp_all
    then show ?thesis
      using k1(3) threads_take(1) [OF assms(8), of "view k1"] b1(2-4) call(2) sa by (simp add: k1(2))
  qed
  show "live k' \<and> threads_inv ws a p ep sent heard said s (Some r) h (view k')"
    if call: "content_call ops receive_name (connection_parameters h) k = (Some r, k')" "l = None"
  proof -
    obtain b1 where b1: "Receive ws a p ?b = Some (?r, b1)" "talking ws a p ep b1" "waiting ep b1 = tl (waiting ep ?b)"
        "sent_at sent ep b1 = sent_at sent ep ?b"
      using talking_receive [OF tk, of sent] by blast
    obtain k1 where k1: "content_call ops receive_name (connection_parameters h) k = (Some ?r, k1)"
        "server_broker (view k1) = b1" "live k1"
      by (rule adapter_receive [OF assms(1-5) ad b1(1)])
    have "r = ?r" "k' = k1" using call(1) k1(1) by simp_all
    then show ?thesis
      using k1(3) threads_take(2) [OF assms(8), of "view k1"] b1(2-4) call(2) sa by (simp add: k1(2))
  qed
qed

lemma threads_report:
  "threads_inv ws a p ep sent heard said (Some (d, r)) l h srv \<Longrightarrow> threads_inv ws a p ep sent heard said None l (report_send d r h) srv"
  "threads_inv ws a p ep sent heard said s (Some r) h srv \<Longrightarrow> threads_inv ws a p ep sent heard said s None (report_receive r h) srv"
  by (simp_all add: threads_inv_def report_texts ac_simps)


text \<open>The listener's call and then the script's return, and the reports come in the opposite order.\<close>

lemma interleaved_inverted:
  assumes "serves ops (bind_all env ws m) view live" "msgpack_ok ops" "both_loaded m" "live k" "lexical_cast_ok (casts env)"
    and "stream_ok ws sent" "stream_up ws" "adapter_for h a p" "talking ws a p ep (server_broker (view k))"
    and q: "waiting ep (server_broker (view k)) = [x, y]" and fine: "x \<noteq> []" "NUL \<notin> set x" "y \<noteq> []" "NUL \<notin> set y"
    and run: "interleaved ops view live ep h0 k0 peer script None None h k"
  obtains k' where "texts (report_receive (x, SUCCESS) (report_send d (y, SUCCESS) h)) = texts h @ [y, x]" "live k'"
    "interleaved ops view live ep h0 k0 peer (script @ [d]) None None (report_receive (x, SUCCESS) (report_send d (y, SUCCESS) h)) k'"
proof -
  obtain b1 where b1: "Receive ws a p (server_broker (view k)) = Some ((x, SUCCESS), b1)" "talking ws a p ep b1" "waiting ep b1 = [y]"
    using talking_receive [OF assms(9), of sent] q by auto
  obtain k1 where k1: "content_call ops receive_name (connection_parameters h) k = (Some (x, SUCCESS), k1)"
      "server_broker (view k1) = b1" "live k1"
    by (rule adapter_receive [OF assms(1-5,8) b1(1)])
  obtain b2 where b2: "Send ws a p d (server_broker (view k1)) = Some ((y, SUCCESS), b2)"
    using talking_send [OF b1(2) assms(6,7), of d] b1(3) k1(2) by auto
  obtain k2 where k2: "content_call ops send_name (connection_parameters h @ [(d, 4)]) k1 = (Some (y, SUCCESS), k2)" "live k2"
    by (rule adapter_send [OF assms(1-3) k1(3) assms(5,8) b2])
  have c: "is_connected h" using assms(8) by (simp add: adapter_for_def)
  have "interleaved ops view live ep h0 k0 peer (script @ [d]) (Some (d, (y, SUCCESS))) (Some (x, SUCCESS)) h k2"
    by (rule il_script_calls [OF il_listener_calls [OF run c k1(1)] c]) (use k2 in simp)
  then have "interleaved ops view live ep h0 k0 peer (script @ [d]) None None (report_receive (x, SUCCESS) (report_send d (y, SUCCESS) h)) k2"
    by (rule il_listener_reports [OF il_script_reports])
  moreover have "texts (report_receive (x, SUCCESS) (report_send d (y, SUCCESS) h)) = texts h @ [y, x]"
    using fine by (simp add: report_texts good_response_def in_hand_def)
  ultimately show ?thesis using that k2(2) by blast
qed

text \<open>The order is not kept between the two threads: when two messages wait, the listener's call may fetch the
  first, the script's call the second, and the script's report come first, so that the signals are emitted in the
  opposite order.\<close>

theorem interleaved_order_lost:
  assumes "serves ops (bind_all env ws m) view live" "msgpack_ok ops" "both_loaded m" "live k" "lexical_cast_ok (casts env)"
    and "stream_ok ws sent" "stream_up ws" "adapter_for h a p" "talking ws a p ep (server_broker (view k))"
    and "waiting ep (server_broker (view k)) = [x, y]" "x \<noteq> []" "NUL \<notin> set x" "y \<noteq> []" "NUL \<notin> set y"
  shows "\<exists>h' k'. interleaved ops view live ep h k [] [d] None None h' k' \<and> texts h' = texts h @ [y, x]"
  using interleaved_inverted [OF assms il_start, of d] by (metis append_Nil)

lemma pair_run:
  "interleaved (function_client (dispatch (bind_all example_env example_wire example_manager))) (\<lambda>s. s) (\<lambda>s. True)
     (''h'', 1) wire_adapter talk_server [''hello'', ''again''] [] None None wire_adapter pair_server"
proof -
  let ?il = "interleaved (function_client (dispatch (bind_all example_env example_wire example_manager))) (\<lambda>s. s) (\<lambda>s. True)
     (''h'', 1) wire_adapter talk_server"
  let ?read = "\<lambda>m k. k\<lparr>server_broker := io_read (''h'', 1) False m (server_broker k)\<rparr>"
  have "?il ([] @ [''hello'']) [] None None wire_adapter (?read ''hello'' talk_server)"
    by (rule il_peer [OF il_start]) simp_all
  then have "?il (([] @ [''hello'']) @ [''again'']) [] None None wire_adapter (?read ''again'' (?read ''hello'' talk_server))"
    by (rule il_peer) simp_all
  then show ?thesis by (simp add: pair_server_def)
qed


theorem interleaved_order_lost_witness:
  "\<exists>h' k'. interleaved (function_client (dispatch (bind_all example_env example_wire example_manager))) (\<lambda>s. s) (\<lambda>s. True)
       (''h'', 1) wire_adapter pair_server [] [''cmd''] None None h' k' \<and> texts h' = [''again'', ''hello'']"
  using interleaved_order_lost [OF dispatch_serves function_client_ok example_both TrueI example_casts wire_facts(3) talk_server_facts(4)
      wire_adapter_for pair_server_facts(1,2), of "''cmd''"] wire_adapter_silent by simp

end
