(* ===== verification/Spec2Isabelle.thy ===== *)
theory Spec2Isabelle
  imports Qt_Objects Lua_Interpreter Lua_Remote Broker_Spec Conversations
begin

text \<open>
  This development models the Automated Test Framework: its remote adapter, and its Lua interpreter with the
  bindings of Qt, OpenSSL and libxml2 objects. It proves their main properties.

  \<^bold>\<open>The program.\<close> The framework runs Lua scripts against a system under test. When that system is on
  another machine, a server (\<open>src/src/remote_adapter/remote_adapter_server\<close>) runs there and offers remote
  procedures through the library rpclib: \<open>main.cc\<close> chooses a port, loads plugins and binds their
  procedures; the utilities plugin (\<open>plugins/utils\<close>) works on files, folders, commands and applications;
  the transport plugin (\<open>plugins/transport\<close>) keeps websocket connections to the system under test. The
  client (\<open>remote_adapter_client\<close>) is a library for the scripts: \<open>RemoteClient\<close> makes calls and fetches
  files, \<open>HmiAdapterClient\<close> is a connection with signals. Requests are lists of pairs of a text and a type
  code, responses pairs of a text and a result code. The scripts themselves run in an interpreter
  (\<open>src/src\<close>): \<open>main.cc\<close> and \<open>lua_interpreter.cc\<close> start it, \<open>network.cc\<close>, \<open>timers.cc\<close>, \<open>qdatetime.cc\<close>,
  \<open>luaopenssl/lua_openssl.cc\<close> and \<open>luaxml/lua_xml.cc\<close> give scripts objects of libraries behind userdata. Qt objects
  get signals and slots at run time: \<open>qtlua.cc\<close> connects and emits them,
  \<open>qtdynamic.cc\<close> numbers them for Qt, \<open>marshal.cc\<close> converts their arguments.

  \<^bold>\<open>The theories.\<close>
  \<^item> \<open>Prelude\<close>: C++ integers with their conversions, C strings, decimal text, splitting; the contract of
    a queue as the locale \<open>fifo\<close>, and of a system that refines its specification as the locale \<open>refinement\<close>.
  \<^item> \<open>Common\<close>: \<open>common/constants.h\<close>, \<open>common/custom_types.h\<close>, the decoding of parameters (\<open>GetValue\<close>,
    \<open>IsAllValid\<close>), the opening every functor has (\<open>checked\<close>); the contract of a request handler (locale
    \<open>request_handler\<close>) and of a procedure that delivers a file in pieces (locale \<open>chunk_source\<close>, with \<open>gather\<close>
    as the abstract client).
  \<^item> \<open>Posix_FS\<close>: the file system the sources see through the C library: a tree, a working directory, path
    resolution, and arbitrary refusals by the system.
  \<^item> \<open>Utils_Files\<close>: the file, folder and command operations of \<open>utils_manager.cc\<close>, one definition per
    method.
  \<^item> \<open>Utils_Apps\<close>: its application control (start, stop, status, the monitor thread), for systems other
    than QNX.
  \<^item> \<open>Utils_Rpc\<close>: the thirteen functors of \<open>UtilsManager::Bind\<close>, each an interpretation of
    \<open>request_handler\<close>; \<open>file_content\<close> is an interpretation of \<open>chunk_source\<close>.
  \<^item> \<open>Message_Broker\<close>: \<open>message_broker.cpp\<close>: sessions, listeners, the broker and its four functors; the I/O
    threads as steps of \<open>broker_step\<close>; the session's queue and the broker's endpoint are interpretations
    of \<open>fifo\<close>.
  \<^item> \<open>Broker_Spec\<close>: the specification of the broker, mailboxes with an inbox, an outbox and a wire, and the
    broker as an interpretation of \<open>refinement\<close>.
  \<^item> \<open>Remote_Client\<close>: \<open>rpc_connection_impl.cc\<close> and \<open>remote_client.cc\<close>, and the argument passing of the Lua
    wrapper.
  \<^item> \<open>Hmi_Adapter\<close>: \<open>hmi_adapter_client.cc\<close>: flags, signals, listener thread; runs as \<open>hmi_step\<close>.
  \<^item> \<open>Plugin_Manager\<close>: \<open>remote_adapter_plugin_manager.cc\<close> and the choice of the port in \<open>main.cc\<close>.
  \<^item> \<open>Adapter_Server\<close>: the dispatch table \<open>main.cc\<close> builds from the loaded plugins, and \<open>main\<close> with all its exits.
  \<^item> \<open>Marshal\<close>: \<open>marshal.cc\<close>: the marshallers, an interpretation of the locale \<open>codec\<close>, and the parser of
    signatures.
  \<^item> \<open>Qt_Dynamic\<close>: \<open>qtdynamic.cc\<close> and the functions \<open>connect\<close> and emit of \<open>qtlua.cc\<close>; the tables of signals and
    slots are interpretations of the locale \<open>id_table\<close>; scripts as \<open>lua_reachable\<close>.
  \<^item> \<open>Qt_Objects\<close>: the life of dynamic objects: the module of \<open>qtlua.cc\<close> with its userdata, metatables, registry and
    collection over an explicit heap of tables; scripts as \<open>qt_reaches\<close>, simulated by \<open>lua_reachable\<close>.
  \<^item> \<open>Lua_Runtime\<close>: what C++ functions see of Lua (values, stack, userdata, conversions); scripts as
    \<open>script_step\<close>: any calls with any arguments, errors, collections, and changes by the libraries; the contract of
    bindings that keep an invariant as the locale \<open>bindings\<close>, and of bindings whose finalizers are safe from the
    youngest userdata on as the locale \<open>closing\<close>; classes and ownership of userdata with one proof rule per operation.
  \<^item> \<open>Lua_Timers\<close>, \<open>Lua_Network\<close>, \<open>Lua_OpenSSL\<close>, \<open>Lua_XML\<close>: the bindings, one definition per C++ function, and what each
    library promises (\<open>timer_api_ok\<close>, \<open>network_api_ok\<close>, \<open>ssl_api_ok\<close>, \<open>xml_api_ok\<close>).
  \<^item> \<open>Lua_Interpreter\<close>: \<open>lua_interpreter.cc\<close> and \<open>main.cc\<close>, and all bindings together as an interpretation of
    \<open>bindings\<close> and of \<open>closing\<close>.
  \<^item> \<open>Lua_Remote\<close>: the module \<open>remote\<close>, \<open>lua_remote_library.cc\<close> and the wrappers of clients and adapters, over
    \<open>Remote_Client\<close> and \<open>Hmi_Adapter\<close>; scripts together with the listener threads as an interpretation of \<open>bindings\<close>
    and of \<open>closing\<close>.
  \<^item> \<open>Client_Server\<close>: client, server, broker and file system together: what \<open>serves\<close> means, a call of the client carried
    to the functor and back, the transfer of a file, and the two calls of an adapter.
  \<^item> \<open>Conversations\<close>: a script and a peer that talk through an adapter: with one call at a time (\<open>conversation\<close>), and with
    the script and the listener thread interleaved between a call and its signals (\<open>interleaved\<close>).
  \<^item> this theory: the properties of client and server together.

  \<^bold>\<open>State and effects.\<close> Members of classes are fields of records, without the final underscore. An
  operation takes the state and returns it updated. Undefined behaviour and exceptions are values
  (\<open>None\<close>, \<open>Undefined\<close>, \<open>Thrown\<close>), error codes are the constants of the sources. Integers are HOL integers
  with every narrowing conversion written out (\<open>to_int\<close>, \<open>to_ushort\<close>, \<open>to_ulong\<close>). Code outside the sources is
  a parameter: the process services, the shell, the allocator, Boost's casts, streams and addresses,
  rpclib and msgpack, the dynamic loader, the Lua C API, Qt, OpenSSL and libxml2. What a theorem needs of them is a named hypothesis
  (\<open>lexical_cast_ok\<close>, \<open>malloc_ok\<close>, \<open>stream_ok\<close>, \<open>stream_up\<close>, \<open>msgpack_ok\<close>, \<open>serves\<close>, \<open>creates\<close>, \<open>shell_wf\<close>, \<open>lua_ok\<close>, \<open>qt_ok\<close>,
  \<open>stream_laws\<close>, \<open>apis_ok\<close>, \<open>attempts_take_time\<close>, \<open>memory_bio\<close>, \<open>context_laws\<close>, \<open>frees_attached\<close>, \<open>frees_tree\<close>, \<open>documents_apart\<close>), and every theorem
  with hypotheses has a closed instance.

  \<^bold>\<open>What is shown.\<close> Files: backup, update and restore are a round trip; a folder is removed exactly; a
  piece of a file is the right slice; command output is complete. Applications: the processes found are
  exact; stopping reaches each; starting leaves the working directory. Requests: malformed ones are
  refused without effect by every procedure. Broker: an invariant of all interleavings, order and
  completeness of received messages, no loss when flushing, isolation of endpoints, and refinement of the
  mailboxes. Client: every
  outcome of a call; a file transfer delivers every file up to 2 GiB byte for byte and ends. Adapter:
  consistent signals. Conversations: what a script and a peer say through an adapter arrives completely and in
  order, and what waits is reported by the next turns of the listener thread; with the two threads interleaved nothing is lost or doubled, but the order of two messages may change. Server: the plugins loaded are exact and their procedures distinct; it serves the port asked for, or ends
  with every library closed. Dynamic objects:
  numbers of signals and slots are sound, signatures are parsed, and the values of an emitted signal
  arrive unchanged at the connected slot; scripts that create, connect, assign and collect objects refine this, no
  object is lost or deleted twice, and fields of objects are separate. Bindings: in every state any script reaches, userdata point to objects of
  their class, the objects with an owner are alive and have no other owner, and closing the interpreter finalizes all of them safely; buffers are byte streams; a
  context verifies its peers as asked; connecting ends; error texts stay in their buffer; the children of a node
  are complete and in order; the methods of remote clients and adapters find their objects,
  and closing the interpreter destroys each of them once; a script that calls \<open>file_call\<close> finds the server's file in its
  temporary directory; the exit code is what the script asked for. Several theorems state
  behaviour the code has and should not have: restoring without a backup, reading past the end of a
  file, files over 2 GiB, messages overtaken or lost, adapters that cannot reconnect, objects that are used or
  deleted after another object has freed them, a broker that cannot be destroyed while it is connected.

  \<^bold>\<open>Bounds.\<close> \<open>FolderDelete\<close> recurses with fuel; the handler gives it one more than the height of the tree,
  and \<open>folder_delete_terminates\<close> shows that this always suffices. The transfer loop is a partial function;
  \<open>file_transfer_exact\<close> shows that it ends, by comparing it with \<open>gather\<close>, whose fuel may be any number above
  the number of pieces. The loops that wait for a connection and that walk along the nodes of a document are
  partial functions; that they end is shown from a clock (\<open>tcp_connect_returns\<close>) and for finite chains
  (\<open>node_children_exact\<close>). Other loops are structural or have a termination proof.

  \<^bold>\<open>What is not modelled.\<close> Symbolic links, and failures of reads and writes on open files; the
  branches for QNX; logging; the timing of threads (remote procedures run
  on one worker thread, completions on the threads of a context, and steps are atomic except where a
  theorem splits them). NaN and the infinities of Lua numbers; scripts that use \<open>debug.setmetatable\<close> to give a
  userdata the metatable of another, and scripts that take a metatable and change it or call the finalizer in it
  themselves; the handler of \<open>SIGABRT\<close> and what is printed. Of the rest of the repository: the scripts.
\<close>

section \<open>Properties\<close>

text \<open>C1: a file fetched from the server arrives byte for byte: for every file of at most 2 GiB that the
  server can read, \<open>file_call\<close> ends, answers with the name \<open>/tmp/<file>\<close> and \<open>SUCCESS\<close>, and the file of
  that name then holds exactly the server's bytes, however many pieces the transfer took and whatever
  an earlier transfer had left there.\<close>

theorem file_transfer_exact:
  assumes "serves ops (bind_all env ws m) view live" "msgpack_ok ops" "both_loaded m" "live k"
    and "file_ready env d c p (server_host (view k))" "tmp_usable os q c"
    and "length (content (fst (server_host (view k))) (p @ [c])) \<le> 2 ^ 31"
  shows "\<exists>k' os'. file_call ops file_content [(d, 4), (c, 4)] k os =
       Some (Some (kTmpPath @ c, SUCCESS), k', os') \<and>
     lookup (root os') (q @ [c]) = Some (File (content (fst (server_host (view k))) (p @ [c])))"
  using assms by (rule file_transfer)

theorem file_transfer_exact_witness:
  "\<exists>k' os'. file_call (function_client (dispatch example_table)) file_content [(''/home'', 4), (''a.txt'', 4)]
       example_server example_os = Some (Some (''/tmp/a.txt'', SUCCESS), k', os') \<and>
     lookup (root os') [''tmp'', ''a.txt''] = Some (File ''hello'')"
  using file_transfer_exact [OF dispatch_serves function_client_ok example_both _ example_file_ready example_tmp]
  by (simp add: example_server_def content_def kTmpPath_def)


definition script_env :: "(((int \<times> int) list, bool \<times> string list) server, response_type) remote_env" where
  "script_env = \<lparr>rpc = function_client (dispatch example_table), rpc_connect = (\<lambda>ip port. Some example_server),
     threads_start = (\<lambda>w. True), text_number = (\<lambda>s. None), number_text = (\<lambda>x. ''0'')\<rparr>"

definition script_state :: "((int \<times> int) list, bool \<times> string list) server remote_world lua" where
  "script_state = \<lparr>stack = [], userdata = [0 \<mapsto> (Some client_mt, RemoteClient_class, 1)], next_userdata = 1,
     world = \<lparr>clients = [(1, example_server)], adapters = [], client_files = example_os\<rparr>\<rparr>"


text \<open>C40: a file of more than 2 GiB cannot be fetched: the offset of the next piece is a \<open>long\<close> on the
  server but an \<open>int\<close> in the response, it turns negative after 2 GiB, and the client gives up with
  \<open>FAILED\<close> and removes what it had.\<close>

theorem file_transfer_fails_past_2_GiB:
  assumes "serves ops (bind_all env ws m) view live" "msgpack_ok ops" "both_loaded m" "live k"
    and "file_ready env d c p (server_host (view k))" "tmp_usable os q c"
    and "length (content (fst (server_host (view k))) (p @ [c])) > 2 ^ 31"
  shows "\<exists>k' os'. file_call ops file_content [(d, 4), (c, 4)] k os = Some (Some ([], FAILED), k', os') \<and>
     lookup (root os') (q @ [c]) = None"
proof -
  let ?s = "server_host (view k)"
  let ?t = "content (fst ?s) (p @ [c])"
  have len: "int (length ?t) > 2 ^ 31" using assms(7) by simp
  have "gather (fetch_piece env d c ?s) 2048 0 = Some None"
    using utils_file.gather_too_big [OF assms(5) len, of 0 2048] by (simp add: kMaxSizeData_def)
  moreover have "snd (fetch_piece env d c ?s 0) > 0"
    using utils_file.piece [OF assms(5), of 0] len
    by (simp add: kMaxSizeData_def to_int_id is_int_def)
  ultimately show ?thesis
    using file_call_gives_up [OF answers_file_content [OF assms(1,3,5)] assms(2) _ assms(6)] assms(4) by simp
qed

text \<open>A file one byte too long, for a closed example.\<close>

definition big_text :: string where "big_text = replicate (2 ^ 31 + 1) (CHR ''x'')"

definition big_server :: "((int \<times> int) list, bool \<times> string list) server" where
  "big_server = \<lparr>server_host =
     (\<lparr>root = Dir [(''home'', Dir [(''big'', File big_text)])], cwd = [], refuses = (\<lambda>k p. False)\<rparr>, []),
     server_broker = example_broker\<rparr>"

lemma length_big_text: "length big_text = 2 ^ 31 + 1"
  by (simp add: big_text_def)

lemma big_file_ready: "file_ready example_env ''/home'' ''big'' [''home''] (server_host big_server)"
  using decimal_cast_ok length_big_text
  by (simp add: file_ready_def example_env_def big_server_def malloc_ok_def good_name_def content_def
      names_dir_def resolve_def c_str_def)

theorem file_transfer_fails_past_2_GiB_witness:
  "\<exists>k' os'. file_call (function_client (dispatch example_table)) file_content [(''/home'', 4), (''big'', 4)]
       big_server example_os = Some (Some ([], FAILED), k', os') \<and>
     lookup (root os') [''tmp'', ''big''] = None"
proof -
  have t: "tmp_usable example_os [''tmp''] ''big''"
    by (simp add: tmp_usable_def names_dir_def kTmpPath_def resolve_def c_str_def good_name_def)
  have l: "length (content (fst (server_host big_server)) ([''home''] @ [''big''])) > 2 ^ 31"
    using length_big_text by (simp add: big_server_def content_def)
  from file_transfer_fails_past_2_GiB [OF dispatch_serves function_client_ok example_both _ big_file_ready t l,
      where ws = example_ws]
  show ?thesis by simp
qed

text \<open>What a script sends through an adapter reaches the wire: on an open connection whose writes
  succeed, \<open>send\<close> answers \<open>SUCCESS\<close>, the message is the last one on the wire of its endpoint,
  \<open>bytesWritten\<close> reports its length, and the oldest waiting message of the peer, if there is one, is taken
  from the broker and reported in the same call.\<close>

theorem adapter_send_reaches_wire:
  assumes "serves ops (bind_all env ws m) view live" "msgpack_ok ops" "both_loaded m" "live k"
    and "lexical_cast_ok (casts env)" "adapter_for h a p" "MakeEndpoint ws a p = Some ep"
    and "open_at ws ep (server_broker (view k))" "stream_ok ws sent" "\<forall>d w. fst (ws_write ws d w)"
    and "\<forall>x \<in> set (waiting ep (server_broker (view k))). x \<noteq> [] \<and> NUL \<notin> set x"
  shows "\<exists>h' k'. send ops d h k = (Some SUCCESS, h', k') \<and>
     sent_at sent ep (server_broker (view k')) = sent_at sent ep (server_broker (view k)) @ [d] \<and>
     waiting ep (server_broker (view k')) = tl (waiting ep (server_broker (view k))) \<and>
     signals h' = signals h @ BytesWritten (int (length d)) #
       map TextMessageReceived (take 1 (waiting ep (server_broker (view k))))"
proof -
  let ?b = "server_broker (view k)"
  obtain b1 where b1: "Send ws a p d ?b = Some ((case waiting ep ?b of [] \<Rightarrow> [] | x # xs \<Rightarrow> x, SUCCESS), b1)"
      "sent_at sent ep b1 = sent_at sent ep ?b @ [d]" "waiting ep b1 = tl (waiting ep ?b)"
    by (rule Send_open_effect [OF assms(7-9), of d]) (simp add: assms(10))
  obtain k1 where k1: "content_call ops send_name (connection_parameters h @ [(d, 4)]) k =
      (Some (case waiting ep ?b of [] \<Rightarrow> [] | x # xs \<Rightarrow> x, SUCCESS), k1)" "server_broker (view k1) = b1"
    using adapter_send [OF assms(1-6) b1(1)] by metis
  have "is_connected h" using assms(6) by (simp add: adapter_for_def)
  with k1 b1 assms(11) show ?thesis
    by (cases "waiting ep ?b") (auto simp: hmi_defs c_str_id)
qed

theorem adapter_send_reaches_wire_witness:
  "\<exists>h' k'. send (function_client (dispatch (bind_all example_env example_wire example_manager))) ''cmd'' wire_adapter
       wire_server = (Some SUCCESS, h', k') \<and>
     sent_at id (''h'', 1) (server_broker k') = [''cmd''] \<and>
     signals h' = [BytesWritten 3, TextMessageReceived ''peer'']"
proof -
  have o: "open_at example_wire (''h'', 1) (server_broker wire_server)" "\<forall>d w. fst (ws_write example_wire d w)"
    using wire_facts(2) by (simp_all add: wire_server_def example_wire_def)
  from adapter_send_reaches_wire [OF dispatch_serves function_client_ok example_both _ example_casts
      wire_adapter_for wire_facts(1) o(1) wire_facts(3) o(2), of "''cmd''"] wire_facts(4,6)
  show ?thesis by (simp add: wire_server_def wire_adapter_def HmiAdapterClient_def) blast
qed

text \<open>A received message is lost when a write fails: \<open>Send\<close> takes the oldest waiting message out of
  the session's queue although the write failed, and the adapter looks at the message only when the
  code is \<open>SUCCESS\<close>, so it is reported to nobody.\<close>

theorem message_lost_on_write_failure:
  assumes "serves ops (bind_all env ws m) view live" "msgpack_ok ops" "both_loaded m" "live k"
    and "lexical_cast_ok (casts env)" "adapter_for h a p" "MakeEndpoint ws a p = Some ep"
    and "open_at ws ep (server_broker (view k))" "stream_ok ws sent" "\<forall>d w. \<not> fst (ws_write ws d w)"
    and "waiting ep (server_broker (view k)) = x # xs"
  shows "\<exists>k'. send ops d h k = (Some WRITE_FAILURE, h, k') \<and> waiting ep (server_broker (view k')) = xs"
proof -
  let ?b = "server_broker (view k)"
  obtain b1 where b1: "Send ws a p d ?b = Some ((x, WRITE_FAILURE), b1)" "waiting ep b1 = xs"
    by (rule Send_open_effect [OF assms(7-9), of d]) (simp add: assms(10,11))
  obtain k1 where k1: "content_call ops send_name (connection_parameters h @ [(d, 4)]) k =
      (Some (x, WRITE_FAILURE), k1)" "server_broker (view k1) = b1"
    using adapter_send [OF assms(1-6) b1(1)] by metis
  have "is_connected h" using assms(6) by (simp add: adapter_for_def)
  with k1 b1 show ?thesis by (simp add: hmi_defs)
qed

theorem message_lost_on_write_failure_witness:
  "\<exists>k'. send (function_client (dispatch (bind_all example_env (example_wire\<lparr>ws_write := \<lambda>d w. (False, w)\<rparr>) example_manager)))
       ''cmd'' wire_adapter wire_server = (Some WRITE_FAILURE, wire_adapter, k') \<and>
     waiting (''h'', 1) (server_broker k') = []"
proof -
  let ?ws = "example_wire\<lparr>ws_write := \<lambda>d w. (False, w)\<rparr>"
  have f: "MakeEndpoint ?ws ''h'' 1 = Some (''h'', 1)" "open_at ?ws (''h'', 1) (server_broker wire_server)"
    "stream_ok ?ws id" "\<forall>d w. \<not> fst (ws_write ?ws d w)"
    "waiting (''h'', 1) (server_broker wire_server) = ''peer'' # []"
    using wire_facts by (simp_all add: MakeEndpoint_def open_at_def IsOpen_def stream_ok_def wire_server_def
        split: option.splits)
  from message_lost_on_write_failure [OF dispatch_serves function_client_ok example_both _ example_casts
      wire_adapter_for f]
  show ?thesis by simp
qed

end
